(* ===== verification/Prelude.thy ===== *)
theory Prelude
  imports Main "HOL-Library.Word"
begin

text \<open>
  Shared vocabulary of the development: the machine integers of the Rust sources, the
  panics of the contracts as values of one datatype, actions that read and write an explicit
  state and may panic, and the arithmetic of a release build with \<open>overflow-checks = true\<close>
  (the workspace's \<open>Cargo.toml\<close>).

  Fact collections: \<open>run\<close> holds the inversion rules that turn \<open>m s = Inr (x, t)\<close> into
  facts about the parts of \<open>m\<close>; \<open>keep\<close> the rules that an action keeps a predicate on the
  state; \<open>exact\<close> the values of word expressions that did not overflow.
\<close>

section \<open>Machine integers and names\<close>

type_synonym u8 = "8 word"
type_synonym u16 = "16 word"
type_synonym u64 = "64 word"
type_synonym u128 = "128 word"
type_synonym u256 = "256 word"

text \<open>NEAR account names are Rust strings.\<close>

type_synonym account = string

section \<open>Panics\<close>

text \<open>
  One constructor for each panic the sources can raise, in groups: the language (checked
  arithmetic, \<open>unwrap\<close>, division) and the collections; the caller checks; the checks on a
  new data request; those on staking, finalization and claims; those on storage deposits,
  configuration and token balances. The values are the ones the message prints.
\<close>

datatype rust_error =
    ErrOverflow
  | ErrDivisionByZero
  | ErrUnwrapNone
  | ErrIndexOutOfBounds
  | ErrInconsistentState
  | ErrUnreachable

datatype access_error =
    ErrNotInitialized
  | ErrAlreadyInitialized
  | ErrPaused
  | ErrNotGov account
  | ErrSender account
  | ErrNotFinalArbitrator account
  | ErrWrongProvider
  | ErrNotProviderRequest
  | ErrNotWhitelisted
  | ErrRequesterNotWhitelisted
  | ErrMultiplierNotWhitelisted
  | ErrUninitiatedWhitelist
  | ErrPrivate
  | ErrOneYocto

datatype validation_error =
    ErrValidityBond u128 u128
  | ErrDescriptionMissing
  | ErrTooManySources u8
  | ErrChallengeTooShort u64
  | ErrChallengeTooLong u64
  | ErrTooManyTags u8
  | ErrOutcomeList u8 u8
  | ErrPayload
  | ErrWrongPaymentToken
  | ErrWrongStakeToken
  | ErrZeroMultiplier
  | ErrZeroValidityBond
  | ErrZeroResolutionBond
  | ErrTvsAboveMarketCap
  | ErrFeePercentage

datatype request_error =
    ErrNoResolutionWindow
  | ErrBondedOutcome
  | ErrLessStaked account u128
  | ErrNoBondedOutcomeFound
  | ErrNoFinalOutcome
  | ErrIncompatibleOutcome
  | ErrOutcomeNotString
  | ErrWrongOutcomeType
  | ErrWrongMultiplier
  | ErrIncompatibleRound
  | ErrStillInProgress
  | ErrOnlyFinalArbitrator account
  | ErrNotTimedOut
  | ErrArbitratorNotInvoked u64
  | ErrArbitratorInvoked u64
  | ErrDataRequestNotFound
  | ErrNoSuchRequest
  | ErrAlreadyFinalized
  | ErrNotYetFinalized
  | ErrNotEnoughGas
  | ErrClaimZero

datatype balance_error =
    ErrDepositBelowMinimum
  | ErrNotEnoughStorage
  | ErrStorageCost account u128 u128
  | ErrRequiredDeposit u128 u128
  | ErrNotRegistered account
  | ErrAccountNotRegistered
  | ErrBalanceOverflow
  | ErrNotEnoughBalance account
  | ErrSameAccount
  | ErrNoDeposit
  | ErrStorageDepositExact
  | ErrAlreadyRegistered
  | ErrStorageWithdrawExact
  | ErrPositiveBalance

datatype error =
    Rust rust_error
  | Access access_error
  | Validation validation_error
  | Request request_error
  | Balance balance_error

section \<open>Actions: explicit state and panics\<close>

text \<open>
  A method body is a function from the state to a panic, or to its result and the new
  state. A panic carries no state: the chain discards every write of a call that panics.
\<close>

type_synonym ('s, 'a) action = "'s \<Rightarrow> error + ('a \<times> 's)"

definition ret :: "'a \<Rightarrow> ('s, 'a) action" where
  "ret x s = Inr (x, s)"

definition panic :: "error \<Rightarrow> ('s, 'a) action" where
  "panic e s = Inl e"

definition bindM :: "('s, 'a) action \<Rightarrow> ('a \<Rightarrow> ('s, 'b) action) \<Rightarrow> ('s, 'b) action" where
  "bindM m f s = (case m s of Inl e \<Rightarrow> Inl e | Inr (x, t) \<Rightarrow> f x t)"

text \<open>\<open>assert!(b, e)\<close>\<close>

definition ensure :: "bool \<Rightarrow> error \<Rightarrow> ('s, unit) action" where
  "ensure b e s = (if b then Inr ((), s) else Inl e)"

text \<open>\<open>o.expect(e)\<close>, and \<open>o.unwrap()\<close> with \<open>Rust ErrUnwrapNone\<close>\<close>

definition expect :: "'a option \<Rightarrow> error \<Rightarrow> ('s, 'a) action" where
  "expect x e s = (case x of None \<Rightarrow> Inl e | Some y \<Rightarrow> Inr (y, s))"

definition reads :: "('s \<Rightarrow> 'a) \<Rightarrow> ('s, 'a) action" where
  "reads f s = Inr (f s, s)"

definition modifies :: "('s \<Rightarrow> 's) \<Rightarrow> ('s, unit) action" where
  "modifies f s = Inr ((), f s)"

text \<open>A computation that does not touch the state.\<close>

definition lift :: "error + 'a \<Rightarrow> ('s, 'a) action" where
  "lift r s = (case r of Inl e \<Rightarrow> Inl e | Inr x \<Rightarrow> Inr (x, s))"

definition bindR :: "error + 'a \<Rightarrow> ('a \<Rightarrow> error + 'b) \<Rightarrow> error + 'b" where
  "bindR r f = (case r of Inl e \<Rightarrow> Inl e | Inr x \<Rightarrow> f x)"

definition unwrap_or :: "'a option \<Rightarrow> 'a \<Rightarrow> 'a" where
  "unwrap_or x d = (case x of None \<Rightarrow> d | Some y \<Rightarrow> y)"

lemma unwrap_or_simps [simp]: "unwrap_or None d = d" "unwrap_or (Some y) d = y"
  by (simp_all add: unwrap_or_def)

named_theorems run \<open>what a successful run of an action means\<close>

lemma ret_Inr [run]: "ret x s = Inr (y, t) \<longleftrightarrow> y = x \<and> t = s"
  by (auto simp: ret_def)

lemma panic_Inr [run]: "panic e s = Inr r \<longleftrightarrow> False"
  by (simp add: panic_def)

lemma bindM_Inr [run]: "bindM m f s = Inr r \<longleftrightarrow> (\<exists>x t. m s = Inr (x, t) \<and> f x t = Inr r)"
  by (auto simp: bindM_def split: sum.splits)

lemma ensure_Inr [run]: "ensure b e s = Inr (u, t) \<longleftrightarrow> b \<and> t = s"
  by (auto simp: ensure_def)

lemma expect_Inr [run]: "expect x e s = Inr (y, t) \<longleftrightarrow> x = Some y \<and> t = s"
  by (auto simp: expect_def split: option.splits)

lemma reads_Inr [run]: "reads f s = Inr (y, t) \<longleftrightarrow> y = f s \<and> t = s"
  by (auto simp: reads_def)

lemma modifies_Inr [run]: "modifies f s = Inr (u, t) \<longleftrightarrow> t = f s"
  by (auto simp: modifies_def)

lemma lift_Inr [run]: "lift r s = Inr (y, t) \<longleftrightarrow> r = Inr y \<and> t = s"
  by (auto simp: lift_def split: sum.splits)

lemma bindR_Inr [run]: "bindR r f = Inr y \<longleftrightarrow> (\<exists>x. r = Inr x \<and> f x = Inr y)"
  by (auto simp: bindR_def split: sum.splits)

lemma case_option_run [run]:
  "case_option m f x s = Inr r \<longleftrightarrow> (case x of None \<Rightarrow> m s = Inr r | Some y \<Rightarrow> f y s = Inr r)"
  by (simp split: option.split)

lemma if_run [run]: "(if b then m else m') s = Inr r \<longleftrightarrow> (if b then m s = Inr r else m' s = Inr r)"
  by simp

text \<open>Running an action forwards, one statement at a time.\<close>

lemma bindM_step: "m s = Inr (x, t) \<Longrightarrow> bindM m f s = f x t"
  by (simp add: bindM_def)

lemma bindM_stop: "m s = Inl e \<Longrightarrow> bindM m f s = Inl e"
  by (simp add: bindM_def)

lemma bindM_cases:
  obtains (panics) e where "m s = Inl e" "bindM m f s = Inl e"
    | (returns) x t where "m s = Inr (x, t)" "bindM m f s = f x t"
  by (cases "m s") (auto simp: bindM_def)

lemma ensure_step: "b \<Longrightarrow> ensure b e s = Inr ((), s)"
  by (simp add: ensure_def)

lemma ensure_stop: "\<not> b \<Longrightarrow> ensure b e s = Inl e"
  by (simp add: ensure_def)

lemmas actions = ret_def panic_def bindM_def ensure_def expect_def reads_def modifies_def lift_def
  bindR_def

subsection \<open>Predicates an action keeps\<close>

text \<open>\<open>keeps P m\<close>: whenever \<open>m\<close> returns from a state with \<open>P\<close>, the new state has \<open>P\<close>.\<close>

definition keeps :: "('s \<Rightarrow> bool) \<Rightarrow> ('s, 'a) action \<Rightarrow> bool" where
  "keeps P m \<longleftrightarrow> (\<forall>s x t. m s = Inr (x, t) \<longrightarrow> P s \<longrightarrow> P t)"

named_theorems keep \<open>actions that keep a predicate on the state\<close>

lemma keepsD: "keeps P m \<Longrightarrow> m s = Inr (x, t) \<Longrightarrow> P s \<Longrightarrow> P t"
  by (auto simp: keeps_def)

lemma keepsI: "(\<And>s x t. m s = Inr (x, t) \<Longrightarrow> P s \<Longrightarrow> P t) \<Longrightarrow> keeps P m"
  by (auto simp: keeps_def)

lemma keeps_ret [keep]: "keeps P (ret x)"
  by (auto simp: keeps_def run)

lemma keeps_panic [keep]: "keeps P (panic e)"
  by (auto simp: keeps_def run)

lemma keeps_ensure [keep]: "keeps P (ensure b e)"
  by (auto simp: keeps_def run)

lemma keeps_expect [keep]: "keeps P (expect x e)"
  by (auto simp: keeps_def run)

lemma keeps_reads [keep]: "keeps P (reads f)"
  by (auto simp: keeps_def run)

lemma keeps_lift [keep]: "keeps P (lift r)"
  by (auto simp: keeps_def run)

lemma keeps_modifies [keep]: "(\<And>s. P s \<Longrightarrow> P (f s)) \<Longrightarrow> keeps P (modifies f)"
  by (auto simp: keeps_def run)

lemma keeps_bindM [keep]: "keeps P m \<Longrightarrow> (\<And>x. keeps P (f x)) \<Longrightarrow> keeps P (bindM m f)"
  by (fastforce simp: keeps_def run)

lemma keeps_if [keep]: "(b \<Longrightarrow> keeps P m) \<Longrightarrow> (\<not> b \<Longrightarrow> keeps P m') \<Longrightarrow> keeps P (if b then m else m')"
  by simp

lemma keeps_case_option [keep]:
  "keeps P m \<Longrightarrow> (\<And>y. keeps P (f y)) \<Longrightarrow> keeps P (case x of None \<Rightarrow> m | Some y \<Rightarrow> f y)"
  by (simp split: option.split)

lemma keeps_case_prod [keep]: "(\<And>a b. keeps P (f a b)) \<Longrightarrow> keeps P (case x of (a, b) \<Rightarrow> f a b)"
  by (simp split: prod.split)

lemma keeps_Let [keep]: "(\<And>y. keeps P (f y)) \<Longrightarrow> keeps P (Let x f)"
  by simp

subsection \<open>Loops over a list\<close>

primrec foreach :: "('a \<Rightarrow> ('s, unit) action) \<Rightarrow> 'a list \<Rightarrow> ('s, unit) action" where
  "foreach f [] = ret ()"
| "foreach f (x # xs) = bindM (f x) (\<lambda>_. foreach f xs)"

primrec collect :: "('a \<Rightarrow> ('s, 'b) action) \<Rightarrow> 'a list \<Rightarrow> ('s, 'b list) action" where
  "collect f [] = ret []"
| "collect f (x # xs) = bindM (f x) (\<lambda>y. bindM (collect f xs) (\<lambda>ys. ret (y # ys)))"

lemma keeps_foreach [keep]: "(\<And>x. keeps P (f x)) \<Longrightarrow> keeps P (foreach f xs)"
  by (induction xs) (simp_all add: keep)

lemma keeps_collect [keep]: "(\<And>x. keeps P (f x)) \<Longrightarrow> keeps P (collect f xs)"
  by (induction xs) (simp_all add: keep)

text \<open>A loop whose body only reads returns the values it reads, in order.\<close>

lemma collect_reads:
  assumes "\<And>x. x \<in> set xs \<Longrightarrow> f x s = Inr (g x, s)"
  shows "collect f xs s = Inr (map g xs, s)"
  using assms by (induction xs) (simp_all add: bindM_def ret_def)

section \<open>Checked arithmetic\<close>

text \<open>
  \<open>+\<close>, \<open>-\<close> and \<open>*\<close> on unsigned integers in a build with overflow checks: the exact
  result, or a panic. \<open>/\<close> panics on a zero divisor. \<open>as\<close> casts truncate: \<^const>\<open>ucast\<close>
  between words, \<^const>\<open>of_nat\<close> from a \<open>usize\<close> length.
\<close>

definition checked_add :: "'a::len word \<Rightarrow> 'a word \<Rightarrow> error + 'a word" where
  "checked_add x y = (if unat x + unat y < 2 ^ LENGTH('a) then Inr (x + y) else Inl (Rust ErrOverflow))"

definition checked_sub :: "'a::len word \<Rightarrow> 'a word \<Rightarrow> error + 'a word" where
  "checked_sub x y = (if y \<le> x then Inr (x - y) else Inl (Rust ErrOverflow))"

definition checked_mul :: "'a::len word \<Rightarrow> 'a word \<Rightarrow> error + 'a word" where
  "checked_mul x y = (if unat x * unat y < 2 ^ LENGTH('a) then Inr (x * y) else Inl (Rust ErrOverflow))"

definition checked_div :: "'a::len word \<Rightarrow> 'a word \<Rightarrow> error + 'a word" where
  "checked_div x y = (if y = 0 then Inl (Rust ErrDivisionByZero) else Inr (x div y))"

lemma unat_bound: "unat (x::'a::len word) < 2 ^ LENGTH('a)"
  by (rule unsigned_less)

text \<open>
  A successful operation returns the word result (these rules determine it, so they eliminate
  the intermediate values of a run), and its value is exact (the rules of \<open>exact\<close>).
\<close>

lemma checked_add_Inr [run]:
  fixes x y z :: "'a::len word"
  shows "checked_add x y = Inr z \<longleftrightarrow> unat x + unat y < 2 ^ LENGTH('a) \<and> z = x + y"
  by (auto simp: checked_add_def)

lemma checked_sub_Inr [run]: "checked_sub x y = Inr z \<longleftrightarrow> y \<le> x \<and> z = x - y"
  by (auto simp: checked_sub_def)

lemma checked_mul_Inr [run]:
  fixes x y z :: "'a::len word"
  shows "checked_mul x y = Inr z \<longleftrightarrow> unat x * unat y < 2 ^ LENGTH('a) \<and> z = x * y"
  by (auto simp: checked_mul_def)

lemma checked_div_Inr [run]: "checked_div x y = Inr z \<longleftrightarrow> y \<noteq> 0 \<and> z = x div y"
  by (auto simp: checked_div_def)

named_theorems exact \<open>values of word expressions that did not overflow\<close>

lemma unat_add_exact [exact]:
  fixes x y :: "'a::len word"
  shows "unat x + unat y < 2 ^ LENGTH('a) \<Longrightarrow> unat (x + y) = unat x + unat y"
  by (simp add: unat_word_ariths)

lemma unat_sub_exact [exact]: "y \<le> x \<Longrightarrow> unat (x - y) = unat x - unat y" for x y :: "'a::len word"
  by (rule unat_sub)

lemma unat_mul_exact [exact]:
  fixes x y :: "'a::len word"
  shows "unat x * unat y < 2 ^ LENGTH('a) \<Longrightarrow> unat (x * y) = unat x * unat y"
  by (simp add: unat_word_ariths)

lemma unat_div_exact [exact]: "unat (x div y) = unat x div unat y" for x y :: "'a::len word"
  by (rule unat_div)

lemma checked_add_exact:
  fixes x y z :: "'a::len word"
  shows "checked_add x y = Inr z \<longleftrightarrow> unat z = unat x + unat y"
proof (cases "unat x + unat y < 2 ^ LENGTH('a)")
  case True
  then show ?thesis by (auto simp: checked_add_Inr exact word_unat_eq_iff)
next
  case False
  then have "unat z \<noteq> unat x + unat y" using unat_bound [of z] by linarith
  with False show ?thesis by (simp add: checked_add_def)
qed

lemma checked_mul_exact:
  fixes x y z :: "'a::len word"
  shows "checked_mul x y = Inr z \<longleftrightarrow> unat z = unat x * unat y"
proof (cases "unat x * unat y < 2 ^ LENGTH('a)")
  case True
  then show ?thesis by (auto simp: checked_mul_Inr exact word_unat_eq_iff)
next
  case False
  then have "unat z \<noteq> unat x * unat y" using unat_bound [of z] by linarith
  with False show ?thesis by (simp add: checked_mul_def)
qed

lemma checked_add_total:
  fixes x y :: "'a::len word"
  shows "unat x + unat y < 2 ^ LENGTH('a) \<Longrightarrow> checked_add x y = Inr (x + y)"
  by (simp add: checked_add_def)

lemma checked_sub_total: "y \<le> x \<Longrightarrow> checked_sub x y = Inr (x - y)"
  by (simp add: checked_sub_def)

lemma unat_less_iff: "x < y \<longleftrightarrow> unat x < unat y" for x y :: "'a::len word"
  by (rule word_less_nat_alt)

lemma unat_le_iff: "x \<le> y \<longleftrightarrow> unat x \<le> unat y" for x y :: "'a::len word"
  by (rule word_le_nat_alt)

lemma unat_eq_iff: "x = y \<longleftrightarrow> unat x = unat y" for x y :: "'a::len word"
  by (rule word_unat_eq_iff)

lemmas unats = unat_less_iff unat_le_iff

text \<open>A cast to a wider word keeps the value; \<open>as\<close> a narrower one takes it modulo the width.\<close>

lemma unat_ucast_up:
  fixes x :: "'a::len word"
  assumes "LENGTH('a) \<le> LENGTH('b::len)"
  shows "unat (ucast x :: 'b word) = unat x"
proof -
  have "unat x < 2 ^ LENGTH('b)"
    using unat_bound [of x] power_increasing [OF assms, of "2::nat"] by linarith
  then show ?thesis
    by (simp add: unsigned_ucast_eq take_bit_nat_eq_self)
qed

lemma unat_ucast_fits:
  fixes x :: "'a::len word"
  assumes "unat x < 2 ^ LENGTH('b::len)"
  shows "unat (ucast x :: 'b word) = unat x"
  using assms by (simp add: unsigned_ucast_eq take_bit_nat_eq_self)

lemma unat_of_nat_fits: "n < 2 ^ LENGTH('a::len) \<Longrightarrow> unat (of_nat n :: 'a word) = n"
  by (simp add: unat_of_nat)

section \<open>Lists\<close>

lemma list_update_last: "xs \<noteq> [] \<Longrightarrow> xs[length xs - 1 := x] = butlast xs @ [x]"
  by (cases xs rule: rev_cases) auto

lemma list_update_last_Suc: "xs \<noteq> [] \<Longrightarrow> xs[length xs - Suc 0 := x] = butlast xs @ [x]"
  using list_update_last by fastforce

end
