(* ===== verification/Host.thy ===== *)
theory Host
  imports Prelude
begin

text \<open>
  What the contracts use of the NEAR host: the execution environment of one call
  (\<open>env::predecessor_account_id\<close>, \<open>env::attached_deposit\<close>, \<open>env::block_timestamp\<close>, ...),
  the promises a call schedules, and the persistent collections \<open>LookupMap\<close> and \<open>Vector\<close>.

  The collections are handles: the values that the Rust structs hold carry a storage prefix
  (and, for \<open>Vector\<close>, a length), the elements live in the account's storage under that
  prefix. Two handles with the same prefix share their elements, and a write through a handle
  is in storage at once, whether or not the struct that holds the handle is stored again.
  The storage is modelled as regions, one per element type: partial functions from a prefix
  and a key to an element. The client-visible laws of both collections are the interfaces
  \<open>lookup_map\<close> and \<open>persistent_vector\<close>; the other theories use the laws.
\<close>

section \<open>The environment of a call\<close>

text \<open>
  \<open>storage_usage\<close> is the host's count of the bytes in use, a function of the storage it
  counts; the type parameter is the storage of the contract.
\<close>

record 'st env =
  predecessor :: account
  current_account :: account
  attached_deposit :: u128
  block_timestamp :: u64
  block_index :: u64
  prepaid_gas :: u64
  used_gas :: u64
  storage_usage :: "'st \<Rightarrow> u64"

section \<open>Promises\<close>

text \<open>
  A receipt that a call leaves behind: a transfer of NEAR, a method call with its arguments,
  attached deposit and gas, a deployment of the code in the call's input followed by a method
  call, or one receipt to run after another (\<open>p.then(q)\<close>).
\<close>

datatype 'c promise =
    Transfer account u128
  | FunctionCall account 'c u128 u64
  | DeployAndCall account 'c u128 u64
  | AndThen "'c promise" "'c promise"

section \<open>Storage regions\<close>

type_synonym ('k, 'v) region = "string \<times> 'k \<Rightarrow> 'v option"

subsection \<open>LookupMap\<close>

type_synonym lookup_map_handle = string

definition lm_get :: "('k, 'v) region \<Rightarrow> lookup_map_handle \<Rightarrow> 'k \<Rightarrow> 'v option" where
  "lm_get r p k = r (p, k)"

definition lm_insert ::
  "('k, 'v) region \<Rightarrow> lookup_map_handle \<Rightarrow> 'k \<Rightarrow> 'v \<Rightarrow> ('k, 'v) region" where
  "lm_insert r p k v = r((p, k) \<mapsto> v)"

definition lm_remove :: "('k, 'v) region \<Rightarrow> lookup_map_handle \<Rightarrow> 'k \<Rightarrow> ('k, 'v) region" where
  "lm_remove r p k = r((p, k) := None)"

text \<open>What a client of \<open>LookupMap\<close> relies on.\<close>

locale lookup_map =
  fixes get :: "'m \<Rightarrow> 'h \<Rightarrow> 'k \<Rightarrow> 'v option"
    and insert :: "'m \<Rightarrow> 'h \<Rightarrow> 'k \<Rightarrow> 'v \<Rightarrow> 'm"
    and remove :: "'m \<Rightarrow> 'h \<Rightarrow> 'k \<Rightarrow> 'm"
  assumes get_insert: "get (insert m h k v) h' k' = (if h' = h \<and> k' = k then Some v else get m h' k')"
    and get_remove: "get (remove m h k) h' k' = (if h' = h \<and> k' = k then None else get m h' k')"
begin

lemma get_insert_same: "get (insert m h k v) h k = Some v"
  by (simp add: get_insert)

lemma get_insert_key: "k' \<noteq> k \<Longrightarrow> get (insert m h k v) h' k' = get m h' k'"
  by (simp add: get_insert)

lemma get_insert_handle: "h' \<noteq> h \<Longrightarrow> get (insert m h k v) h' k' = get m h' k'"
  by (simp add: get_insert)

lemma get_remove_same: "get (remove m h k) h k = None"
  by (simp add: get_remove)

lemma read_insert:
  "unwrap_or (get (insert m h k v) h' k') d = (if h' = h \<and> k' = k then v else unwrap_or (get m h' k') d)"
  by (simp add: get_insert)

lemma read_remove:
  "unwrap_or (get (remove m h k) h' k') d = (if h' = h \<and> k' = k then d else unwrap_or (get m h' k') d)"
  by (simp add: get_remove)

end

interpretation lm: lookup_map lm_get lm_insert lm_remove
  by unfold_locales (auto simp: lm_get_def lm_insert_def lm_remove_def)

lemmas lm_simps [simp] = lm.get_insert lm.get_remove

subsection \<open>Vector\<close>

record vector_handle =
  vec_prefix :: string
  vec_len :: u64

definition vec_new :: "string \<Rightarrow> vector_handle" where
  "vec_new p = \<lparr>vec_prefix = p, vec_len = 0\<rparr>"

definition vec_get :: "(nat, 'v) region \<Rightarrow> vector_handle \<Rightarrow> u64 \<Rightarrow> error + 'v option" where
  "vec_get r v i =
     (if i < vec_len v then
        (case r (vec_prefix v, unat i) of
           None \<Rightarrow> Inl (Rust ErrInconsistentState)
         | Some x \<Rightarrow> Inr (Some x))
      else Inr None)"

definition vec_push ::
  "(nat, 'v) region \<Rightarrow> vector_handle \<Rightarrow> 'v \<Rightarrow> error + ((nat, 'v) region \<times> vector_handle)" where
  "vec_push r v x =
     bindR (checked_add (vec_len v) 1) (\<lambda>n.
     Inr (r((vec_prefix v, unat (vec_len v)) \<mapsto> x), v\<lparr>vec_len := n\<rparr>))"

definition vec_replace ::
  "(nat, 'v) region \<Rightarrow> vector_handle \<Rightarrow> u64 \<Rightarrow> 'v \<Rightarrow> error + (nat, 'v) region" where
  "vec_replace r v i x =
     (if i < vec_len v then
        (case r (vec_prefix v, unat i) of
           None \<Rightarrow> Inl (Rust ErrInconsistentState)
         | Some _ \<Rightarrow> Inr (r((vec_prefix v, unat i) \<mapsto> x)))
      else Inl (Rust ErrIndexOutOfBounds))"

text \<open>
  A handle agrees with the storage when every index below its length is stored; its elements
  are then the list that the code iterates over.
\<close>

definition vec_ok :: "(nat, 'v) region \<Rightarrow> vector_handle \<Rightarrow> bool" where
  "vec_ok r v \<longleftrightarrow> (\<forall>i < unat (vec_len v). r (vec_prefix v, i) \<noteq> None)"

definition vec_elems :: "(nat, 'v) region \<Rightarrow> vector_handle \<Rightarrow> 'v list" where
  "vec_elems r v = map (\<lambda>i. the (r (vec_prefix v, i))) [0..<unat (vec_len v)]"

lemma length_vec_elems [simp]: "length (vec_elems r v) = unat (vec_len v)"
  by (simp add: vec_elems_def)

lemma vec_elems_nth: "i < unat (vec_len v) \<Longrightarrow> vec_elems r v ! i = the (r (vec_prefix v, i))"
  by (simp add: vec_elems_def)

lemma vec_new_elems [simp]: "vec_elems r (vec_new p) = []" "vec_ok r (vec_new p)"
  by (simp_all add: vec_elems_def vec_ok_def vec_new_def)

lemma vec_elems_frame:
  "(\<And>i. i < unat (vec_len v) \<Longrightarrow> r' (vec_prefix v, i) = r (vec_prefix v, i)) \<Longrightarrow>
   vec_elems r' v = vec_elems r v"
  by (simp add: vec_elems_def)

lemma vec_ok_frame:
  "(\<And>i. i < unat (vec_len v) \<Longrightarrow> r' (vec_prefix v, i) = r (vec_prefix v, i)) \<Longrightarrow>
   vec_ok r' v = vec_ok r v"
  by (simp add: vec_ok_def)

lemma vec_get_elems:
  "vec_ok r v \<Longrightarrow> vec_get r v i =
     Inr (if unat i < length (vec_elems r v) then Some (vec_elems r v ! unat i) else None)"
  by (auto simp: vec_get_def vec_ok_def vec_elems_nth unat_less_iff split: option.splits)

lemma vec_push_elems:
  assumes "vec_push r v x = Inr (r', v')" and "vec_ok r v"
  shows "vec_ok r' v' \<and> vec_elems r' v' = vec_elems r v @ [x] \<and> vec_prefix v' = vec_prefix v"
proof -
  let ?n = "vec_len v + 1"
  from assms(1) have fits: "Suc (unat (vec_len v)) < 2 ^ 64"
    and r': "r' = r((vec_prefix v, unat (vec_len v)) \<mapsto> x)" and v': "v' = v\<lparr>vec_len := ?n\<rparr>"
    by (auto simp: vec_push_def run)
  from fits have n: "unat ?n = Suc (unat (vec_len v))"
    by (simp add: exact)
  have "vec_elems r' v' = vec_elems r v @ [x]"
    by (rule nth_equalityI) (auto simp: r' v' n vec_elems_def nth_append less_Suc_eq)
  moreover have "vec_ok r' v'"
    using assms(2) by (auto simp: r' v' n vec_ok_def less_Suc_eq)
  ultimately show ?thesis by (simp add: v')
qed

lemma vec_push_other:
  "vec_push r v x = Inr (r', v') \<Longrightarrow> p \<noteq> vec_prefix v \<Longrightarrow> r' (p, i) = r (p, i)"
  by (auto simp: vec_push_def run)

lemma vec_replace_elems:
  assumes "vec_ok r v" and "unat i < length (vec_elems r v)"
  shows "\<exists>r'. vec_replace r v i x = Inr r' \<and> vec_ok r' v \<and>
           vec_elems r' v = (vec_elems r v)[unat i := x]"
proof -
  let ?r = "r((vec_prefix v, unat i) \<mapsto> x)"
  from assms obtain y where "r (vec_prefix v, unat i) = Some y"
    by (auto simp: vec_ok_def)
  moreover have "vec_elems ?r v = (vec_elems r v)[unat i := x]"
    by (rule nth_equalityI) (auto simp: vec_elems_def nth_list_update)
  ultimately show ?thesis
    using assms by (auto simp: vec_replace_def unat_less_iff vec_ok_def)
qed

lemma vec_replace_out: "\<not> unat i < length (vec_elems r v) \<Longrightarrow>
  vec_replace r v i x = Inl (Rust ErrIndexOutOfBounds)"
  by (simp add: vec_replace_def unat_less_iff)

lemma vec_replace_other:
  "vec_replace r v i x = Inr r' \<Longrightarrow> p \<noteq> vec_prefix v \<Longrightarrow> r' (p, j) = r (p, j)"
  by (auto simp: vec_replace_def split: if_splits option.splits)

text \<open>What a client of \<open>Vector\<close> relies on: the operations are those of the list of items.\<close>

locale persistent_vector =
  fixes ok :: "'m \<Rightarrow> 'h \<Rightarrow> bool"
    and items :: "'m \<Rightarrow> 'h \<Rightarrow> 'v list"
    and get :: "'m \<Rightarrow> 'h \<Rightarrow> u64 \<Rightarrow> error + 'v option"
    and push :: "'m \<Rightarrow> 'h \<Rightarrow> 'v \<Rightarrow> error + ('m \<times> 'h)"
    and replace :: "'m \<Rightarrow> 'h \<Rightarrow> u64 \<Rightarrow> 'v \<Rightarrow> error + 'm"
    and len :: "'h \<Rightarrow> u64"
  assumes len_items: "unat (len h) = length (items m h)"
    and get_items: "ok m h \<Longrightarrow>
      get m h i = Inr (if unat i < length (items m h) then Some (items m h ! unat i) else None)"
    and push_items: "push m h x = Inr (m', h') \<Longrightarrow> ok m h \<Longrightarrow>
      ok m' h' \<and> items m' h' = items m h @ [x]"
    and replace_items: "ok m h \<Longrightarrow> unat i < length (items m h) \<Longrightarrow>
      \<exists>m'. replace m h i x = Inr m' \<and> ok m' h \<and> items m' h = (items m h)[unat i := x]"
    and replace_range: "\<not> unat i < length (items m h) \<Longrightarrow>
      replace m h i x = Inl (Rust ErrIndexOutOfBounds)"
begin

lemma get_last:
  assumes "ok m h" and "items m h \<noteq> []"
  shows "checked_sub (len h) 1 = Inr (len h - 1) \<and> get m h (len h - 1) = Inr (Some (last (items m h)))"
proof -
  from assms(2) have n: "unat (len h) \<noteq> 0" by (simp add: len_items [of h m])
  then have l: "1 \<le> len h" by (simp add: unat_le_iff)
  from n have "len h \<noteq> 0" by auto
  then have u: "unat (len h - 1) = length (items m h) - 1"
    by (simp add: unat_minus_one len_items [of h m])
  have "get m h (len h - 1) = Inr (Some (items m h ! (length (items m h) - 1)))"
    using assms n by (simp add: get_items u)
  with assms l show ?thesis by (simp add: last_conv_nth checked_sub_total)
qed

lemma replace_last:
  assumes "ok m h" and "items m h \<noteq> []"
  shows "\<exists>m'. replace m h (len h - 1) x = Inr m' \<and> ok m' h \<and> items m' h = butlast (items m h) @ [x]"
proof -
  from assms(2) have n: "unat (len h) \<noteq> 0" by (simp add: len_items [of h m])
  then have "len h \<noteq> 0" by auto
  then have u: "unat (len h - 1) = length (items m h) - 1"
    by (simp add: unat_minus_one len_items [of h m])
  from assms(2) have "unat (len h - 1) < length (items m h)" by (simp add: u)
  from replace_items [OF assms(1) this, of x] show ?thesis
    using assms(2) by (simp add: u list_update_last_Suc)
qed

lemma replace_inv:
  assumes "replace m h i x = Inr m'" and "ok m h"
  shows "unat i < length (items m h) \<and> ok m' h \<and> items m' h = (items m h)[unat i := x]"
proof -
  from assms(1) have "unat i < length (items m h)"
    using replace_range by fastforce
  with replace_items [OF assms(2) this, of x] assms(1) show ?thesis by auto
qed

lemma get_some:
  assumes "get m h i = Inr (Some x)" and "ok m h"
  shows "unat i < length (items m h) \<and> x = items m h ! unat i"
  using assms by (simp add: get_items split: if_splits)

end

interpretation vec: persistent_vector vec_ok vec_elems vec_get vec_push vec_replace vec_len
  by unfold_locales (auto simp: vec_get_elems vec_replace_out dest: vec_push_elems intro: vec_replace_elems)

end
