(* ===== verification/Formatting.thy ===== *)
theory Formatting
  imports Prelude
begin

text \<open>
  The decimal rendering that \<open>format!("{}", n)\<close> gives an unsigned integer, its inverse, and
  the separator lemmas that make the storage prefixes of \<open>resolution_window.rs\<close> and the
  record names of \<open>logger.rs\<close> readable back.
\<close>

section \<open>Decimal numbers\<close>

definition digit_char :: "nat \<Rightarrow> char" where
  "digit_char d = char_of (48 + d)"

fun decimal :: "nat \<Rightarrow> string" where
  "decimal n = (if n < 10 then [digit_char n] else decimal (n div 10) @ [digit_char (n mod 10)])"

declare decimal.simps [simp del]

definition undecimal :: "string \<Rightarrow> nat" where
  "undecimal s = foldl (\<lambda>a c. 10 * a + (of_char c - 48)) 0 s"

lemma of_digit_char: "d < 10 \<Longrightarrow> of_char (digit_char d) = (48 + d :: nat)"
  by (simp add: digit_char_def)

lemma undecimal_snoc: "undecimal (s @ [c]) = 10 * undecimal s + (of_char c - 48)"
  by (simp add: undecimal_def)

lemma undecimal_decimal [simp]: "undecimal (decimal n) = n"
proof (induction n rule: decimal.induct)
  case (1 n)
  show ?case
  proof (cases "n < 10")
    case True
    then show ?thesis
      by (subst decimal.simps) (simp add: undecimal_def of_digit_char)
  next
    case False
    then have "undecimal (decimal n) = 10 * undecimal (decimal (n div 10)) + n mod 10"
      by (subst decimal.simps) (simp add: undecimal_snoc of_digit_char)
    with False "1.IH" show ?thesis by simp
  qed
qed

lemma decimal_inject [simp]: "decimal m = decimal n \<longleftrightarrow> m = n"
  by (metis undecimal_decimal)

lemma decimal_chars: "c \<in> set (decimal n) \<Longrightarrow> 48 \<le> (of_char c :: nat) \<and> (of_char c :: nat) \<le> 57"
proof (induction n rule: decimal.induct)
  case (1 n)
  show ?case
  proof (cases "n < 10")
    case True
    with "1.prems" show ?thesis
      by (subst (asm) decimal.simps) (auto simp: of_digit_char)
  next
    case False
    with "1.prems" have "c \<in> set (decimal (n div 10)) \<or> c = digit_char (n mod 10)"
      by (subst (asm) decimal.simps) auto
    moreover have "n mod 10 < 10" by simp
    ultimately show ?thesis
      using "1.IH" False of_digit_char [of "n mod 10"] by auto
  qed
qed

lemma decimal_not_Nil [simp]: "decimal n \<noteq> []"
  by (subst decimal.simps) simp

lemma colon_not_in_decimal [simp]: "CHR '':'' \<notin> set (decimal n)"
  using decimal_chars [of "CHR '':''" n] by auto

lemma underscore_not_in_decimal [simp]: "CHR ''_'' \<notin> set (decimal n)"
  using decimal_chars [of "CHR ''_''" n] by auto

lemma decimal_hd_not_colon [simp]: "decimal n \<noteq> CHR '':'' # s" "CHR '':'' # s \<noteq> decimal n"
  using colon_not_in_decimal [of n] by (cases "decimal n"; auto)+

section \<open>Separators\<close>

lemma separator_split:
  assumes "x \<notin> set a" and "x \<notin> set c"
  shows "a @ x # b = c @ x # d \<longleftrightarrow> a = c \<and> b = d"
  using assms
proof (induction a arbitrary: c)
  case Nil
  then show ?case by (cases c) auto
next
  case (Cons y a)
  then show ?case by (cases c) auto
qed

text \<open>\<open>format!("{}:{}", m, s)\<close> and \<open>format!("{}_{}", m, s)\<close> determine \<open>m\<close> and \<open>s\<close>.\<close>

lemma decimal_colon [simp]: "decimal m @ CHR '':'' # s = decimal n @ CHR '':'' # t \<longleftrightarrow> m = n \<and> s = t"
  by (simp add: separator_split)

lemma decimal_underscore [simp]:
  "decimal m @ CHR ''_'' # s = decimal n @ CHR ''_'' # t \<longleftrightarrow> m = n \<and> s = t"
  by (simp add: separator_split)

lemma unat_decimal [simp]: "decimal (unat x) = decimal (unat y) \<longleftrightarrow> x = y" for x y :: "'a::len word"
  by (simp add: unat_eq_iff)

section \<open>Machine integers and booleans\<close>

definition show_u64 :: "u64 \<Rightarrow> string" where
  "show_u64 x = decimal (unat x)"

definition show_u16 :: "u16 \<Rightarrow> string" where
  "show_u16 x = decimal (unat x)"

definition show_u128 :: "u128 \<Rightarrow> string" where
  "show_u128 x = decimal (unat x)"

definition show_bool :: "bool \<Rightarrow> string" where
  "show_bool b = (if b then ''true'' else ''false'')"

lemma show_bool_inject [simp]: "show_bool a = show_bool b \<longleftrightarrow> a = b"
  by (simp add: show_bool_def)

end
