(* ===== verification/Oracle_Types.thy ===== *)
theory Oracle_Types
  imports Host Formatting
begin

text \<open>
  The data of the oracle contract. The structs and enums are those the sources under
  \<open>oracle/src\<close> build and take apart, field by field (\<open>ResolutionWindow\<close> at
  \<open>resolution_window.rs\<close>, \<open>ActiveDataRequest\<close>, \<open>DataRequestConfig\<close>, \<open>FinalizedDataRequest\<close>,
  the summaries and \<open>ClaimRes\<close> at \<open>data_request.rs\<close>, \<open>Requester\<close> at
  \<open>requester_handler.rs\<close>, \<open>OracleConfig\<close> and \<open>FeeConfig\<close> at the literals of \<open>fee_config.rs\<close>).
  The \<open>U64\<close> and \<open>U128\<close> wrappers, which only choose a JSON rendering, are dropped.
  Field names carry a short prefix where Rust has the same name in two structs.
\<close>

section \<open>Outcomes\<close>

datatype answer_number = AnswerNumber (num_value: u128) (num_multiplier: u128) (num_negative: bool)

datatype answer_type = AString string | ANumber answer_number

datatype outcome = Answer answer_type | Invalid

datatype data_request_data_type = TString | TNumber u128

section \<open>Configuration\<close>

record fee_config =
  flux_market_cap :: u128
  total_value_staked :: u128
  resolution_fee_percentage :: nat

record oracle_config =
  cfg_gov :: account
  cfg_final_arbitrator :: account
  cfg_payment_token :: account
  cfg_stake_token :: account
  cfg_validity_bond :: u128
  cfg_max_outcomes :: u8
  cfg_default_challenge_window_duration :: u64
  cfg_min_initial_challenge_window_duration :: u64
  cfg_final_arbitrator_invoke_amount :: u128
  cfg_fee :: fee_config
  cfg_min_resolution_bond :: u128

record requester =
  contract_name :: string
  account_id :: account
  stake_multiplier :: "u16 option"
  code_base_url :: "string option"

section \<open>Data requests\<close>

record source =
  end_point :: string
  source_path :: string

record new_data_request_args =
  arg_sources :: "source list option"
  arg_outcomes :: "string list option"
  arg_challenge_period :: u64
  arg_description :: "string option"
  arg_tags :: "string list"
  arg_data_type :: data_request_data_type
  arg_provider :: "account option"

record stake_data_request_args =
  stake_id :: u64
  stake_outcome :: outcome

datatype payload = NewDataRequest new_data_request_args | StakeDataRequest stake_data_request_args

text \<open>A resolution window holds two handles; the stakes are in storage.\<close>

record resolution_window =
  rw_dr_id :: u64
  rw_round :: u16
  rw_start_time :: u64
  rw_end_time :: u64
  rw_bond_size :: u128
  rw_outcome_to_stake :: lookup_map_handle
  rw_user_to_outcome_to_stake :: lookup_map_handle
  rw_bonded_outcome :: "outcome option"

datatype window_stake_result =
    Correct (bonded_stake: u128) (user_stake: u128)
  | Incorrect u128
  | NoResult

record data_request_config =
  rc_default_challenge_window_duration :: u64
  rc_final_arbitrator_invoke_amount :: u128
  rc_final_arbitrator :: account
  rc_validity_bond :: u128
  rc_stake_multiplier :: "u16 option"
  rc_paid_fee :: u128
  rc_min_resolution_bond :: u128

record active_data_request =
  adr_id :: u64
  adr_sources :: "source list"
  adr_outcomes :: "string list option"
  adr_requester :: requester
  adr_resolution_windows :: vector_handle
  adr_global_config_id :: u64
  adr_request_config :: data_request_config
  adr_initial_challenge_period :: u64
  adr_final_arbitrator_triggered :: bool
  adr_description :: "string option"
  adr_tags :: "string list"
  adr_data_type :: data_request_data_type
  adr_provider :: "account option"

record finalized_data_request =
  fdr_id :: u64
  fdr_finalized_outcome :: outcome
  fdr_resolution_windows :: vector_handle
  fdr_global_config_id :: u64
  fdr_paid_fee :: u128

datatype data_request = Active active_data_request | Finalized finalized_data_request

record claim_res =
  payment_token_payout :: u128
  stake_token_payout :: u128

section \<open>Summaries returned by the view methods\<close>

record resolution_window_summary =
  rws_round :: u16
  rws_start_time :: u64
  rws_end_time :: u64
  rws_bond_size :: u128
  rws_bonded_outcome :: "outcome option"

record data_request_config_summary =
  rcs_validity_bond :: u128
  rcs_paid_fee :: u128
  rcs_stake_multiplier :: "u16 option"
  rcs_min_resolution_bond :: u128

record active_data_request_summary =
  ads_id :: u64
  ads_description :: "string option"
  ads_sources :: "source list"
  ads_outcomes :: "string list option"
  ads_requester :: requester
  ads_resolution_windows :: "resolution_window_summary list"
  ads_global_config_id :: u64
  ads_initial_challenge_period :: u64
  ads_final_arbitrator_triggered :: bool
  ads_tags :: "string list"
  ads_data_type :: data_request_data_type
  ads_request_config :: data_request_config_summary

record finalized_data_request_summary =
  fds_id :: u64
  fds_finalized_outcome :: outcome
  fds_resolution_windows :: "resolution_window_summary list"
  fds_global_config_id :: u64
  fds_paid_fee :: u128

datatype data_request_summary =
    ActiveSummary active_data_request_summary
  | FinalizedSummary finalized_data_request_summary

section \<open>Storage deposits\<close>

record account_storage_balance =
  asb_total :: u128
  asb_available :: u128

record storage_balance =
  sb_total :: u128
  sb_available :: u128

record storage_bounds =
  sbb_min :: u128
  sbb_max :: "u128 option"

section \<open>Constants of the SDKs\<close>

text \<open>
  Numbers and keys that the sources import from \<open>flux_sdk\<close> and \<open>near_sdk\<close>, whose code is
  not part of the repository: every definition that uses one takes this record.
\<close>

record sdk =
  max_sources :: u8
  max_tags :: u8
  min_outcomes :: u8
  min_period_multiplier :: u64
  max_resolution_fee_percentage :: nat
  gas_base_transfer :: u64
  gas_base_set_outcome :: u64
  storage_price_per_byte :: u128
  key_whitelist :: string
  key_configs :: string
  key_data_requests :: string
  key_accounts :: string

section \<open>Methods of other contracts that the oracle calls\<close>

datatype oracle_call =
    Ft_transfer account u128 "string option"
  | Set_outcome account outcome "string list"
  | Migrate

type_synonym oracle_promise = "oracle_call promise"

text \<open>\<open>near_sdk::PromiseOrValue\<close>\<close>

datatype 'a promise_or_value = PromiseOf oracle_promise | ValueOf 'a

end
