(* ===== verification/Logger.thy ===== *)
theory Logger
  imports Oracle_Types
begin

text \<open>
  \<open>oracle/src/logger.rs\<close>: the log record that each function hands to \<open>env::log\<close>, as the tree
  that \<open>json!\<close> builds. \<open>JU64\<close>, \<open>JU128\<close> and \<open>JNum\<close> stand for the rendered integers (the \<open>U64\<close>
  and \<open>U128\<close> wrappers and plain numbers), \<open>JOutcome\<close>, \<open>JRequester\<close>, \<open>JDataType\<close> and
  \<open>JSources\<close> for the serde rendering of a value of that type; turning the tree into bytes is
  \<open>serde_json\<close>. The \<open>cap_id\<close> names, which an indexer uses as record keys, are computed.
\<close>

datatype json =
    JNull
  | JBool bool
  | JStr string
  | JNum nat
  | JU64 u64
  | JU128 u128
  | JStrs "string list"
  | JObj "(string \<times> json) list"
  | JOutcome outcome
  | JRequester requester
  | JDataType data_request_data_type
  | JSources "source list"

definition json_option :: "('a \<Rightarrow> json) \<Rightarrow> 'a option \<Rightarrow> json" where
  "json_option f x = (case x of None \<Rightarrow> JNull | Some y \<Rightarrow> f y)"

text \<open>\<open>helpers::ns_to_ms\<close>\<close>

definition ns_to_ms :: "u64 \<Rightarrow> u64" where
  "ns_to_ms ns_timestamp = ns_timestamp div 1000000"

section \<open>Data requests\<close>

definition log_new_data_request :: "'st env \<Rightarrow> active_data_request \<Rightarrow> json" where
  "log_new_data_request E request = JObj [
     (''type'', JStr ''data_requests''),
     (''action'', JStr ''update''),
     (''cap_id'', JStr (''dr_'' @ show_u64 (adr_id request))),
     (''params'', JObj [
       (''id'', JU64 (adr_id request)),
       (''sources'', JSources (adr_sources request)),
       (''description'', json_option JStr (adr_description request)),
       (''outcomes'', json_option JStrs (adr_outcomes request)),
       (''requester'', JRequester (adr_requester request)),
       (''requester_account_id'', JStr (account_id (adr_requester request))),
       (''finalized_outcome'', JNull),
       (''initial_challenge_period'', JU64 (adr_initial_challenge_period request)),
       (''final_arbitrator_triggered'', JBool (adr_final_arbitrator_triggered request)),
       (''paid_fee'', JU128 (rc_paid_fee (adr_request_config request))),
       (''stake_multiplier'',
         json_option (\<lambda>m. JNum (unat m)) (rc_stake_multiplier (adr_request_config request))),
       (''global_config_id'', JU64 (adr_global_config_id request)),
       (''tags'', JStrs (adr_tags request)),
       (''date'', JU64 (ns_to_ms (block_timestamp E))),
       (''block_height'', JU64 (block_index E)),
       (''data_type'', JDataType (adr_data_type request))])]"

definition log_update_active_data_request :: "active_data_request \<Rightarrow> json" where
  "log_update_active_data_request request = JObj [
     (''type'', JStr ''data_requests''),
     (''action'', JStr ''update''),
     (''cap_id'', JStr (''dr_'' @ show_u64 (adr_id request))),
     (''params'', JObj [
       (''id'', JU64 (adr_id request)),
       (''sources'', JSources (adr_sources request)),
       (''outcomes'', json_option JStrs (adr_outcomes request)),
       (''requester'', JRequester (adr_requester request)),
       (''initial_challenge_period'', JU64 (adr_initial_challenge_period request)),
       (''final_arbitrator_triggered'', JBool (adr_final_arbitrator_triggered request))])]"

definition log_update_finalized_data_request :: "finalized_data_request \<Rightarrow> json" where
  "log_update_finalized_data_request request = JObj [
     (''type'', JStr ''data_requests''),
     (''action'', JStr ''update''),
     (''cap_id'', JStr (''dr_'' @ show_u64 (fdr_id request))),
     (''params'', JObj [
       (''id'', JU64 (fdr_id request)),
       (''finalized_outcome'', JOutcome (fdr_finalized_outcome request))])]"

section \<open>Configuration and whitelist\<close>

definition log_oracle_config :: "'st env \<Rightarrow> oracle_config \<Rightarrow> u64 \<Rightarrow> json" where
  "log_oracle_config E config i = JObj [
     (''type'', JStr ''oracle_configs''),
     (''action'', JStr ''update''),
     (''cap_id'', JStr (''oc_'' @ show_u64 i)),
     (''params'', JObj [
       (''id'', JU64 i),
       (''gov'', JStr (cfg_gov config)),
       (''final_arbitrator'', JStr (cfg_final_arbitrator config)),
       (''stake_token'', JStr (cfg_stake_token config)),
       (''payment_token'', JStr (cfg_payment_token config)),
       (''validity_bond'', JU128 (cfg_validity_bond config)),
       (''max_outcomes'', JNum (unat (cfg_max_outcomes config))),
       (''default_challenge_window_duration'', JU64 (cfg_default_challenge_window_duration config)),
       (''min_initial_challenge_window_duration'',
         JU64 (cfg_min_initial_challenge_window_duration config)),
       (''final_arbitrator_invoke_amount'', JU128 (cfg_final_arbitrator_invoke_amount config)),
       (''fee'', JObj [
         (''flux_market_cap'', JU128 (flux_market_cap (cfg_fee config))),
         (''total_value_staked'', JU128 (total_value_staked (cfg_fee config))),
         (''resolution_fee_percentage'', JNum (resolution_fee_percentage (cfg_fee config)))]),
       (''date'', JU64 (ns_to_ms (block_timestamp E))),
       (''block_height'', JU64 (block_index E))])]"

definition log_whitelist :: "'st env \<Rightarrow> requester \<Rightarrow> bool \<Rightarrow> json" where
  "log_whitelist E requester active = JObj [
     (''type'', JStr ''whitelist''),
     (''action'', JStr ''update''),
     (''cap_id'', JStr (''wl_'' @ account_id requester)),
     (''params'', JObj [
       (''id'', JStr (''wl_'' @ account_id requester)),
       (''contract_name'', JStr (contract_name requester)),
       (''account_id'', JStr (account_id requester)),
       (''stake_multiplier'', json_option (\<lambda>m. JNum (unat m)) (stake_multiplier requester)),
       (''code_base_url'', json_option JStr (code_base_url requester)),
       (''active'', JBool active),
       (''date'', JU64 (ns_to_ms (block_timestamp E))),
       (''block_height'', JU64 (block_index E))])]"

section \<open>Resolution windows and stakes\<close>

definition rw_cap_id :: "resolution_window \<Rightarrow> string" where
  "rw_cap_id window = ''rw_'' @ show_u64 (rw_dr_id window) @ ''_'' @ show_u16 (rw_round window)"

definition log_resolution_window :: "'st env \<Rightarrow> resolution_window \<Rightarrow> json" where
  "log_resolution_window E window = JObj [
     (''type'', JStr ''resolution_windows''),
     (''action'', JStr ''update''),
     (''cap_id'', JStr (rw_cap_id window)),
     (''params'', JObj [
       (''id'', JStr (rw_cap_id window)),
       (''dr_id'', JU64 (rw_dr_id window)),
       (''round'', JNum (unat (rw_round window))),
       (''start_time'', JU64 (rw_start_time window)),
       (''end_time'', JU64 (rw_end_time window)),
       (''bond_size'', JU128 (rw_bond_size window)),
       (''bonded_outcome'', json_option JOutcome (rw_bonded_outcome window)),
       (''date'', JU64 (ns_to_ms (block_timestamp E))),
       (''block_height'', JU64 (block_index E))])]"

definition outcome_to_id :: "outcome \<Rightarrow> string" where
  "outcome_to_id outc =
     (case outc of
        Answer answer \<Rightarrow>
          (case answer of
             AString str_ans \<Rightarrow> ''ans_str_'' @ str_ans
           | ANumber num_ans \<Rightarrow>
               ''ans_num_'' @ show_u128 (num_value num_ans) @ ''_'' @
               show_u128 (num_multiplier num_ans) @ ''_'' @ show_bool (num_negative num_ans))
      | Invalid \<Rightarrow> ''invalid'')"

definition outcome_stake_cap_id :: "u64 \<Rightarrow> u16 \<Rightarrow> outcome \<Rightarrow> string" where
  "outcome_stake_cap_id data_request_id rnd outc =
     ''ots_'' @ show_u64 data_request_id @ ''_'' @ show_u16 rnd @ ''_'' @ outcome_to_id outc"

definition log_outcome_to_stake :: "u64 \<Rightarrow> u16 \<Rightarrow> outcome \<Rightarrow> u128 \<Rightarrow> json" where
  "log_outcome_to_stake data_request_id rnd outc total_stake = JObj [
     (''type'', JStr ''outcome_stakes''),
     (''action'', JStr ''update''),
     (''cap_id'', JStr (outcome_stake_cap_id data_request_id rnd outc)),
     (''params'', JObj [
       (''id'', JStr (outcome_stake_cap_id data_request_id rnd outc)),
       (''data_request_id'', JU64 data_request_id),
       (''round'', JNum (unat rnd)),
       (''outcome'', JOutcome outc),
       (''total_stake'', JU128 total_stake)])]"

definition user_stake_cap_id :: "u64 \<Rightarrow> u16 \<Rightarrow> outcome \<Rightarrow> account \<Rightarrow> string" where
  "user_stake_cap_id data_request_id rnd outc acc =
     ''us_'' @ show_u64 data_request_id @ ''_'' @ show_u16 rnd @ ''_'' @ outcome_to_id outc @
     ''_'' @ acc"

definition log_user_stake :: "u64 \<Rightarrow> u16 \<Rightarrow> account \<Rightarrow> outcome \<Rightarrow> u128 \<Rightarrow> json" where
  "log_user_stake data_request_id rnd acc outc total_stake = JObj [
     (''type'', JStr ''user_stakes''),
     (''action'', JStr ''update''),
     (''cap_id'', JStr (user_stake_cap_id data_request_id rnd outc acc)),
     (''params'', JObj [
       (''id'', JStr (user_stake_cap_id data_request_id rnd outc acc)),
       (''data_request_id'', JU64 data_request_id),
       (''round'', JNum (unat rnd)),
       (''outcome'', JOutcome outc),
       (''account_id'', JStr acc),
       (''total_stake'', JU128 total_stake)])]"

section \<open>Claims and transactions\<close>

definition log_claim ::
  "'st env \<Rightarrow> account \<Rightarrow> u64 \<Rightarrow> u128 \<Rightarrow> u128 \<Rightarrow> u128 \<Rightarrow> u128 \<Rightarrow> u128 \<Rightarrow> json list" where
  "log_claim E acc data_request_id total_correct_bonded_staked total_incorrect_staked
     user_correct_stake stake_profit fee_profit = [
     JObj [
       (''type'', JStr ''data_requests''),
       (''action'', JStr ''update''),
       (''cap_id'', JStr (''dr_'' @ show_u64 data_request_id)),
       (''params'', JObj [
         (''id'', JU64 data_request_id),
         (''total_correct_bonded_staked'', JU128 total_correct_bonded_staked),
         (''total_incorrect_staked'', JU128 total_incorrect_staked)])],
     JObj [
       (''type'', JStr ''claims''),
       (''action'', JStr ''update''),
       (''cap_id'', JStr (''c_'' @ acc @ ''_'' @ show_u64 data_request_id)),
       (''params'', JObj [
         (''id'', JStr (''c_'' @ acc @ ''_'' @ show_u64 data_request_id)),
         (''account_id'', JStr acc),
         (''data_request_id'', JU64 data_request_id),
         (''total_correct_bonded_staked'', JU128 total_correct_bonded_staked),
         (''total_incorrect_staked'', JU128 total_incorrect_staked),
         (''user_correct_stake'', JU128 user_correct_stake),
         (''payout'', JU128 stake_profit),
         (''fee_profit'', JU128 fee_profit),
         (''date'', JU64 (ns_to_ms (block_timestamp E))),
         (''block_height'', JU64 (block_index E))])]]"

datatype transaction_type = Stake | Unstake

definition show_transaction_type :: "transaction_type \<Rightarrow> string" where
  "show_transaction_type t = (case t of Stake \<Rightarrow> ''Stake'' | Unstake \<Rightarrow> ''Unstake'')"

definition log_transaction ::
  "'st env \<Rightarrow> transaction_type \<Rightarrow> account \<Rightarrow> u64 \<Rightarrow> u16 option \<Rightarrow> u128 \<Rightarrow> u128 \<Rightarrow>
   string option \<Rightarrow> json" where
  "log_transaction E tx_type acc data_request_id rnd inp outp extra_info = JObj [
     (''type'', JStr ''transactions''),
     (''params'', JObj [
       (''account_id'', JStr acc),
       (''input'', JU128 inp),
       (''output'', JU128 outp),
       (''data_request_id'', JU64 data_request_id),
       (''round'', json_option (\<lambda>r. JNum (unat r)) rnd),
       (''date'', JU64 (ns_to_ms (block_timestamp E))),
       (''block_height'', JU64 (block_index E)),
       (''extra_info'', json_option JStr extra_info),
       (''type'', JStr (show_transaction_type tx_type))])]"

definition log_stake_transaction ::
  "'st env \<Rightarrow> account \<Rightarrow> resolution_window \<Rightarrow> u128 \<Rightarrow> u128 \<Rightarrow> outcome \<Rightarrow> json" where
  "log_stake_transaction E acc window amount_in amount_out outc =
     log_transaction E Stake acc (rw_dr_id window) (Some (rw_round window)) amount_in amount_out
       (Some (outcome_to_id outc))"

definition log_unstake_transaction ::
  "'st env \<Rightarrow> account \<Rightarrow> resolution_window \<Rightarrow> u128 \<Rightarrow> outcome \<Rightarrow> json" where
  "log_unstake_transaction E acc window amount_out outc =
     log_transaction E Unstake acc (rw_dr_id window) (Some (rw_round window)) 0 amount_out
       (Some (outcome_to_id outc))"

section \<open>Record names\<close>

text \<open>An answer is never filed under the name of the invalid outcome, whatever its string.\<close>

lemma outcome_to_id_Invalid [simp]: "outcome_to_id outc = ''invalid'' \<longleftrightarrow> outc = Invalid"
  by (auto simp: outcome_to_id_def split: outcome.splits answer_type.splits)

lemma outcome_to_id_inject: "outcome_to_id a = outcome_to_id b \<Longrightarrow> a = b"
  by (cases a; cases b)
    (auto simp: outcome_to_id_def show_u128_def unat_eq_iff intro!: answer_number.expand split: answer_type.splits)

lemma outcome_stake_cap_id_eq:
  "outcome_stake_cap_id d r a = outcome_stake_cap_id d' r' b \<longleftrightarrow> d = d' \<and> r = r' \<and> a = b"
  by (auto simp: outcome_stake_cap_id_def show_u64_def show_u16_def unat_eq_iff dest: outcome_to_id_inject)

section \<open>Properties\<close>

text \<open>The key of a record of a user's stake is ambiguous: the separator may occur in the
  answer and in the account name, so two accounts with stakes on two outcomes of one round can
  share it.\<close>

lemma user_stake_key_ambiguous:
  "\<exists>a b x y. (a, x) \<noteq> (b, y) \<and> user_stake_cap_id d r a x = user_stake_cap_id d r b y"
  by (rule exI [of _ "Answer (AString ''yes'')"], rule exI [of _ "Answer (AString ''yes_x'')"],
      rule exI [of _ "''x_bob''"], rule exI [of _ "''bob''"])
    (simp add: user_stake_cap_id_def outcome_to_id_def)

end
