(* ===== verification/Oracle_State.thy ===== *)
theory Oracle_State
  imports Logger
begin

text \<open>
  The state of the oracle contract during a call: the \<open>Contract\<close> struct of \<open>lib.rs\<close> (with its
  handles), the account's storage, one region per element type, the log records written so
  far and the promises scheduled so far; and the access to each region as actions.
\<close>

section \<open>State\<close>

record contract =
  whitelist :: "lookup_map_handle option"
  configs :: vector_handle
  data_requests :: vector_handle
  accounts :: lookup_map_handle
  paused :: bool

text \<open>
  \<open>st_stakes\<close> holds the entries of every \<open>LookupMap<Outcome, Balance>\<close>, the totals of a
  window and the stakes of one user alike; \<open>st_users\<close> those of
  \<open>LookupMap<AccountId, LookupMap<Outcome, Balance>>\<close>, whose stored values are handles.
\<close>

record oracle_storage =
  st_whitelist :: "(account, requester) region"
  st_configs :: "(nat, oracle_config) region"
  st_requests :: "(nat, data_request) region"
  st_accounts :: "(account, account_storage_balance) region"
  st_windows :: "(nat, resolution_window) region"
  st_stakes :: "(outcome, u128) region"
  st_users :: "(account, lookup_map_handle) region"

record world =
  self :: contract
  store :: oracle_storage
  logs :: "json list"
  outbox :: "oracle_promise list"

type_synonym 'a call = "(world, 'a) action"
type_synonym oenv = "oracle_storage env"

definition empty_storage :: oracle_storage where
  "empty_storage = \<lparr>st_whitelist = \<lambda>_. None, st_configs = \<lambda>_. None, st_requests = \<lambda>_. None,
     st_accounts = \<lambda>_. None, st_windows = \<lambda>_. None, st_stakes = \<lambda>_. None, st_users = \<lambda>_. None\<rparr>"

section \<open>Logs and promises\<close>

definition emit :: "json \<Rightarrow> unit call" where
  "emit ev = modifies (\<lambda>w. w\<lparr>logs := logs w @ [ev]\<rparr>)"

definition emits :: "json list \<Rightarrow> unit call" where
  "emits evs = modifies (\<lambda>w. w\<lparr>logs := logs w @ evs\<rparr>)"

definition schedule :: "oracle_promise \<Rightarrow> unit call" where
  "schedule p = modifies (\<lambda>w. w\<lparr>outbox := outbox w @ [p]\<rparr>)"

text \<open>A \<open>PromiseOrValue\<close> that is dropped or returned schedules the promise it holds.\<close>

definition schedule_pv :: "'a promise_or_value \<Rightarrow> unit call" where
  "schedule_pv pv = (case pv of PromiseOf p \<Rightarrow> schedule p | ValueOf _ \<Rightarrow> ret ())"

definition usage :: "oenv \<Rightarrow> u64 call" where
  "usage E = reads (\<lambda>w. storage_usage E (store w))"

section \<open>Access to the regions\<close>

definition stakes_get :: "lookup_map_handle \<Rightarrow> outcome \<Rightarrow> u128 option call" where
  "stakes_get h k = reads (\<lambda>w. lm_get (st_stakes (store w)) h k)"

definition stakes_insert :: "lookup_map_handle \<Rightarrow> outcome \<Rightarrow> u128 \<Rightarrow> unit call" where
  "stakes_insert h k v =
     modifies (\<lambda>w. w\<lparr>store := (store w)\<lparr>st_stakes := lm_insert (st_stakes (store w)) h k v\<rparr>\<rparr>)"

text \<open>\<open>LookupMap::remove\<close> returns the value it removed.\<close>

definition stakes_remove :: "lookup_map_handle \<Rightarrow> outcome \<Rightarrow> u128 option call" where
  "stakes_remove h k w =
     Inr (lm_get (st_stakes (store w)) h k,
          w\<lparr>store := (store w)\<lparr>st_stakes := lm_remove (st_stakes (store w)) h k\<rparr>\<rparr>)"

definition users_get :: "lookup_map_handle \<Rightarrow> account \<Rightarrow> lookup_map_handle option call" where
  "users_get h k = reads (\<lambda>w. lm_get (st_users (store w)) h k)"

definition users_insert :: "lookup_map_handle \<Rightarrow> account \<Rightarrow> lookup_map_handle \<Rightarrow> unit call" where
  "users_insert h k v =
     modifies (\<lambda>w. w\<lparr>store := (store w)\<lparr>st_users := lm_insert (st_users (store w)) h k v\<rparr>\<rparr>)"

definition accounts_get :: "account \<Rightarrow> account_storage_balance option call" where
  "accounts_get k = reads (\<lambda>w. lm_get (st_accounts (store w)) (accounts (self w)) k)"

definition accounts_insert :: "account \<Rightarrow> account_storage_balance \<Rightarrow> unit call" where
  "accounts_insert k v =
     modifies (\<lambda>w. w\<lparr>store := (store w)\<lparr>st_accounts :=
       lm_insert (st_accounts (store w)) (accounts (self w)) k v\<rparr>\<rparr>)"

definition whitelist_get :: "lookup_map_handle \<Rightarrow> account \<Rightarrow> requester option call" where
  "whitelist_get h k = reads (\<lambda>w. lm_get (st_whitelist (store w)) h k)"

definition whitelist_insert :: "lookup_map_handle \<Rightarrow> account \<Rightarrow> requester \<Rightarrow> unit call" where
  "whitelist_insert h k v =
     modifies (\<lambda>w. w\<lparr>store := (store w)\<lparr>st_whitelist := lm_insert (st_whitelist (store w)) h k v\<rparr>\<rparr>)"

definition whitelist_remove :: "lookup_map_handle \<Rightarrow> account \<Rightarrow> unit call" where
  "whitelist_remove h k =
     modifies (\<lambda>w. w\<lparr>store := (store w)\<lparr>st_whitelist := lm_remove (st_whitelist (store w)) h k\<rparr>\<rparr>)"

definition windows_get :: "vector_handle \<Rightarrow> u64 \<Rightarrow> resolution_window option call" where
  "windows_get v i w = lift (vec_get (st_windows (store w)) v i) w"

definition windows_push :: "vector_handle \<Rightarrow> resolution_window \<Rightarrow> vector_handle call" where
  "windows_push v x w =
     (case vec_push (st_windows (store w)) v x of
        Inl e \<Rightarrow> Inl e
      | Inr (r, v') \<Rightarrow> Inr (v', w\<lparr>store := (store w)\<lparr>st_windows := r\<rparr>\<rparr>))"

definition windows_replace :: "vector_handle \<Rightarrow> u64 \<Rightarrow> resolution_window \<Rightarrow> unit call" where
  "windows_replace v i x w =
     (case vec_replace (st_windows (store w)) v i x of
        Inl e \<Rightarrow> Inl e
      | Inr r \<Rightarrow> Inr ((), w\<lparr>store := (store w)\<lparr>st_windows := r\<rparr>\<rparr>))"

definition configs_get :: "u64 \<Rightarrow> oracle_config option call" where
  "configs_get i w = lift (vec_get (st_configs (store w)) (configs (self w)) i) w"

definition configs_push :: "oracle_config \<Rightarrow> unit call" where
  "configs_push x w =
     (case vec_push (st_configs (store w)) (configs (self w)) x of
        Inl e \<Rightarrow> Inl e
      | Inr (r, v') \<Rightarrow>
          Inr ((), w\<lparr>self := (self w)\<lparr>configs := v'\<rparr>, store := (store w)\<lparr>st_configs := r\<rparr>\<rparr>))"

definition configs_replace :: "u64 \<Rightarrow> oracle_config \<Rightarrow> unit call" where
  "configs_replace i x w =
     (case vec_replace (st_configs (store w)) (configs (self w)) i x of
        Inl e \<Rightarrow> Inl e
      | Inr r \<Rightarrow> Inr ((), w\<lparr>store := (store w)\<lparr>st_configs := r\<rparr>\<rparr>))"

definition requests_get :: "u64 \<Rightarrow> data_request option call" where
  "requests_get i w = lift (vec_get (st_requests (store w)) (data_requests (self w)) i) w"

definition requests_push :: "data_request \<Rightarrow> unit call" where
  "requests_push x w =
     (case vec_push (st_requests (store w)) (data_requests (self w)) x of
        Inl e \<Rightarrow> Inl e
      | Inr (r, v') \<Rightarrow>
          Inr ((), w\<lparr>self := (self w)\<lparr>data_requests := v'\<rparr>, store := (store w)\<lparr>st_requests := r\<rparr>\<rparr>))"

definition requests_replace :: "u64 \<Rightarrow> data_request \<Rightarrow> unit call" where
  "requests_replace i x w =
     (case vec_replace (st_requests (store w)) (data_requests (self w)) i x of
        Inl e \<Rightarrow> Inl e
      | Inr r \<Rightarrow> Inr ((), w\<lparr>store := (store w)\<lparr>st_requests := r\<rparr>\<rparr>))"

lemmas primitives = emit_def emits_def schedule_def schedule_pv_def usage_def
  stakes_get_def stakes_insert_def stakes_remove_def users_get_def users_insert_def
  accounts_get_def accounts_insert_def whitelist_get_def whitelist_insert_def whitelist_remove_def
  windows_get_def windows_push_def windows_replace_def configs_get_def configs_push_def
  configs_replace_def requests_get_def requests_push_def requests_replace_def

section \<open>Inversion\<close>

lemma emit_Inr [run]: "emit ev w = Inr (u, t) \<longleftrightarrow> t = w\<lparr>logs := logs w @ [ev]\<rparr>"
  by (simp add: emit_def run)

lemma emits_Inr [run]: "emits evs w = Inr (u, t) \<longleftrightarrow> t = w\<lparr>logs := logs w @ evs\<rparr>"
  by (simp add: emits_def run)

lemma schedule_Inr [run]: "schedule p w = Inr (u, t) \<longleftrightarrow> t = w\<lparr>outbox := outbox w @ [p]\<rparr>"
  by (simp add: schedule_def run)

lemma usage_Inr [run]: "usage E w = Inr (n, t) \<longleftrightarrow> n = storage_usage E (store w) \<and> t = w"
  by (simp add: usage_def run)

lemma stakes_get_Inr [run]: "stakes_get h k w = Inr (v, t) \<longleftrightarrow> v = lm_get (st_stakes (store w)) h k \<and> t = w"
  by (simp add: stakes_get_def run)

lemma stakes_insert_Inr [run]: "stakes_insert h k v w = Inr (u, t) \<longleftrightarrow>
    t = w\<lparr>store := (store w)\<lparr>st_stakes := lm_insert (st_stakes (store w)) h k v\<rparr>\<rparr>"
  by (simp add: stakes_insert_def run)

lemma stakes_remove_Inr [run]: "stakes_remove h k w = Inr (v, t) \<longleftrightarrow>
    v = lm_get (st_stakes (store w)) h k \<and>
    t = w\<lparr>store := (store w)\<lparr>st_stakes := lm_remove (st_stakes (store w)) h k\<rparr>\<rparr>"
  by (auto simp: stakes_remove_def)

lemma users_get_Inr [run]: "users_get h k w = Inr (v, t) \<longleftrightarrow> v = lm_get (st_users (store w)) h k \<and> t = w"
  by (simp add: users_get_def run)

lemma users_insert_Inr [run]: "users_insert h k v w = Inr (u, t) \<longleftrightarrow>
    t = w\<lparr>store := (store w)\<lparr>st_users := lm_insert (st_users (store w)) h k v\<rparr>\<rparr>"
  by (simp add: users_insert_def run)

lemma accounts_get_Inr [run]: "accounts_get k w = Inr (v, t) \<longleftrightarrow>
    v = lm_get (st_accounts (store w)) (accounts (self w)) k \<and> t = w"
  by (simp add: accounts_get_def run)

lemma accounts_insert_Inr [run]: "accounts_insert k v w = Inr (u, t) \<longleftrightarrow>
    t = w\<lparr>store := (store w)\<lparr>st_accounts :=
      lm_insert (st_accounts (store w)) (accounts (self w)) k v\<rparr>\<rparr>"
  by (simp add: accounts_insert_def run)

lemma whitelist_get_Inr [run]: "whitelist_get h k w = Inr (v, t) \<longleftrightarrow>
    v = lm_get (st_whitelist (store w)) h k \<and> t = w"
  by (simp add: whitelist_get_def run)

lemma whitelist_insert_Inr [run]: "whitelist_insert h k v w = Inr (u, t) \<longleftrightarrow>
    t = w\<lparr>store := (store w)\<lparr>st_whitelist := lm_insert (st_whitelist (store w)) h k v\<rparr>\<rparr>"
  by (simp add: whitelist_insert_def run)

lemma whitelist_remove_Inr [run]: "whitelist_remove h k w = Inr (u, t) \<longleftrightarrow>
    t = w\<lparr>store := (store w)\<lparr>st_whitelist := lm_remove (st_whitelist (store w)) h k\<rparr>\<rparr>"
  by (simp add: whitelist_remove_def run)

lemma windows_get_Inr [run]: "windows_get v i w = Inr (x, t) \<longleftrightarrow>
    vec_get (st_windows (store w)) v i = Inr x \<and> t = w"
  by (simp add: windows_get_def run)

lemma windows_push_Inr [run]: "windows_push v x w = Inr (v', t) \<longleftrightarrow>
    (\<exists>r. vec_push (st_windows (store w)) v x = Inr (r, v') \<and> t = w\<lparr>store := (store w)\<lparr>st_windows := r\<rparr>\<rparr>)"
  by (auto simp: windows_push_def split: sum.splits)

lemma windows_replace_Inr [run]: "windows_replace v i x w = Inr (u, t) \<longleftrightarrow>
    (\<exists>r. vec_replace (st_windows (store w)) v i x = Inr r \<and> t = w\<lparr>store := (store w)\<lparr>st_windows := r\<rparr>\<rparr>)"
  by (auto simp: windows_replace_def split: sum.splits)

lemma configs_get_Inr [run]: "configs_get i w = Inr (x, t) \<longleftrightarrow>
    vec_get (st_configs (store w)) (configs (self w)) i = Inr x \<and> t = w"
  by (simp add: configs_get_def run)

lemma configs_push_Inr [run]: "configs_push x w = Inr (u, t) \<longleftrightarrow>
    (\<exists>r v'. vec_push (st_configs (store w)) (configs (self w)) x = Inr (r, v') \<and>
       t = w\<lparr>self := (self w)\<lparr>configs := v'\<rparr>, store := (store w)\<lparr>st_configs := r\<rparr>\<rparr>)"
  by (auto simp: configs_push_def split: sum.splits)

lemma configs_replace_Inr [run]: "configs_replace i x w = Inr (u, t) \<longleftrightarrow>
    (\<exists>r. vec_replace (st_configs (store w)) (configs (self w)) i x = Inr r \<and>
       t = w\<lparr>store := (store w)\<lparr>st_configs := r\<rparr>\<rparr>)"
  by (auto simp: configs_replace_def split: sum.splits)

lemma requests_get_Inr [run]: "requests_get i w = Inr (x, t) \<longleftrightarrow>
    vec_get (st_requests (store w)) (data_requests (self w)) i = Inr x \<and> t = w"
  by (simp add: requests_get_def run)

lemma requests_push_Inr [run]: "requests_push x w = Inr (u, t) \<longleftrightarrow>
    (\<exists>r v'. vec_push (st_requests (store w)) (data_requests (self w)) x = Inr (r, v') \<and>
       t = w\<lparr>self := (self w)\<lparr>data_requests := v'\<rparr>, store := (store w)\<lparr>st_requests := r\<rparr>\<rparr>)"
  by (auto simp: requests_push_def split: sum.splits)

lemma requests_replace_Inr [run]: "requests_replace i x w = Inr (u, t) \<longleftrightarrow>
    (\<exists>r. vec_replace (st_requests (store w)) (data_requests (self w)) i x = Inr r \<and>
       t = w\<lparr>store := (store w)\<lparr>st_requests := r\<rparr>\<rparr>)"
  by (auto simp: requests_replace_def split: sum.splits)

end
