(* ===== verification/Helpers.thy ===== *)
theory Helpers
  imports Oracle_State
begin

text \<open>
  \<open>oracle/src/helpers.rs\<close> and \<open>oracle/src/fungible_token.rs\<close>: the payout arithmetic (a 256-bit
  product, so that no intermediate result overflows), the stake multiplier in basis points,
  the refund of storage deposits, and the token transfer promise.
\<close>

section \<open>Payout arithmetic\<close>

text \<open>
  \<open>u256\<close> is the \<open>construct_uint!\<close> type: conversions from \<open>u128\<close> are exact, \<open>*\<close> panics on
  overflow, \<open>/\<close> on a zero divisor, and \<open>as_u128\<close> on a value that does not fit.
\<close>

definition as_u128 :: "u256 \<Rightarrow> error + u128" where
  "as_u128 x = (if unat x < 2 ^ 128 then Inr (ucast x) else Inl (Rust ErrOverflow))"

definition calc_product :: "u128 \<Rightarrow> u128 \<Rightarrow> u128 \<Rightarrow> error + u128" where
  "calc_product a b divisor =
     bindR (checked_mul (ucast a :: u256) (ucast b)) (\<lambda>p.
     bindR (checked_div p (ucast divisor)) as_u128)"

definition multiply_stake :: "u128 \<Rightarrow> u16 option \<Rightarrow> error + u128" where
  "multiply_stake stake multiplier =
     (case multiplier of
        Some m \<Rightarrow> bindR (checked_mul stake (ucast m)) (\<lambda>p. checked_div p 10000)
      | None \<Rightarrow> Inr stake)"

lemma as_u128_exact: "as_u128 x = Inr y \<longleftrightarrow> unat y = unat x"
proof (cases "unat x < 2 ^ 128")
  case True
  then have "unat (ucast x :: u128) = unat x"
    by (intro unat_ucast_fits) simp
  with True show ?thesis by (auto simp: as_u128_def word_unat_eq_iff)
next
  case False
  then have "unat y \<noteq> unat x" using unat_bound [of y] by auto
  with False show ?thesis by (simp add: as_u128_def)
qed

lemma unat_ucast_u256 [simp]: "unat (ucast (a::u128) :: u256) = unat a"
  by (rule unat_ucast_up) simp

lemma unat_ucast_u16 [simp]: "unat (ucast (m::u16) :: u128) = unat m"
  by (rule unat_ucast_up) simp

lemma ucast_u256_zero [simp]: "(ucast (a::u128) :: u256) = 0 \<longleftrightarrow> a = 0"
  by (metis unat_eq_0 unat_ucast_u256)

lemma product_fits_u256: "unat (a::u128) * unat (b::u128) < 2 ^ 256"
proof -
  have "unat a * unat b < 2 ^ 128 * 2 ^ 128"
    using unat_bound [of a] unat_bound [of b] by (intro mult_strict_mono) auto
  then show ?thesis by simp
qed

text \<open>The result is the rounded-down quotient, whenever that fits in 128 bits.\<close>

lemma calc_product_exact:
  "calc_product a b d = Inr q \<longleftrightarrow> d \<noteq> 0 \<and> unat q = unat a * unat b div unat d"
proof -
  have fits: "unat (ucast a :: u256) * unat (ucast b :: u256) < 2 ^ LENGTH(256)"
    using product_fits_u256 [of a b] by simp
  then have u: "unat (ucast a * ucast b div ucast d :: u256) = unat a * unat b div unat d"
    by (simp add: exact)
  have "calc_product a b d =
      (if d = 0 then Inl (Rust ErrDivisionByZero) else as_u128 (ucast a * ucast b div ucast d))"
    using fits by (simp add: calc_product_def checked_mul_def checked_div_def bindR_def)
  then show ?thesis by (simp add: as_u128_exact u)
qed

lemma calc_product_total:
  assumes "d \<noteq> 0" and "unat a \<le> unat d"
  shows "\<exists>q. calc_product a b d = Inr q \<and> unat q = unat a * unat b div unat d"
proof -
  have "unat a * unat b div unat d \<le> unat d * unat b div unat d"
    by (rule div_le_mono) (simp add: assms(2))
  also have "\<dots> = unat b" using assms(1) by (simp add: unat_eq_0)
  finally have "unat a * unat b div unat d < 2 ^ LENGTH(128)"
    using unat_bound [of b] by simp
  then have "unat (of_nat (unat a * unat b div unat d) :: u128) = unat a * unat b div unat d"
    by (rule unat_of_nat_fits)
  with assms(1) show ?thesis by (metis calc_product_exact)
qed

lemma multiply_stake_exact:
  "multiply_stake s m = Inr r \<longleftrightarrow>
     (case m of None \<Rightarrow> r = s
      | Some k \<Rightarrow> unat s * unat k < 2 ^ 128 \<and> unat r = unat s * unat k div 10000)"
proof (cases m)
  case (Some k)
  show ?thesis
  proof (cases "unat s * unat k < 2 ^ 128")
    case True
    then have "multiply_stake s m = Inr (s * ucast k div 10000)"
      by (simp add: Some multiply_stake_def bindR_def checked_mul_def checked_div_def)
    moreover from True have "unat (s * ucast k div 10000) = unat s * unat k div 10000"
      by (simp add: exact)
    ultimately show ?thesis using Some True by (auto simp: word_unat_eq_iff)
  next
    case False
    then show ?thesis using Some by (simp add: multiply_stake_def bindR_def checked_mul_def)
  qed
qed (auto simp: multiply_stake_def)

section \<open>Storage refunds\<close>

text \<open>The value of \<open>refund_amount\<close>, or the panic of its \<open>assert!\<close> or of an overflow.\<close>

definition refund_amount :: "sdk \<Rightarrow> oenv \<Rightarrow> u64 \<Rightarrow> u64 \<Rightarrow> error + u128" where
  "refund_amount K E initial_storage current_storage =
     (if current_storage > initial_storage then
        bindR (checked_sub current_storage initial_storage) (\<lambda>n.
        bindR (checked_mul (ucast n) (storage_price_per_byte K)) (\<lambda>required_deposit.
        if required_deposit \<le> attached_deposit E
        then checked_sub (attached_deposit E) required_deposit
        else Inl (Balance (ErrRequiredDeposit required_deposit (attached_deposit E)))))
      else
        bindR (checked_sub initial_storage current_storage) (\<lambda>n.
        bindR (checked_mul (ucast n) (storage_price_per_byte K)) (\<lambda>released.
        checked_add (attached_deposit E) released)))"

definition refund_storage :: "sdk \<Rightarrow> oenv \<Rightarrow> u64 \<Rightarrow> account \<Rightarrow> unit call" where
  "refund_storage K E initial_storage sender_id =
     bindM (usage E) (\<lambda>current_storage.
     bindM (lift (refund_amount K E initial_storage current_storage)) (\<lambda>amount.
     if amount > 0 then schedule (Transfer sender_id amount) else ret ()))"

lemma unat_ucast_u64 [simp]: "unat (ucast (n::u64) :: u128) = unat n"
  by (rule unat_ucast_up) simp

text \<open>
  A successful refund changes nothing but the outbox, and pays back the attached deposit less
  the price of the bytes added, or plus the price of the bytes released.
\<close>

definition storage_refund :: "sdk \<Rightarrow> oenv \<Rightarrow> u64 \<Rightarrow> u64 \<Rightarrow> int" where
  "storage_refund K E initial_storage current_storage =
     int (unat (attached_deposit E)) -
     (int (unat current_storage) - int (unat initial_storage)) * int (unat (storage_price_per_byte K))"

lemma refund_amount_exact:
  assumes "refund_amount K E i c = Inr a"
  shows "int (unat a) = storage_refund K E i c"
proof (cases "c > i")
  case True
  with assms have "unat i \<le> unat c \<and>
      unat a + (unat c - unat i) * unat (storage_price_per_byte K) = unat (attached_deposit E)"
    by (auto simp: refund_amount_def run exact unats split: if_splits)
  then have "unat i \<le> unat c \<and>
      int (unat a) + int (unat c - unat i) * int (unat (storage_price_per_byte K)) =
      int (unat (attached_deposit E))"
    by (metis of_nat_add of_nat_mult)
  then show ?thesis by (auto simp only: storage_refund_def of_nat_diff algebra_simps)
next
  case False
  with assms have "unat c \<le> unat i \<and>
      unat a = unat (attached_deposit E) + (unat i - unat c) * unat (storage_price_per_byte K)"
    by (auto simp: refund_amount_def run exact unats)
  then have "unat c \<le> unat i \<and> int (unat a) = int (unat (attached_deposit E)) +
      int (unat i - unat c) * int (unat (storage_price_per_byte K))"
    by (metis of_nat_add of_nat_mult)
  then show ?thesis by (auto simp only: storage_refund_def of_nat_diff algebra_simps)
qed

definition refund_note :: "sdk \<Rightarrow> oenv \<Rightarrow> u64 \<Rightarrow> account \<Rightarrow> oracle_storage \<Rightarrow> oracle_promise list" where
  "refund_note K E i acc st =
     (case refund_amount K E i (storage_usage E st) of
        Inl _ \<Rightarrow> []
      | Inr amount \<Rightarrow> if amount > 0 then [Transfer acc amount] else [])"

lemma refund_storage_Inr [run]:
  "refund_storage K E i acc w = Inr (u, t) \<longleftrightarrow>
     (\<exists>amount. refund_amount K E i (storage_usage E (store w)) = Inr amount) \<and>
     t = w\<lparr>outbox := outbox w @ refund_note K E i acc (store w)\<rparr>"
  by (auto simp: refund_storage_def refund_note_def run split: if_splits sum.splits)

lemma keeps_refund [keep]:
  assumes "\<And>w x. P w \<Longrightarrow> P (w\<lparr>outbox := x\<rparr>)"
  shows "keeps P (refund_storage K E i acc)"
  using assms by (auto simp: keeps_def run)

section \<open>Token transfers\<close>

definition fungible_token_transfer :: "sdk \<Rightarrow> account \<Rightarrow> account \<Rightarrow> u128 \<Rightarrow> oracle_promise" where
  "fungible_token_transfer K token_account_id receiver_id amount =
     FunctionCall token_account_id (Ft_transfer receiver_id amount None) 1 (gas_base_transfer K)"

text \<open>The tokens of one token contract that promises move out of the oracle.\<close>

fun tokens_in :: "account \<Rightarrow> oracle_promise \<Rightarrow> nat" where
  "tokens_in tok (FunctionCall a (Ft_transfer r n memo) d g) = (if a = tok then unat n else 0)"
| "tokens_in tok (AndThen p q) = tokens_in tok p + tokens_in tok q"
| "tokens_in tok _ = 0"

definition tokens_of :: "account \<Rightarrow> oracle_promise list \<Rightarrow> nat" where
  "tokens_of tok ps = (\<Sum>p\<leftarrow>ps. tokens_in tok p)"

lemma tokens_of_simps [simp]:
  "tokens_of tok [] = 0" "tokens_of tok (p # ps) = tokens_in tok p + tokens_of tok ps"
  "tokens_of tok (ps @ qs) = tokens_of tok ps + tokens_of tok qs"
  by (simp_all add: tokens_of_def)

lemma tokens_in_transfer [simp]:
  "tokens_in tok (fungible_token_transfer K a r n) = (if a = tok then unat n else 0)"
  by (simp add: fungible_token_transfer_def)

lemma tokens_of_transfers: "\<forall>p \<in> set ps. \<exists>x. p = Transfer a x \<Longrightarrow> tokens_of tok ps = 0"
  by (induction ps) auto

lemma tokens_of_note [simp]: "tokens_of tok (refund_note K E i a st) = 0"
  by (simp add: refund_note_def split: sum.splits)

text \<open>Since \<open>ob\<close> the call has scheduled promises that move no tokens.\<close>

definition tokenless :: "oracle_promise list \<Rightarrow> world \<Rightarrow> bool" where
  "tokenless ob v \<longleftrightarrow> (\<exists>ps. outbox v = ob @ ps \<and> (\<forall>tok. tokens_of tok ps = 0))"

lemma tokenless_same: "outbox v = ob \<Longrightarrow> tokenless ob v"
  by (auto simp: tokenless_def intro: exI [of _ "[]"])

lemma tokenless_more: "tokenless ob v \<Longrightarrow> outbox t = outbox v @ ps \<Longrightarrow> (\<And>tok. tokens_of tok ps = 0) \<Longrightarrow> tokenless ob t"
  by (fastforce simp: tokenless_def)

section \<open>Properties\<close>

text \<open>C27: \<open>calc_product\<close> is the rounded-down quotient \<open>a * b / divisor\<close> computed without
  intermediate overflow; it panics exactly on a zero divisor or a quotient beyond 128 bits.\<close>

theorem calc_product_spec:
  "calc_product a b d =
    (let q = unat a * unat b div unat d in
     if d = 0 then Inl (Rust ErrDivisionByZero)
     else if q < 2 ^ 128 then Inr (of_nat q) else Inl (Rust ErrOverflow))"
proof -
  have fits: "unat (ucast a :: u256) * unat (ucast b :: u256) < 2 ^ LENGTH(256)"
    using product_fits_u256 [of a b] by simp
  have u: "unat (ucast a * ucast b div ucast d :: u256) = unat a * unat b div unat d"
    using fits by (simp add: exact)
  have c: "(ucast x :: u128) = of_nat (unat x)" for x :: u256
    by (metis of_nat_unat)
  show ?thesis
    using fits by (simp add: calc_product_def checked_mul_def checked_div_def bindR_def as_u128_def u c Let_def)
qed

text \<open>The price of the bytes added or released since \<open>i\<close>.\<close>

definition bytes_price :: "sdk \<Rightarrow> u64 \<Rightarrow> u64 \<Rightarrow> nat" where
  "bytes_price K i c = (if i < c then unat c - unat i else unat i - unat c) * unat (storage_price_per_byte K)"

lemma price_added: "int a = int d - (int (i + n) - int i) * int p \<longleftrightarrow> a + n * p = d"
proof -
  have "int a = int d - (int (i + n) - int i) * int p \<longleftrightarrow> int a + int (n * p) = int d" by auto
  also have "\<dots> \<longleftrightarrow> a + n * p = d" by linarith
  finally show ?thesis .
qed

lemma price_released: "int a = int d - (int i - int (i + n)) * int p \<longleftrightarrow> a = d + n * p"
proof -
  have "int a = int d - (int i - int (i + n)) * int p \<longleftrightarrow> int a = int d + int (n * p)" by auto
  also have "\<dots> \<longleftrightarrow> a = d + n * p" by linarith
  finally show ?thesis .
qed

lemma refund_amount_iff:
  "refund_amount K E i c = Inr a \<longleftrightarrow> bytes_price K i c < 2 ^ 128 \<and> int (unat a) = storage_refund K E i c"
proof (cases "i < c")
  case True
  then have sub: "unat (c - i) = unat c - unat i" and lt: "unat i < unat c" by (simp_all add: exact unats)
  then obtain n where n: "unat c = unat i + n" by (metis le_add_diff_inverse less_imp_le)
  have "int (unat a) = storage_refund K E i c \<longleftrightarrow>
      unat a + (unat c - unat i) * unat (storage_price_per_byte K) = unat (attached_deposit E)"
    unfolding storage_refund_def n price_added by simp
  moreover have "refund_amount K E i c = Inr a \<longleftrightarrow> bytes_price K i c < 2 ^ 128 \<and>
      unat a + (unat c - unat i) * unat (storage_price_per_byte K) = unat (attached_deposit E)"
  proof (cases "bytes_price K i c < 2 ^ 128")
    case fits: True
    let ?q = "ucast (c - i) * storage_price_per_byte K"
    have q: "unat ?q = (unat c - unat i) * unat (storage_price_per_byte K)"
      using fits True by (simp add: exact bytes_price_def sub)
    have "refund_amount K E i c = Inr a \<longleftrightarrow> ?q \<le> attached_deposit E \<and> a = attached_deposit E - ?q"
      using fits True by (auto simp: refund_amount_def run bytes_price_def sub)
    also have "\<dots> \<longleftrightarrow> unat a + unat ?q = unat (attached_deposit E)"
      by (auto simp: exact word_le_nat_alt intro!: word_unat_eq_iff [THEN iffD2])
    finally show ?thesis using fits by (simp only: q simp_thms)
  next
    case False
    with True show ?thesis by (auto simp: refund_amount_def run bytes_price_def sub)
  qed
  ultimately show ?thesis by blast
next
  case False
  then have sub: "unat (i - c) = unat i - unat c" and le: "unat c \<le> unat i" by (simp_all add: exact unats)
  then obtain n where n: "unat i = unat c + n" by (metis le_add_diff_inverse)
  have "int (unat a) = storage_refund K E i c \<longleftrightarrow>
      unat a = unat (attached_deposit E) + (unat i - unat c) * unat (storage_price_per_byte K)"
    unfolding storage_refund_def n price_released by simp
  moreover have "refund_amount K E i c = Inr a \<longleftrightarrow> bytes_price K i c < 2 ^ 128 \<and>
      unat a = unat (attached_deposit E) + (unat i - unat c) * unat (storage_price_per_byte K)"
  proof (cases "bytes_price K i c < 2 ^ 128")
    case fits: True
    let ?q = "ucast (i - c) * storage_price_per_byte K"
    have q: "unat ?q = (unat i - unat c) * unat (storage_price_per_byte K)"
      using fits False by (simp add: exact bytes_price_def sub)
    have "refund_amount K E i c = Inr a \<longleftrightarrow> checked_add (attached_deposit E) ?q = Inr a"
      using fits False by (auto simp: refund_amount_def run bytes_price_def sub)
    also have "\<dots> \<longleftrightarrow> unat a = unat (attached_deposit E) + unat ?q" by (rule checked_add_exact)
    finally show ?thesis using fits by (simp only: q simp_thms)
  next
    case wide: False
    with False show ?thesis by (auto simp: refund_amount_def run bytes_price_def sub)
  qed
  ultimately show ?thesis by blast
qed

text \<open>
  When a refund returns: the deposit pays for the bytes added, or the price of the bytes
  released can be added to it.
\<close>

definition refundable :: "sdk \<Rightarrow> oenv \<Rightarrow> u64 \<Rightarrow> u64 \<Rightarrow> bool" where
  "refundable K E i c \<longleftrightarrow>
     (if i < c then bytes_price K i c \<le> unat (attached_deposit E)
      else unat (attached_deposit E) + bytes_price K i c < 2 ^ 128)"

lemma refundable_iff: "(\<exists>a. refund_amount K E i c = Inr a) \<longleftrightarrow> refundable K E i c"
proof (cases "i < c")
  case True
  then have sub: "unat (c - i) = unat c - unat i" by (simp add: exact)
  show ?thesis
  proof (cases "bytes_price K i c < 2 ^ 128")
    case fits: True
    have "unat (ucast (c - i) * storage_price_per_byte K) = bytes_price K i c"
      using fits True by (simp add: exact bytes_price_def sub)
    with fits True show ?thesis
      by (simp add: refund_amount_def run bytes_price_def sub refundable_def unats)
  next
    case False
    with True show ?thesis
      using unat_bound [of "attached_deposit E"] by (simp add: refund_amount_def run bytes_price_def sub refundable_def)
  qed
next
  case False
  then have sub: "unat (i - c) = unat i - unat c" by (simp add: exact)
  show ?thesis
  proof (cases "bytes_price K i c < 2 ^ 128")
    case fits: True
    have "unat (ucast (i - c) * storage_price_per_byte K) = bytes_price K i c"
      using fits False by (simp add: exact bytes_price_def sub)
    with fits False show ?thesis
      by (auto simp: refund_amount_def run bytes_price_def sub refundable_def)
  next
    case wide: False
    with False show ?thesis by (simp add: refund_amount_def run bytes_price_def sub refundable_def)
  qed
qed

lemma refundable_refl [simp]: "refundable K E i i"
  using unat_bound [of "attached_deposit E"] by (simp add: refundable_def bytes_price_def)

text \<open>Releasing bytes is refundable when all the bytes in use could be paid out.\<close>

lemma refundable_released:
  assumes "c \<le> i" and "unat (attached_deposit E) + unat i * unat (storage_price_per_byte K) < 2 ^ 128"
  shows "refundable K E i c"
proof -
  have "(unat i - unat c) * unat (storage_price_per_byte K) \<le> unat i * unat (storage_price_per_byte K)"
    by (rule mult_le_mono1) simp
  with assms(2) have "unat (attached_deposit E) + (unat i - unat c) * unat (storage_price_per_byte K) < 2 ^ 128"
    by linarith
  with assms(1) show ?thesis by (simp add: refundable_def bytes_price_def not_less [symmetric])
qed

text \<open>C28: a storage refund never changes the state but for one transfer to the sender of the
  attached deposit less the price of the bytes added since, or plus that of the bytes released,
  when that is positive; it returns exactly when that amount is a 128-bit number and no product
  overflows.\<close>

theorem refund_storage_spec:
  "refund_storage K E i acc w = Inr (u, t) \<longleftrightarrow>
    bytes_price K i (storage_usage E (store w)) < 2 ^ 128 \<and>
    (\<exists>a. int (unat a) = storage_refund K E i (storage_usage E (store w)) \<and>
      t = w\<lparr>outbox := outbox w @ (if a = 0 then [] else [Transfer acc a])\<rparr>)"
  by (auto simp: refund_storage_def bindM_Inr usage_Inr lift_Inr refund_amount_iff run word_gt_0)

end
