(* ===== verification/Finite_Sums.thy ===== *)
theory Finite_Sums
  imports Prelude
begin

text \<open>
  The total of a function with finite support: what the balances of a token contract, or the
  stakes of all users on one outcome, add up to. One update lemma carries every conservation
  proof of the development; the \<open>ledger\<close> interface packages it for its two providers.
\<close>

section \<open>Totals\<close>

definition total_of :: "('k \<Rightarrow> nat) \<Rightarrow> nat" where
  "total_of f = (\<Sum>k \<in> {k. f k \<noteq> 0}. f k)"

definition finite_support :: "('k \<Rightarrow> nat) \<Rightarrow> bool" where
  "finite_support f \<longleftrightarrow> finite {k. f k \<noteq> 0}"

lemma total_zero [simp]: "total_of (\<lambda>_. 0) = 0"
  by (simp add: total_of_def)

lemma finite_support_zero [simp]: "finite_support (\<lambda>_. 0)"
  by (simp add: finite_support_def)

lemma finite_support_upd [simp, intro]:
  assumes "finite_support f"
  shows "finite_support (f(k := v))"
proof -
  have "{x. (f(k := v)) x \<noteq> 0} \<subseteq> insert k {x. f x \<noteq> 0}" by auto
  with assms show ?thesis
    unfolding finite_support_def by (meson finite.insertI finite_subset)
qed

lemma total_superset:
  assumes "finite A" and "{k. f k \<noteq> 0} \<subseteq> A"
  shows "total_of f = sum f A"
  unfolding total_of_def by (rule sum.mono_neutral_left) (use assms in auto)

lemma total_upd:
  assumes "finite_support f"
  shows "total_of (f(k := v)) + f k = total_of f + v"
proof -
  let ?A = "insert k {x. f x \<noteq> 0}"
  have fin: "finite ?A" using assms by (simp add: finite_support_def)
  have 1: "total_of (f(k := v)) = sum (f(k := v)) ?A"
    using fin by (rule total_superset) auto
  have 2: "total_of f = sum f ?A"
    using fin by (rule total_superset) auto
  have 3: "sum (f(k := v)) (?A - {k}) = sum f (?A - {k})"
    by (rule sum.cong) auto
  have "sum (f(k := v)) ?A = v + sum (f(k := v)) (?A - {k})" "sum f ?A = f k + sum f (?A - {k})"
    using fin by (subst sum.remove [where x = k]; simp)+
  then show ?thesis
    by (simp only: 1 2 3)
qed

lemma total_member_le:
  assumes "finite_support f"
  shows "f k \<le> total_of f"
  using total_upd [OF assms, of k 0] by simp

lemma total_mono:
  assumes "finite_support g" and "\<And>k. f k \<le> g k"
  shows "total_of f \<le> total_of g"
proof -
  have fin: "finite {k. g k \<noteq> 0}" using assms(1) by (simp add: finite_support_def)
  have "{k. f k \<noteq> 0} \<subseteq> {k. g k \<noteq> 0}"
    using assms(2) by (metis (mono_tags, lifting) Collect_mono le_zero_eq)
  then have "total_of f = sum f {k. g k \<noteq> 0}"
    using fin by (intro total_superset)
  also have "\<dots> \<le> total_of g"
    unfolding total_of_def by (rule sum_mono) (rule assms(2))
  finally show ?thesis .
qed

lemma total_add:
  assumes "finite_support f" and "finite_support g"
  shows "total_of (\<lambda>k. f k + g k) = total_of f + total_of g"
proof -
  let ?A = "{k. f k \<noteq> 0} \<union> {k. g k \<noteq> 0}"
  have fin: "finite ?A" using assms by (simp add: finite_support_def)
  have "total_of f = sum f ?A" "total_of g = sum g ?A" "total_of (\<lambda>k. f k + g k) = sum (\<lambda>k. f k + g k) ?A"
    by (rule total_superset [OF fin]; auto)+
  then show ?thesis by (simp add: sum.distrib)
qed

lemma finite_support_add [intro]:
  assumes "finite_support f" and "finite_support g"
  shows "finite_support (\<lambda>k. f k + g k)"
proof -
  have "{k. f k + g k \<noteq> 0} \<subseteq> {k. f k \<noteq> 0} \<union> {k. g k \<noteq> 0}" by auto
  with assms show ?thesis
    unfolding finite_support_def by (meson finite_UnI finite_subset)
qed

section \<open>Two-dimensional tables\<close>

text \<open>
  A table of amounts per row and column, with finitely many entries: the stakes of a window per
  outcome and account. \<open>entry\<close> replaces one entry, \<open>sum_all\<close> adds all of them up.
\<close>

definition paired :: "('a \<Rightarrow> 'b \<Rightarrow> nat) \<Rightarrow> 'a \<times> 'b \<Rightarrow> nat" where
  "paired f = (\<lambda>(a, b). f a b)"

definition finite_table :: "('a \<Rightarrow> 'b \<Rightarrow> nat) \<Rightarrow> bool" where
  "finite_table f \<longleftrightarrow> finite_support (paired f)"

definition sum_all :: "('a \<Rightarrow> 'b \<Rightarrow> nat) \<Rightarrow> nat" where
  "sum_all f = total_of (paired f)"

definition entry :: "('a \<Rightarrow> 'b \<Rightarrow> nat) \<Rightarrow> 'a \<Rightarrow> 'b \<Rightarrow> nat \<Rightarrow> 'a \<Rightarrow> 'b \<Rightarrow> nat" where
  "entry f a b v = f(a := (f a)(b := v))"

lemma entry_apply: "entry f a b v a' b' = (if a' = a \<and> b' = b then v else f a' b')"
  by (simp add: entry_def)

lemma entry_row [simp]: "entry f a b v a' = (if a' = a then (f a)(b := v) else f a')"
  by (simp add: entry_def)

lemma paired_entry: "paired (entry f a b v) = (paired f)((a, b) := v)"
  by (auto simp: paired_def entry_apply fun_eq_iff)

lemma paired_zero [simp]: "paired (\<lambda>_ _. 0) = (\<lambda>_. 0)"
  by (simp add: paired_def fun_eq_iff)

lemma finite_table_zero [simp]: "finite_table (\<lambda>_ _. 0)"
  by (simp add: finite_table_def)

lemma sum_all_zero [simp]: "sum_all (\<lambda>_ _. 0) = 0"
  by (simp add: sum_all_def)

lemma finite_table_entry [simp]: "finite_table f \<Longrightarrow> finite_table (entry f a b v)"
  by (simp add: finite_table_def paired_entry)

lemma finite_table_row:
  assumes "finite_table f"
  shows "finite_support (f a)"
proof -
  have "finite {k. paired f k \<noteq> 0}"
    using assms by (simp add: finite_table_def finite_support_def)
  moreover have "{b. f a b \<noteq> 0} \<subseteq> snd ` {k. paired f k \<noteq> 0}"
  proof
    fix b
    assume "b \<in> {b. f a b \<noteq> 0}"
    then show "b \<in> snd ` {k. paired f k \<noteq> 0}" by (auto simp: paired_def intro!: image_eqI [of _ _ "(a, b)"])
  qed
  ultimately show ?thesis
    unfolding finite_support_def by (meson finite_imageI finite_subset)
qed

lemma sum_all_entry:
  assumes "finite_table f"
  shows "sum_all (entry f a b v) + f a b = sum_all f + v"
  using total_upd [of "paired f" "(a, b)" v] assms
  by (simp add: sum_all_def finite_table_def paired_entry) (simp add: paired_def)

lemma entry_le_sum_all: "finite_table f \<Longrightarrow> f a b \<le> sum_all f"
  using total_member_le [of "paired f" "(a, b)"] by (simp add: sum_all_def finite_table_def paired_def)

text \<open>A row adds up to no more than the table.\<close>

lemma row_le_sum_all:
  assumes "finite_table f"
  shows "total_of (f a) \<le> sum_all f"
proof -
  have fin: "finite {k. paired f k \<noteq> 0}" using assms by (simp add: finite_table_def finite_support_def)
  have "total_of (f a) = sum (paired f) (Pair a ` {b. f a b \<noteq> 0})"
    by (simp add: total_of_def sum.reindex inj_on_def paired_def)
  also have "\<dots> \<le> sum (paired f) {k. paired f k \<noteq> 0}"
    by (rule sum_mono2 [OF fin]) (auto simp: paired_def)
  finally show ?thesis by (simp add: sum_all_def total_of_def)
qed

text \<open>Clearing a row takes that row's total away.\<close>

definition clear_row :: "('a \<Rightarrow> 'b \<Rightarrow> nat) \<Rightarrow> 'a \<Rightarrow> 'a \<Rightarrow> 'b \<Rightarrow> nat" where
  "clear_row f a = f(a := \<lambda>_. 0)"

lemma finite_table_clear: "finite_table f \<Longrightarrow> finite_table (clear_row f a)"
  unfolding finite_table_def finite_support_def
  by (erule finite_subset [rotated]) (auto simp: paired_def clear_row_def split: if_splits)

lemma sum_all_clear:
  assumes "finite_table f"
  shows "sum_all f = sum_all (clear_row f a) + total_of (f a)"
proof -
  let ?g = "\<lambda>(x, y). if x = a then f a y else 0"
  have supp: "{k. ?g k \<noteq> 0} = Pair a ` {b. f a b \<noteq> 0}" by (auto split: if_splits)
  have tg: "total_of ?g = total_of (f a)"
    unfolding total_of_def supp by (simp add: sum.reindex inj_on_def)
  have fg: "finite_support ?g"
    using finite_table_row [OF assms, of a] unfolding finite_support_def supp by simp
  have fc: "finite_support (paired (clear_row f a))"
    using finite_table_clear [OF assms] by (simp add: finite_table_def)
  have "paired f = (\<lambda>k. paired (clear_row f a) k + ?g k)"
    by (auto simp: paired_def clear_row_def fun_eq_iff)
  then have "sum_all f = total_of (\<lambda>k. paired (clear_row f a) k + ?g k)" by (simp add: sum_all_def)
  also have "\<dots> = sum_all (clear_row f a) + total_of (f a)"
    using total_add [OF fc fg] tg by (simp add: sum_all_def)
  finally show ?thesis .
qed

lemma clear_row_entry: "clear_row (entry f a b v) c = (if a = c then clear_row f c else entry (clear_row f c) a b v)"
  by (auto simp: clear_row_def entry_def fun_eq_iff)

section \<open>The ledger interface\<close>

text \<open>
  A ledger keeps one balance per account and changes one balance at a time. \<open>credit\<close> and
  \<open>debit\<close> panic, or return the amount they moved (which may be less than the amount they were
  given) and change nothing but that balance. The token contract (\<open>internal_deposit\<close>,
  \<open>internal_withdraw\<close>) and a resolution window (\<open>stake\<close>, \<open>unstake\<close> on one outcome) are
  ledgers.
\<close>

locale ledger =
  fixes ok :: "'s \<Rightarrow> bool"
    and bal :: "'s \<Rightarrow> 'k \<Rightarrow> nat"
    and credit :: "'k \<Rightarrow> 'n \<Rightarrow> ('s, nat) action"
    and debit :: "'k \<Rightarrow> 'n \<Rightarrow> ('s, nat) action"
  assumes credit_step: "credit k n s = Inr (c, t) \<Longrightarrow> ok s \<Longrightarrow>
      ok t \<and> bal t = (bal s)(k := bal s k + c)"
    and debit_step: "debit k n s = Inr (c, t) \<Longrightarrow> ok s \<Longrightarrow>
      ok t \<and> c \<le> bal s k \<and> bal t = (bal s)(k := bal s k - c)"
    and ok_finite: "ok s \<Longrightarrow> finite_support (bal s)"
begin

lemma credit_total:
  assumes "credit k n s = Inr (c, t)" and "ok s"
  shows "total_of (bal t) = total_of (bal s) + c"
  using total_upd [OF ok_finite [OF assms(2)], of k "bal s k + c"] credit_step [OF assms]
  by simp

lemma debit_total:
  assumes "debit k n s = Inr (c, t)" and "ok s"
  shows "total_of (bal s) = total_of (bal t) + c"
proof -
  from debit_step [OF assms]
  have le: "c \<le> bal s k" and eq: "bal t = (bal s)(k := bal s k - c)" by simp_all
  show ?thesis
    using total_upd [OF ok_finite [OF assms(2)], of k "bal s k - c"] le
    unfolding eq by linarith
qed

lemma transfer_total:
  assumes "debit a n s = Inr (c, t)" and "credit b m t = Inr (c, u)" and "ok s"
  shows "total_of (bal u) = total_of (bal s)"
  using debit_total [OF assms(1,3)] debit_step [OF assms(1,3)] credit_total [OF assms(2)] by simp

lemma transfer_ok:
  assumes "debit a n s = Inr (c, t)" and "credit b m t = Inr (d, u)" and "ok s"
  shows "ok u"
  using debit_step [OF assms(1,3)] credit_step [OF assms(2)] by simp

lemma debit_covered:
  assumes "debit k n s = Inr (c, t)" and "ok s"
  shows "c \<le> total_of (bal s)"
  using debit_total [OF assms] by simp

lemma round_trip:
  assumes "credit k n s = Inr (c, t)" and "debit k m t = Inr (c, u)" and "ok s"
  shows "bal u = bal s"
  using credit_step [OF assms(1,3)] debit_step [OF assms(2)] by (simp add: fun_eq_iff)

end

end
