(* ===== verification/Resolution_Window.thy ===== *)
theory Resolution_Window
  imports Helpers Finite_Sums
begin

text \<open>
  \<open>oracle/src/resolution_window.rs\<close>: one round of staking. The struct carries the bond, the
  bonded outcome and two handles; the stakes are entries of two lookup maps in storage, the
  totals per outcome and, below a handle per user, the stakes per user and outcome.

  After the operations come the view of a window as two functions (\<open>win_total\<close>, \<open>win_user\<close>),
  the invariant \<open>win_ok\<close> on its handles, the effect of each operation on the view, and the
  ledger invariant \<open>win_balanced\<close>: for every outcome the users' stakes add up to the recorded
  total, and no total exceeds the bond.
\<close>

section \<open>Operations\<close>

definition ots_prefix :: "u64 \<Rightarrow> u16 \<Rightarrow> string" where
  "ots_prefix dr_id rnd = ''ots'' @ show_u64 dr_id @ '':'' @ show_u16 rnd"

definition utots_prefix :: "u64 \<Rightarrow> u16 \<Rightarrow> string" where
  "utots_prefix dr_id rnd = ''utots'' @ show_u64 dr_id @ '':'' @ show_u16 rnd"

definition user_prefix :: "u64 \<Rightarrow> u16 \<Rightarrow> account \<Rightarrow> string" where
  "user_prefix dr_id rnd sender = ''utots:'' @ show_u64 dr_id @ '':'' @ show_u16 rnd @ '':'' @ sender"

definition rw_new :: "oenv \<Rightarrow> u64 \<Rightarrow> u16 \<Rightarrow> u128 \<Rightarrow> u64 \<Rightarrow> u64 \<Rightarrow> resolution_window call" where
  "rw_new E dr_id rnd prev_bond challenge_period start_time =
     bindM (lift (checked_add start_time challenge_period)) (\<lambda>end_time.
     bindM (lift (checked_mul prev_bond 2)) (\<lambda>bond_size.
     let new_resolution_window =
       \<lparr>rw_dr_id = dr_id, rw_round = rnd, rw_start_time = start_time, rw_end_time = end_time,
        rw_bond_size = bond_size, rw_outcome_to_stake = ots_prefix dr_id rnd,
        rw_user_to_outcome_to_stake = utots_prefix dr_id rnd, rw_bonded_outcome = None\<rparr> in
     bindM (emit (log_resolution_window E new_resolution_window)) (\<lambda>_.
     ret new_resolution_window)))"

definition get_user_to_outcomes :: "resolution_window \<Rightarrow> account \<Rightarrow> lookup_map_handle call" where
  "get_user_to_outcomes window sender =
     bindM (users_get (rw_user_to_outcome_to_stake window) sender) (\<lambda>m.
     ret (unwrap_or m (user_prefix (rw_dr_id window) (rw_round window) sender)))"

definition rw_stake ::
  "oenv \<Rightarrow> resolution_window \<Rightarrow> account \<Rightarrow> outcome \<Rightarrow> u128 \<Rightarrow> (u128 \<times> resolution_window) call" where
  "rw_stake E window sender outc amount =
     bindM (stakes_get (rw_outcome_to_stake window) outc) (\<lambda>s.
     let stake_on_outcome = unwrap_or s 0 in
     bindM (get_user_to_outcomes window sender) (\<lambda>m.
     bindM (stakes_get m outc) (\<lambda>u.
     let user_stake_on_outcome = unwrap_or u 0 in
     bindM (lift (checked_sub (rw_bond_size window) stake_on_outcome)) (\<lambda>stake_open.
     bindM (if amount > stake_open then lift (checked_sub amount stake_open) else ret 0) (\<lambda>unspent.
     bindM (lift (checked_sub amount unspent)) (\<lambda>staked.
     bindM (lift (checked_add stake_on_outcome staked)) (\<lambda>new_stake_on_outcome.
     bindM (stakes_insert (rw_outcome_to_stake window) outc new_stake_on_outcome) (\<lambda>_.
     bindM (emit (log_outcome_to_stake (rw_dr_id window) (rw_round window) outc
       new_stake_on_outcome)) (\<lambda>_.
     bindM (lift (checked_add user_stake_on_outcome staked)) (\<lambda>new_user_stake_on_outcome.
     bindM (get_user_to_outcomes window sender) (\<lambda>m'.
     bindM (stakes_insert m' outc new_user_stake_on_outcome) (\<lambda>_.
     bindM (get_user_to_outcomes window sender) (\<lambda>m''.
     bindM (users_insert (rw_user_to_outcome_to_stake window) sender m'') (\<lambda>_.
     bindM (emit (log_user_stake (rw_dr_id window) (rw_round window) sender outc
       new_user_stake_on_outcome)) (\<lambda>_.
     bindM (emit (log_stake_transaction E sender window amount unspent outc)) (\<lambda>_.
     if new_stake_on_outcome = rw_bond_size window then
       let window' = window\<lparr>rw_bonded_outcome := Some outc\<rparr> in
       bindM (emit (log_resolution_window E window')) (\<lambda>_. ret (unspent, window'))
     else ret (unspent, window)))))))))))))))))"

definition rw_unstake :: "oenv \<Rightarrow> resolution_window \<Rightarrow> account \<Rightarrow> outcome \<Rightarrow> u128 \<Rightarrow> u128 call" where
  "rw_unstake E window sender outc amount =
     bindM (ensure (rw_bonded_outcome window = None \<or> rw_bonded_outcome window \<noteq> Some outc)
       (Request ErrBondedOutcome)) (\<lambda>_.
     bindM (get_user_to_outcomes window sender) (\<lambda>m.
     bindM (stakes_get m outc) (\<lambda>u.
     let user_stake_on_outcome = unwrap_or u 0 in
     bindM (ensure (user_stake_on_outcome \<ge> amount)
       (Request (ErrLessStaked sender user_stake_on_outcome))) (\<lambda>_.
     bindM (stakes_get (rw_outcome_to_stake window) outc) (\<lambda>s.
     let stake_on_outcome = unwrap_or s 0 in
     bindM (lift (checked_sub stake_on_outcome amount)) (\<lambda>new_stake_on_outcome.
     bindM (stakes_insert (rw_outcome_to_stake window) outc new_stake_on_outcome) (\<lambda>_.
     bindM (emit (log_outcome_to_stake (rw_dr_id window) (rw_round window) outc
       new_stake_on_outcome)) (\<lambda>_.
     bindM (lift (checked_sub user_stake_on_outcome amount)) (\<lambda>new_user_stake_on_outcome.
     bindM (get_user_to_outcomes window sender) (\<lambda>m'.
     bindM (stakes_insert m' outc new_user_stake_on_outcome) (\<lambda>_.
     bindM (get_user_to_outcomes window sender) (\<lambda>m''.
     bindM (users_insert (rw_user_to_outcome_to_stake window) sender m'') (\<lambda>_.
     bindM (emit (log_user_stake (rw_dr_id window) (rw_round window) sender outc
       new_user_stake_on_outcome)) (\<lambda>_.
     bindM (emit (log_unstake_transaction E sender window amount outc)) (\<lambda>_.
     ret amount)))))))))))))))"

definition rw_claim_for ::
  "resolution_window \<Rightarrow> account \<Rightarrow> outcome \<Rightarrow> window_stake_result call" where
  "rw_claim_for window acc final_outcome =
     (case rw_bonded_outcome window of
        Some bonded_outcome \<Rightarrow>
          if bonded_outcome = final_outcome then
            bindM (users_get (rw_user_to_outcome_to_stake window) acc) (\<lambda>m.
            case m of
              Some outcome_to_stake \<Rightarrow>
                bindM (stakes_remove outcome_to_stake bonded_outcome) (\<lambda>v.
                ret (Correct (rw_bond_size window) (unwrap_or v 0)))
            | None \<Rightarrow> ret (Correct (rw_bond_size window) 0))
          else ret (Incorrect (rw_bond_size window))
      | None \<Rightarrow> ret NoResult)"

section \<open>Storage prefixes\<close>

lemma ots_prefix_inject [simp]: "ots_prefix d r = ots_prefix d' r' \<longleftrightarrow> d = d' \<and> r = r'"
  by (auto simp: ots_prefix_def show_u64_def show_u16_def unat_eq_iff)

lemma utots_prefix_inject [simp]: "utots_prefix d r = utots_prefix d' r' \<longleftrightarrow> d = d' \<and> r = r'"
  by (auto simp: utots_prefix_def show_u64_def show_u16_def unat_eq_iff)

lemma user_prefix_inject [simp]:
  "user_prefix d r a = user_prefix d' r' a' \<longleftrightarrow> d = d' \<and> r = r' \<and> a = a'"
  by (auto simp: user_prefix_def show_u64_def show_u16_def unat_eq_iff)

lemma user_prefix_not_ots [simp]: "user_prefix d r a \<noteq> ots_prefix d' r'" "ots_prefix d' r' \<noteq> user_prefix d r a"
  by (simp_all add: user_prefix_def ots_prefix_def)

lemma user_prefix_not_utots [simp]: "user_prefix d r a \<noteq> utots_prefix d' r'"
  by (auto simp: user_prefix_def utots_prefix_def show_u64_def Cons_eq_append_conv)

section \<open>The view of a window\<close>

definition user_handle :: "oracle_storage \<Rightarrow> resolution_window \<Rightarrow> account \<Rightarrow> lookup_map_handle" where
  "user_handle st win a = unwrap_or (lm_get (st_users st) (rw_user_to_outcome_to_stake win) a)
     (user_prefix (rw_dr_id win) (rw_round win) a)"

definition win_total :: "oracle_storage \<Rightarrow> resolution_window \<Rightarrow> outcome \<Rightarrow> nat" where
  "win_total st win outc = unat (unwrap_or (lm_get (st_stakes st) (rw_outcome_to_stake win) outc) 0)"

definition win_user :: "oracle_storage \<Rightarrow> resolution_window \<Rightarrow> outcome \<Rightarrow> account \<Rightarrow> nat" where
  "win_user st win outc a = unat (unwrap_or (lm_get (st_stakes st) (user_handle st win a) outc) 0)"

text \<open>
  The handles are the ones \<open>rw_new\<close> and \<open>get_user_to_outcomes\<close> build, and a user without an
  entry has no stakes stored.
\<close>

definition win_ok :: "oracle_storage \<Rightarrow> resolution_window \<Rightarrow> bool" where
  "win_ok st win \<longleftrightarrow>
     rw_outcome_to_stake win = ots_prefix (rw_dr_id win) (rw_round win) \<and>
     rw_user_to_outcome_to_stake win = utots_prefix (rw_dr_id win) (rw_round win) \<and>
     (\<forall>a. user_handle st win a = user_prefix (rw_dr_id win) (rw_round win) a) \<and>
     (\<forall>a. lm_get (st_users st) (rw_user_to_outcome_to_stake win) a = None \<longrightarrow>
        (\<forall>outc. win_user st win outc a = 0))"

text \<open>
  The one way the operations write stakes: a new total and a new user stake for one outcome,
  and the user's handle.
\<close>

definition put_stake ::
  "oracle_storage \<Rightarrow> resolution_window \<Rightarrow> account \<Rightarrow> outcome \<Rightarrow> u128 \<Rightarrow> u128 \<Rightarrow> oracle_storage" where
  "put_stake st win a outc new_total new_user =
     st\<lparr>st_stakes := lm_insert (lm_insert (st_stakes st) (rw_outcome_to_stake win) outc new_total)
          (user_handle st win a) outc new_user,
        st_users := lm_insert (st_users st) (rw_user_to_outcome_to_stake win) a (user_handle st win a)\<rparr>"

lemma win_views_cong:
  assumes "st_stakes st' = st_stakes st" and "st_users st' = st_users st"
  shows "win_total st' = win_total st" "win_user st' = win_user st" "win_ok st' = win_ok st"
    "user_handle st' = user_handle st"
  by (intro ext; simp add: win_total_def win_user_def win_ok_def user_handle_def assms)+

lemma win_views_bonded [simp]:
  "win_total st (win\<lparr>rw_bonded_outcome := b\<rparr>) = win_total st win"
  "win_user st (win\<lparr>rw_bonded_outcome := b\<rparr>) = win_user st win"
  "win_ok st (win\<lparr>rw_bonded_outcome := b\<rparr>) = win_ok st win"
  "user_handle st (win\<lparr>rw_bonded_outcome := b\<rparr>) = user_handle st win"
  by (auto simp: win_total_def win_user_def win_ok_def user_handle_def fun_eq_iff)

lemma win_okD:
  assumes "win_ok st win"
  shows "rw_outcome_to_stake win = ots_prefix (rw_dr_id win) (rw_round win)"
    and "rw_user_to_outcome_to_stake win = utots_prefix (rw_dr_id win) (rw_round win)"
    and "user_handle st win a = user_prefix (rw_dr_id win) (rw_round win) a"
    and "lm_get (st_users st) (rw_user_to_outcome_to_stake win) a = None \<Longrightarrow> win_user st win outc a = 0"
  using assms by (auto simp: win_ok_def)

lemma put_stake_handle: "user_handle (put_stake st win a outc T U) win b = user_handle st win b"
  by (simp add: user_handle_def put_stake_def)

lemma put_stake_total:
  assumes "win_ok st win"
  shows "win_total (put_stake st win a outc T U) win = (win_total st win)(outc := unat T)"
  using win_okD [OF assms] by (auto simp: win_total_def put_stake_def fun_eq_iff)

lemma put_stake_user:
  assumes "win_ok st win"
  shows "win_user (put_stake st win a outc T U) win =
    (win_user st win)(outc := (win_user st win outc)(a := unat U))"
proof (intro ext)
  fix o' b
  have "lm_get (st_stakes (put_stake st win a outc T U)) (user_prefix (rw_dr_id win) (rw_round win) b) o' =
    (if b = a \<and> o' = outc then Some U
     else lm_get (st_stakes st) (user_prefix (rw_dr_id win) (rw_round win) b) o')"
    by (simp add: put_stake_def win_okD [OF assms])
  then show "win_user (put_stake st win a outc T U) win o' b =
    ((win_user st win)(outc := (win_user st win outc)(a := unat U))) o' b"
    by (simp add: win_user_def put_stake_handle win_okD [OF assms])
qed

lemma put_stake_ok:
  assumes "win_ok st win"
  shows "win_ok (put_stake st win a outc T U) win"
proof -
  have "lm_get (st_users (put_stake st win a outc T U)) (rw_user_to_outcome_to_stake win) b =
     (if b = a then Some (user_handle st win a) else lm_get (st_users st) (rw_user_to_outcome_to_stake win) b)" for b
    by (simp add: put_stake_def)
  then show ?thesis
    using assms unfolding win_ok_def put_stake_handle
    by (simp add: put_stake_user [OF assms])
qed

text \<open>Another window, of another round or another request, keeps its view.\<close>

lemma put_stake_other:
  assumes "win_ok st win" and "win_ok st win2"
    and "(rw_dr_id win2, rw_round win2) \<noteq> (rw_dr_id win, rw_round win)"
  shows "win_total (put_stake st win a outc T U) win2 = win_total st win2"
    and "win_user (put_stake st win a outc T U) win2 = win_user st win2"
    and "win_ok (put_stake st win a outc T U) win2"
proof -
  let ?st = "put_stake st win a outc T U"
  note ok = win_okD [OF assms(1)] and ok2 = win_okD [OF assms(2)]
  have users: "lm_get (st_users ?st) (utots_prefix (rw_dr_id win2) (rw_round win2)) b =
      lm_get (st_users st) (utots_prefix (rw_dr_id win2) (rw_round win2)) b" for b
    using assms(3) by (auto simp: put_stake_def ok(2))
  have handle: "user_handle ?st win2 b = user_prefix (rw_dr_id win2) (rw_round win2) b" for b
    using ok2(3) [of b] by (simp add: user_handle_def users ok2(2))
  show t: "win_total ?st win2 = win_total st win2"
    using assms(3) by (auto simp: win_total_def put_stake_def fun_eq_iff ok(1,3) ok2(1))
  show u: "win_user ?st win2 = win_user st win2"
    unfolding win_user_def handle ok2(3) using assms(3)
    by (auto simp: fun_eq_iff put_stake_def ok(1,3))
  show "win_ok ?st win2"
    using assms(2) unfolding win_ok_def u
    by (simp add: handle users)
qed

text \<open>A claim removes the claimant's stake on one outcome and keeps the total.\<close>

definition drop_stake :: "oracle_storage \<Rightarrow> resolution_window \<Rightarrow> account \<Rightarrow> outcome \<Rightarrow> oracle_storage" where
  "drop_stake st win a outc = st\<lparr>st_stakes := lm_remove (st_stakes st) (user_handle st win a) outc\<rparr>"

lemma drop_stake_handle [simp]: "user_handle (drop_stake st win a outc) = user_handle st"
  by (simp add: user_handle_def drop_stake_def fun_eq_iff)

lemma drop_stake_users [simp]: "st_users (drop_stake st win a outc) = st_users st"
  by (simp add: drop_stake_def)

lemma drop_stake_total:
  assumes "win_ok st win" and "win_ok st win2"
  shows "win_total (drop_stake st win a outc) win2 = win_total st win2"
  by (auto simp: win_total_def drop_stake_def fun_eq_iff win_okD [OF assms(1)] win_okD [OF assms(2)])

lemma drop_stake_user:
  assumes "win_ok st win"
  shows "win_user (drop_stake st win a outc) win =
    (win_user st win)(outc := (win_user st win outc)(a := 0))"
  by (auto simp: win_user_def fun_eq_iff win_okD(3) [OF assms]) (simp_all add: drop_stake_def win_okD(3) [OF assms])

lemma drop_stake_ok:
  assumes "win_ok st win"
  shows "win_ok (drop_stake st win a outc) win"
  using assms by (simp add: win_ok_def drop_stake_user)

lemma drop_stake_other:
  assumes "win_ok st win" and "win_ok st win2"
    and "(rw_dr_id win2, rw_round win2) \<noteq> (rw_dr_id win, rw_round win)"
  shows "win_user (drop_stake st win a outc) win2 = win_user st win2"
    and "win_ok (drop_stake st win a outc) win2"
proof -
  show u: "win_user (drop_stake st win a outc) win2 = win_user st win2"
    using assms(3) by (auto simp: win_user_def fun_eq_iff win_okD(3) [OF assms(2)])
      (auto simp: drop_stake_def win_okD(3) [OF assms(1)])
  show "win_ok (drop_stake st win a outc) win2"
    using assms(2) by (simp add: win_ok_def u)
qed

section \<open>What the operations do\<close>

definition window_init :: "u64 \<Rightarrow> u16 \<Rightarrow> u128 \<Rightarrow> u64 \<Rightarrow> u64 \<Rightarrow> resolution_window" where
  "window_init d r b p s =
     \<lparr>rw_dr_id = d, rw_round = r, rw_start_time = s, rw_end_time = s + p, rw_bond_size = b * 2,
      rw_outcome_to_stake = ots_prefix d r, rw_user_to_outcome_to_stake = utots_prefix d r,
      rw_bonded_outcome = None\<rparr>"

lemma rw_new_Inr [run]:
  "rw_new E d r b p s w = Inr (win, t) \<longleftrightarrow>
     unat s + unat p < 2 ^ 64 \<and> unat b * 2 < 2 ^ 128 \<and> win = window_init d r b p s \<and>
     t = w\<lparr>logs := logs w @ [log_resolution_window E win]\<rparr>"
  by (auto simp: rw_new_def run Let_def window_init_def)

lemma get_user_to_outcomes_Inr [run]:
  "get_user_to_outcomes win a w = Inr (h, t) \<longleftrightarrow> h = user_handle (store w) win a \<and> t = w"
  by (auto simp: get_user_to_outcomes_def user_handle_def run)

lemma user_handle_stakes [simp]: "user_handle (st\<lparr>st_stakes := x\<rparr>) win a = user_handle st win a"
  by (simp add: user_handle_def)

text \<open>The amount that still fits into the bond, of what was offered.\<close>

definition stake_taken :: "oracle_storage \<Rightarrow> resolution_window \<Rightarrow> outcome \<Rightarrow> u128 \<Rightarrow> u128" where
  "stake_taken st win outc amount =
     min amount (rw_bond_size win - unwrap_or (lm_get (st_stakes st) (rw_outcome_to_stake win) outc) 0)"

lemma unspent_Inr [run]:
  "(if amount > room then lift (checked_sub amount room) else ret 0) w = Inr (x, t) \<longleftrightarrow>
     x = amount - min amount room \<and> t = w"
  for amount room x :: "'a::len word"
  by (auto simp: run min_def not_less word_le_less_eq)

lemma taken_back: "amount - (amount - min amount room) = min amount room" for amount room :: "'a::len word"
  by simp

lemma rw_stake_Inr:
  assumes "rw_stake E win a outc amount w = Inr ((unspent, win'), t)"
  defines "s \<equiv> unwrap_or (lm_get (st_stakes (store w)) (rw_outcome_to_stake win) outc) 0"
    and "u \<equiv> unwrap_or (lm_get (st_stakes (store w)) (user_handle (store w) win a) outc) 0"
    and "staked \<equiv> stake_taken (store w) win outc amount"
  shows "s \<le> rw_bond_size win \<and> unspent = amount - staked \<and>
    unat s + unat staked < 2 ^ 128 \<and> unat u + unat staked < 2 ^ 128 \<and>
    store t = put_stake (store w) win a outc (s + staked) (u + staked) \<and>
    win' = win\<lparr>rw_bonded_outcome :=
      (if s + staked = rw_bond_size win then Some outc else rw_bonded_outcome win)\<rparr> \<and>
    self t = self w \<and> outbox t = outbox w"
  using assms(1) unfolding s_def u_def staked_def stake_taken_def
  by (simp add: rw_stake_def run Let_def put_stake_def del: if_run split: if_splits; clarsimp)

lemma rw_stake_view:
  assumes run: "rw_stake E win a outc amount w = Inr ((unspent, win'), t)" and ok: "win_ok (store w) win"
  defines "taken \<equiv> min (unat amount) (unat (rw_bond_size win) - win_total (store w) win outc)"
  shows "unat unspent + taken = unat amount" "win_total (store w) win outc \<le> unat (rw_bond_size win)"
    "win_total (store t) win = (win_total (store w) win)(outc := win_total (store w) win outc + taken)"
    "win_user (store t) win = (win_user (store w) win)
       (outc := (win_user (store w) win outc)(a := win_user (store w) win outc a + taken))"
    "win_ok (store t) win"
    "win' = win\<lparr>rw_bonded_outcome := (if win_total (store t) win outc = unat (rw_bond_size win)
       then Some outc else rw_bonded_outcome win)\<rparr>"
proof -
  let ?s = "unwrap_or (lm_get (st_stakes (store w)) (rw_outcome_to_stake win) outc) 0"
  let ?u = "unwrap_or (lm_get (st_stakes (store w)) (user_handle (store w) win a) outc) 0"
  let ?k = "stake_taken (store w) win outc amount"
  note inv = rw_stake_Inr [OF run]
  have s: "unat ?s = win_total (store w) win outc" and u: "unat ?u = win_user (store w) win outc a"
    by (simp_all add: win_total_def win_user_def)
  have k: "unat ?k = taken"
    using inv by (auto simp: stake_taken_def taken_def min_def unats exact s)
  have kle: "?k \<le> amount" by (simp add: stake_taken_def)
  show "unat unspent + taken = unat amount"
    using inv kle by (simp add: exact unats k)
  have sk: "unat (?s + ?k) = win_total (store w) win outc + taken"
    and uk: "unat (?u + ?k) = win_user (store w) win outc a + taken"
    using inv by (simp_all add: exact s u k)
  show "win_total (store w) win outc \<le> unat (rw_bond_size win)"
    using inv by (simp add: unats s)
  show tot: "win_total (store t) win = (win_total (store w) win)(outc := win_total (store w) win outc + taken)"
    using inv by (simp add: put_stake_total [OF ok] sk)
  show "win_user (store t) win = (win_user (store w) win)
       (outc := (win_user (store w) win outc)(a := win_user (store w) win outc a + taken))"
    using inv by (simp add: put_stake_user [OF ok] uk)
  show "win_ok (store t) win"
    using inv by (simp add: put_stake_ok [OF ok])
  show "win' = win\<lparr>rw_bonded_outcome := (if win_total (store t) win outc = unat (rw_bond_size win)
       then Some outc else rw_bonded_outcome win)\<rparr>"
  proof -
    from inv have "win' = win\<lparr>rw_bonded_outcome :=
      (if ?s + ?k = rw_bond_size win then Some outc else rw_bonded_outcome win)\<rparr>" by blast
    moreover have "?s + ?k = rw_bond_size win \<longleftrightarrow> win_total (store t) win outc = unat (rw_bond_size win)"
      by (simp add: unat_eq_iff tot sk)
    ultimately show ?thesis by simp
  qed
qed

lemma rw_unstake_Inr:
  assumes "rw_unstake E win a outc amount w = Inr (r, t)"
  defines "s \<equiv> unwrap_or (lm_get (st_stakes (store w)) (rw_outcome_to_stake win) outc) 0"
    and "u \<equiv> unwrap_or (lm_get (st_stakes (store w)) (user_handle (store w) win a) outc) 0"
  shows "r = amount \<and> amount \<le> u \<and> amount \<le> s \<and> rw_bonded_outcome win \<noteq> Some outc \<and>
    store t = put_stake (store w) win a outc (s - amount) (u - amount) \<and>
    self t = self w \<and> outbox t = outbox w"
  using assms(1) unfolding s_def u_def
  by (auto simp add: rw_unstake_def run Let_def put_stake_def)

lemma rw_unstake_view:
  assumes run: "rw_unstake E win a outc amount w = Inr (r, t)" and ok: "win_ok (store w) win"
  shows "r = amount" "unat amount \<le> win_user (store w) win outc a"
    "unat amount \<le> win_total (store w) win outc" "rw_bonded_outcome win \<noteq> Some outc"
    "win_total (store t) win = (win_total (store w) win)(outc := win_total (store w) win outc - unat amount)"
    "win_user (store t) win = (win_user (store w) win)
       (outc := (win_user (store w) win outc)(a := win_user (store w) win outc a - unat amount))"
    "win_ok (store t) win"
proof -
  note inv = rw_unstake_Inr [OF run]
  from inv show "r = amount" "rw_bonded_outcome win \<noteq> Some outc" by simp_all
  from inv show "unat amount \<le> win_user (store w) win outc a" "unat amount \<le> win_total (store w) win outc"
    by (simp_all add: win_total_def win_user_def unats)
  from inv show "win_total (store t) win =
      (win_total (store w) win)(outc := win_total (store w) win outc - unat amount)"
    by (simp add: put_stake_total [OF ok] exact) (simp add: win_total_def)
  from inv show "win_user (store t) win = (win_user (store w) win)
       (outc := (win_user (store w) win outc)(a := win_user (store w) win outc a - unat amount))"
    by (simp add: put_stake_user [OF ok] exact) (simp add: win_user_def)
  from inv show "win_ok (store t) win" by (simp add: put_stake_ok [OF ok])
qed

text \<open>
  A claim in a window bonded on the final outcome pays the user's stake and forgets it. A user
  without an entry has no stake, so nothing is removed.
\<close>

lemma rw_claim_for_Inr:
  assumes call: "rw_claim_for win a final w = Inr (res, t)" and ok: "win_ok (store w) win"
  shows "self t = self w \<and> outbox t = outbox w \<and> logs t = logs w \<and>
    (case rw_bonded_outcome win of
      None \<Rightarrow> res = NoResult \<and> store t = store w
    | Some b \<Rightarrow>
        if b \<noteq> final then res = Incorrect (rw_bond_size win) \<and> store t = store w
        else (\<exists>stake. res = Correct (rw_bond_size win) stake \<and>
          unat stake = win_user (store w) win final a \<and>
          (store t = drop_stake (store w) win a final \<or>
             store t = store w \<and> win_user (store w) win final a = 0)))"
proof (cases "rw_bonded_outcome win = Some final")
  case True
  show ?thesis
  proof (cases "lm_get (st_users (store w)) (rw_user_to_outcome_to_stake win) a")
    case None
    with call True win_okD(4) [OF ok None, of final] show ?thesis
      by (auto simp: rw_claim_for_def run)
  next
    case (Some h)
    then have "h = user_handle (store w) win a" by (simp add: user_handle_def)
    with call True Some show ?thesis
      by (auto simp: rw_claim_for_def run drop_stake_def win_user_def)
  qed
qed (use call in \<open>auto simp: rw_claim_for_def run split: option.splits if_splits\<close>)

section \<open>A window is a ledger for each outcome\<close>

text \<open>
  The state is the storage and the struct; staking credits the user with the part that fits,
  unstaking debits the amount.
\<close>

type_synonym window_state = "world \<times> resolution_window"

definition window_usable :: "outcome \<Rightarrow> window_state \<Rightarrow> bool" where
  "window_usable outc s \<longleftrightarrow> win_ok (store (fst s)) (snd s) \<and>
     finite_support (win_user (store (fst s)) (snd s) outc)"

definition window_balances :: "outcome \<Rightarrow> window_state \<Rightarrow> account \<Rightarrow> nat" where
  "window_balances outc s = win_user (store (fst s)) (snd s) outc"

definition window_credit :: "oenv \<Rightarrow> outcome \<Rightarrow> account \<Rightarrow> u128 \<Rightarrow> (window_state, nat) action" where
  "window_credit E outc a n s =
     (case rw_stake E (snd s) a outc n (fst s) of
        Inl e \<Rightarrow> Inl e
      | Inr ((unspent, win), w) \<Rightarrow> Inr (unat n - unat unspent, (w, win)))"

definition window_debit :: "oenv \<Rightarrow> outcome \<Rightarrow> account \<Rightarrow> u128 \<Rightarrow> (window_state, nat) action" where
  "window_debit E outc a n s =
     (case rw_unstake E (snd s) a outc n (fst s) of
        Inl e \<Rightarrow> Inl e
      | Inr (r, w) \<Rightarrow> Inr (unat r, (w, snd s)))"

lemma window_credit_Inr:
  assumes "window_credit E outc a n s = Inr (c, t)" and "window_usable outc s"
  shows "window_usable outc t \<and>
    window_balances outc t = (window_balances outc s)(a := window_balances outc s a + c)"
proof -
  from assms(1) obtain unspent where
    run: "rw_stake E (snd s) a outc n (fst s) = Inr ((unspent, snd t), fst t)"
    and c: "c = unat n - unat unspent"
    by (auto simp: window_credit_def split: sum.splits prod.splits)
  from assms(2) have ok: "win_ok (store (fst s)) (snd s)" by (simp add: window_usable_def)
  note view = rw_stake_view [OF run ok]
  from view(1) have "c = min (unat n) (unat (rw_bond_size (snd s)) - win_total (store (fst s)) (snd s) outc)"
    unfolding c by simp
  then show ?thesis
    using assms(2) by (simp add: window_usable_def window_balances_def view(4,5,6))
qed

lemma window_debit_Inr:
  assumes "window_debit E outc a n s = Inr (c, t)" and "window_usable outc s"
  shows "window_usable outc t \<and> c \<le> window_balances outc s a \<and>
    window_balances outc t = (window_balances outc s)(a := window_balances outc s a - c)"
proof -
  from assms(1) obtain r where
    run: "rw_unstake E (snd s) a outc n (fst s) = Inr (r, fst t)" and c: "c = unat r" and t: "snd t = snd s"
    by (auto simp: window_debit_def split: sum.splits)
  from assms(2) have ok: "win_ok (store (fst s)) (snd s)" by (simp add: window_usable_def)
  note view = rw_unstake_view [OF run ok]
  show ?thesis
    using assms(2) view(2) by (simp add: window_usable_def window_balances_def view(1,6,7) c t)
qed

interpretation window_ledger: ledger "window_usable outc" "window_balances outc"
    "window_credit E outc" "window_debit E outc" for E outc
  by unfold_locales
    (auto dest: window_credit_Inr window_debit_Inr simp: window_usable_def window_balances_def)

section \<open>The ledger invariant\<close>

definition win_balanced :: "oracle_storage \<Rightarrow> resolution_window \<Rightarrow> bool" where
  "win_balanced st win \<longleftrightarrow> win_ok st win \<and>
     finite_table (win_user st win) \<and>
     (\<forall>outc. total_of (win_user st win outc) = win_total st win outc \<and>
        win_total st win outc \<le> unat (rw_bond_size win))"

lemma win_balanced_usable: "win_balanced st win \<Longrightarrow> store w = st \<Longrightarrow> window_usable outc (w, win)"
  by (simp add: win_balanced_def window_usable_def finite_table_row)

lemma rw_stake_balanced:
  assumes run: "rw_stake E win a outc amount w = Inr ((unspent, win'), t)"
    and bal: "win_balanced (store w) win"
  shows "win_balanced (store t) win'"
proof -
  from bal have ok: "win_ok (store w) win" by (simp add: win_balanced_def)
  note view = rw_stake_view [OF run ok]
  have credit: "window_credit E outc a amount (w, win) = Inr (unat amount - unat unspent, (t, win'))"
    by (simp add: window_credit_def run)
  note usable = win_balanced_usable [OF bal refl, of outc]
  from window_ledger.credit_total [OF credit usable] bal view(1)
  have sum: "total_of (win_user (store t) win outc) = win_total (store t) win outc"
    unfolding view(6) by (simp add: window_balances_def win_balanced_def view(3))
  have fin: "finite_table (win_user (store t) win)"
    using bal by (simp add: view(4) win_balanced_def flip: entry_def)
  show ?thesis
    unfolding view(6) win_balanced_def win_views_bonded
  proof (intro conjI allI)
    fix o'
    show "finite_table (win_user (store t) win)" by (rule fin)
    show "total_of (win_user (store t) win o') = win_total (store t) win o'"
      using sum bal by (cases "o' = outc") (simp_all add: view(3,4) win_balanced_def)
    show "win_total (store t) win o'
        \<le> unat (rw_bond_size (win\<lparr>rw_bonded_outcome :=
          if win_total (store t) win outc = unat (rw_bond_size win) then Some outc
          else rw_bonded_outcome win\<rparr>))"
    proof (cases "o' = outc")
      case True
      then show ?thesis using view(2) by (simp add: view(3))
    next
      case False
      then show ?thesis using bal by (simp add: view(3) win_balanced_def)
    qed
  qed (rule view(5))
qed

lemma rw_unstake_balanced:
  assumes run: "rw_unstake E win a outc amount w = Inr (r, t)"
    and bal: "win_balanced (store w) win"
  shows "win_balanced (store t) win"
proof -
  from bal have ok: "win_ok (store w) win" by (simp add: win_balanced_def)
  note view = rw_unstake_view [OF run ok]
  have debit: "window_debit E outc a amount (w, win) = Inr (unat amount, (t, win))"
    by (simp add: window_debit_def run view(1))
  note usable = win_balanced_usable [OF bal refl, of outc]
  from window_ledger.debit_total [OF debit usable] bal
  have sum: "total_of (win_user (store t) win outc) = win_total (store t) win outc"
    by (simp add: window_balances_def win_balanced_def view(5))
  have fin: "finite_table (win_user (store t) win)"
    using bal by (simp add: view(6) win_balanced_def flip: entry_def)
  show ?thesis
    unfolding win_balanced_def
  proof (intro conjI allI)
    fix o'
    show "finite_table (win_user (store t) win)" by (rule fin)
    show "total_of (win_user (store t) win o') = win_total (store t) win o'"
      using sum bal by (cases "o' = outc") (simp_all add: view(5,6) win_balanced_def)
    show "win_total (store t) win o' \<le> unat (rw_bond_size win)"
      using bal by (auto simp: view(5) win_balanced_def intro: le_trans [OF diff_le_self])
  qed (rule view(7))
qed

end
