(* ===== verification/Sample.thy ===== *)
theory Sample
  imports Oracle_State
begin

text \<open>
  Concrete inputs at which the properties are applied: the constants of the SDKs, the
  environment of a call, the configuration of the repository's own tests (\<open>new_config\<close> in
  \<open>data_request.rs\<close>), a whitelisted requester and the arguments of a request.
\<close>

definition sample_sdk :: sdk where
  "sample_sdk = \<lparr>max_sources = 8, max_tags = 8, min_outcomes = 2, min_period_multiplier = 3,
     max_resolution_fee_percentage = 100, gas_base_transfer = 10, gas_base_set_outcome = 100,
     storage_price_per_byte = 10, key_whitelist = ''wl'', key_configs = ''c'',
     key_data_requests = ''dr'', key_accounts = ''a''\<rparr>"

definition sample_env :: "account \<Rightarrow> u64 \<Rightarrow> oenv" where
  "sample_env who now = \<lparr>predecessor = who, current_account = ''oracle'', attached_deposit = 1,
     block_timestamp = now, block_index = 7, prepaid_gas = 1000, used_gas = 10,
     storage_usage = \<lambda>_. 500\<rparr>"

definition sample_config :: "u128 \<Rightarrow> oracle_config" where
  "sample_config invoke = \<lparr>cfg_gov = ''gov'', cfg_final_arbitrator = ''arb'', cfg_payment_token = ''pay'',
     cfg_stake_token = ''flx'', cfg_validity_bond = 100, cfg_max_outcomes = 8,
     cfg_default_challenge_window_duration = 1000, cfg_min_initial_challenge_window_duration = 1000,
     cfg_final_arbitrator_invoke_amount = invoke,
     cfg_fee = \<lparr>flux_market_cap = 50000, total_value_staked = 10000, resolution_fee_percentage = 10\<rparr>,
     cfg_min_resolution_bond = 100\<rparr>"

definition sample_requester :: requester where
  "sample_requester = \<lparr>contract_name = ''bob'', account_id = ''bob'', stake_multiplier = None,
     code_base_url = None\<rparr>"

definition sample_args :: new_data_request_args where
  "sample_args = \<lparr>arg_sources = Some [], arg_outcomes = Some [''a'', ''b''], arg_challenge_period = 1500,
     arg_description = Some ''d'', arg_tags = [''1''], arg_data_type = TString, arg_provider = Some ''pro''\<rparr>"

text \<open>A state with given configurations and nothing else stored.\<close>

definition sample_storage :: "oracle_config \<Rightarrow> oracle_storage" where
  "sample_storage c = empty_storage\<lparr>st_configs := [(''c'', 0) \<mapsto> c]\<rparr>"

definition sample_world :: "oracle_config \<Rightarrow> world" where
  "sample_world c =
     \<lparr>self = \<lparr>whitelist = None, configs = \<lparr>vec_prefix = ''c'', vec_len = 1\<rparr>,
        data_requests = vec_new ''dr'', accounts = ''a'', paused = False\<rparr>,
      store = sample_storage c, logs = [], outbox = []\<rparr>"

definition blank_world :: world where
  "blank_world =
     \<lparr>self = \<lparr>whitelist = None, configs = vec_new [], data_requests = vec_new [], accounts = [],
        paused = False\<rparr>, store = empty_storage, logs = [], outbox = []\<rparr>"

lemmas sample_inputs = sample_sdk_def sample_env_def sample_config_def sample_requester_def sample_args_def

lemmas sample_worlds = sample_world_def sample_storage_def blank_world_def empty_storage_def

text \<open>What it takes to run an action on a concrete state.\<close>

lemmas evaluate = actions primitives Let_def lm_get_def lm_insert_def lm_remove_def
  vec_new_def vec_get_def vec_push_def vec_replace_def
  checked_add_def checked_sub_def checked_mul_def checked_div_def

lemma sample_usage [simp]: "storage_usage (sample_env who now) st = 500"
  by (simp add: sample_env_def)

end
