(* ===== verification/Contract_Checks.thy ===== *)
theory Contract_Checks
  imports Helpers Sample
begin

text \<open>
  The caller and state checks of \<open>oracle/src/lib.rs\<close> (\<open>assert_gov\<close>, \<open>assert_unpaused\<close>,
  \<open>assert_sender\<close>) and the configuration they consult (\<open>get_config\<close> of
  \<open>oracle_config.rs\<close>): the last element of the vector of configurations.
\<close>

definition configs_len :: "u64 call" where
  "configs_len = reads (\<lambda>w. vec_len (configs (self w)))"

definition get_config :: "oracle_config call" where
  "get_config =
     bindM configs_len (\<lambda>n.
     bindM (lift (checked_sub n 1)) (\<lambda>i.
     bindM (configs_get i) (\<lambda>c.
     expect c (Rust ErrUnwrapNone))))"

definition assert_gov :: "oenv \<Rightarrow> unit call" where
  "assert_gov E =
     bindM configs_len (\<lambda>n.
     bindM (lift (checked_sub n 1)) (\<lambda>i.
     bindM (configs_get i) (\<lambda>c.
     bindM (expect c (Rust ErrUnwrapNone)) (\<lambda>config.
     ensure (cfg_gov config = predecessor E) (Access (ErrNotGov (cfg_gov config)))))))"

definition assert_unpaused :: "unit call" where
  "assert_unpaused = bindM (reads (\<lambda>w. paused (self w))) (\<lambda>p. ensure (\<not> p) (Access ErrPaused))"

definition assert_sender :: "oenv \<Rightarrow> account \<Rightarrow> unit call" where
  "assert_sender E expected_sender =
     ensure (predecessor E = expected_sender) (Access (ErrSender expected_sender))"

section \<open>The configurations in storage\<close>

definition config_list :: "world \<Rightarrow> oracle_config list" where
  "config_list w = vec_elems (st_configs (store w)) (configs (self w))"

definition configs_ok :: "world \<Rightarrow> bool" where
  "configs_ok w \<longleftrightarrow> vec_ok (st_configs (store w)) (configs (self w)) \<and> config_list w \<noteq> []"

lemma configs_ok_cong:
  assumes "st_configs (store t) = st_configs (store w)" and "configs (self t) = configs (self w)"
  shows "config_list t = config_list w" "configs_ok t = configs_ok w"
  by (simp_all add: configs_ok_def config_list_def assms)

text \<open>With a configuration stored, the current one is the last, and \<open>assert_gov\<close> compares with it.\<close>

lemma get_config_ok: "configs_ok w \<Longrightarrow> get_config w = Inr (last (config_list w), w)"
  using vec.get_last [of "st_configs (store w)" "configs (self w)"]
  by (simp add: configs_ok_def config_list_def get_config_def configs_len_def configs_get_def actions)

lemma assert_gov_ok: "configs_ok w \<Longrightarrow> assert_gov E w =
    (if cfg_gov (last (config_list w)) = predecessor E then Inr ((), w)
     else Inl (Access (ErrNotGov (cfg_gov (last (config_list w))))))"
  using vec.get_last [of "st_configs (store w)" "configs (self w)"]
  by (simp add: configs_ok_def config_list_def assert_gov_def configs_len_def configs_get_def actions)

definition current_config :: "world \<Rightarrow> oracle_config option" where
  "current_config w = (case get_config w of Inl _ \<Rightarrow> None | Inr (c, _) \<Rightarrow> Some c)"

definition governed :: "oenv \<Rightarrow> world \<Rightarrow> bool" where
  "governed E w \<longleftrightarrow> assert_gov E w = Inr ((), w)"

lemma get_config_Inr [run]: "get_config w = Inr (c, t) \<longleftrightarrow> current_config w = Some c \<and> t = w"
proof -
  have "get_config w = Inr (c, t) \<Longrightarrow> t = w" for c t
    by (auto simp: get_config_def configs_len_def run)
  then show ?thesis by (auto simp: current_config_def split: sum.splits)
qed

lemma assert_gov_Inr [run]: "assert_gov E w = Inr (u, t) \<longleftrightarrow> governed E w \<and> t = w"
proof -
  have "assert_gov E w = Inr (u, t) \<Longrightarrow> t = w" for t
    by (auto simp: assert_gov_def configs_len_def run)
  then show ?thesis by (auto simp: governed_def)
qed

lemma current_config_ok: "configs_ok w \<Longrightarrow> current_config w = Some (last (config_list w))"
  by (simp add: current_config_def get_config_ok)

lemma governed_ok: "configs_ok w \<Longrightarrow> governed E w \<longleftrightarrow> cfg_gov (last (config_list w)) = predecessor E"
  by (simp add: governed_def assert_gov_ok)

lemma configs_len_Inr [run]: "configs_len w = Inr (n, t) \<longleftrightarrow> n = vec_len (configs (self w)) \<and> t = w"
  by (simp add: configs_len_def run)

lemma assert_unpaused_Inr [run]: "assert_unpaused w = Inr (u, t) \<longleftrightarrow> \<not> paused (self w) \<and> t = w"
  by (auto simp: assert_unpaused_def run)

lemma assert_unpaused_stop: "paused (self w) \<Longrightarrow> assert_unpaused w = Inl (Access ErrPaused)"
  by (simp add: assert_unpaused_def actions)

lemma assert_sender_Inr [run]: "assert_sender E a w = Inr (u, t) \<longleftrightarrow> predecessor E = a \<and> t = w"
  by (auto simp: assert_sender_def run)

lemma sample_configs: "configs_ok (sample_world c)" "config_list (sample_world c) = [c]"
  by (simp_all add: configs_ok_def config_list_def sample_worlds vec_ok_def vec_elems_def)

lemma sample_governed:
  "governed (sample_env who now) (sample_world c) \<longleftrightarrow> who = cfg_gov c"
  by (auto simp: governed_ok [OF sample_configs(1)] sample_configs(2) sample_env_def)

lemma sample_refund: "refund_amount sample_sdk (sample_env who now) i i = Inr 1"
  by (simp add: refund_amount_def sample_sdk_def sample_env_def bindR_def checked_sub_def checked_mul_def checked_add_def)

end
