(* ===== verification/Whitelist.thy ===== *)
theory Whitelist
  imports Contract_Checks
begin

text \<open>
  \<open>oracle/src/whitelist.rs\<close>, and of \<open>oracle/src/requester_handler.rs\<close> the two methods of
  \<open>Requester\<close> itself: an optional lookup map from accounts to requesters. Without a map every
  account may file requests.
\<close>

section \<open>Requesters\<close>

definition new_no_whitelist :: "account \<Rightarrow> requester" where
  "new_no_whitelist acc =
     \<lparr>contract_name = [], account_id = acc, stake_multiplier = None, code_base_url = None\<rparr>"

definition set_outcome :: "sdk \<Rightarrow> requester \<Rightarrow> outcome \<Rightarrow> string list \<Rightarrow> oracle_promise" where
  "set_outcome K r outc tags =
     FunctionCall (account_id r) (Set_outcome (account_id r) outc tags) 1
       (gas_base_set_outcome K div 10)"

section \<open>The whitelist\<close>

definition whitelist_new ::
  "sdk \<Rightarrow> oenv \<Rightarrow> requester list option \<Rightarrow> lookup_map_handle option call" where
  "whitelist_new K E initial_whitelist =
     (let wl = key_whitelist K in
      case initial_whitelist of
        Some rs \<Rightarrow>
          bindM (foreach (\<lambda>r.
            bindM (whitelist_insert wl (account_id r) r) (\<lambda>_.
            emit (log_whitelist E r True))) rs) (\<lambda>_.
          ret (Some wl))
      | None \<Rightarrow> ret None)"

definition whitelist_handle :: "lookup_map_handle option call" where
  "whitelist_handle = reads (\<lambda>w. whitelist (self w))"

definition wl_contains :: "account \<Rightarrow> bool call" where
  "wl_contains acc =
     bindM whitelist_handle (\<lambda>h.
     bindM (expect h (Rust ErrUnwrapNone)) (\<lambda>wl.
     bindM (whitelist_get wl acc) (\<lambda>r.
     ret (r \<noteq> None))))"

definition get_stake_multiplier :: "account \<Rightarrow> u16 option call" where
  "get_stake_multiplier acc =
     bindM whitelist_handle (\<lambda>h.
     case h of
       Some wl \<Rightarrow>
         bindM (whitelist_get wl acc) (\<lambda>r.
         bindM (expect r (Access ErrMultiplierNotWhitelisted)) (\<lambda>q.
         ret (stake_multiplier q)))
     | None \<Rightarrow> ret None)"

definition whitelist_get_expect :: "account \<Rightarrow> requester call" where
  "whitelist_get_expect acc =
     bindM whitelist_handle (\<lambda>h.
     case h of
       Some wl \<Rightarrow>
         bindM (whitelist_get wl acc) (\<lambda>r.
         expect r (Access ErrRequesterNotWhitelisted))
     | None \<Rightarrow> ret (new_no_whitelist acc))"

definition whitelist_contains :: "account \<Rightarrow> bool call" where
  "whitelist_contains acc = wl_contains acc"

definition assert_whitelisted :: "account \<Rightarrow> unit call" where
  "assert_whitelisted acc =
     bindM whitelist_handle (\<lambda>h.
     case h of
       Some _ \<Rightarrow> bindM (whitelist_contains acc) (\<lambda>b. ensure b (Access ErrNotWhitelisted))
     | None \<Rightarrow> ret ())"

definition add_to_whitelist :: "sdk \<Rightarrow> oenv \<Rightarrow> requester \<Rightarrow> unit call" where
  "add_to_whitelist K E new_requester =
     bindM (assert_gov E) (\<lambda>_.
     bindM (case stake_multiplier new_requester of
              Some m \<Rightarrow> ensure (m > 0) (Validation ErrZeroMultiplier)
            | None \<Rightarrow> ret ()) (\<lambda>_.
     bindM (usage E) (\<lambda>initial_storage.
     bindM whitelist_handle (\<lambda>h.
     bindM (case h of
              Some wl \<Rightarrow> whitelist_insert wl (account_id new_requester) new_requester
            | None \<Rightarrow>
                let wl = ''wlr'' in
                bindM (whitelist_insert wl (account_id new_requester) new_requester) (\<lambda>_.
                modifies (\<lambda>w. w\<lparr>self := (self w)\<lparr>whitelist := Some wl\<rparr>\<rparr>))) (\<lambda>_.
     bindM (emit (log_whitelist E new_requester True)) (\<lambda>_.
     refund_storage K E initial_storage (predecessor E)))))))"

definition remove_from_whitelist :: "sdk \<Rightarrow> oenv \<Rightarrow> requester \<Rightarrow> unit call" where
  "remove_from_whitelist K E r =
     bindM (assert_gov E) (\<lambda>_.
     bindM (usage E) (\<lambda>initial_storage.
     bindM (emit (log_whitelist E r False)) (\<lambda>_.
     bindM whitelist_handle (\<lambda>h.
     bindM (case h of
              Some wl \<Rightarrow> whitelist_remove wl (account_id r)
            | None \<Rightarrow> panic (Access ErrUninitiatedWhitelist)) (\<lambda>_.
     refund_storage K E initial_storage (predecessor E))))))"

section \<open>Who may file a request\<close>

text \<open>The abstract whitelist: no map admits everyone, under the default requester.\<close>

definition admitted :: "world \<Rightarrow> account \<Rightarrow> requester option" where
  "admitted w acc =
     (case whitelist (self w) of
        None \<Rightarrow> Some (new_no_whitelist acc)
      | Some wl \<Rightarrow> lm_get (st_whitelist (store w)) wl acc)"

lemma admitted_cong:
  assumes "st_whitelist (store t) = st_whitelist (store w)" and "whitelist (self t) = whitelist (self w)"
  shows "admitted t = admitted w"
  by (auto simp: admitted_def assms fun_eq_iff split: option.split)

lemma assert_whitelisted_Inr [run]:
  "assert_whitelisted acc w = Inr (u, t) \<longleftrightarrow> admitted w acc \<noteq> None \<and> t = w"
  by (auto simp: assert_whitelisted_def whitelist_contains_def wl_contains_def whitelist_handle_def
      admitted_def run split: option.splits)

lemma whitelist_get_expect_Inr [run]:
  "whitelist_get_expect acc w = Inr (r, t) \<longleftrightarrow> admitted w acc = Some r \<and> t = w"
  by (auto simp: whitelist_get_expect_def whitelist_handle_def admitted_def run split: option.splits)

lemma get_stake_multiplier_Inr:
  "get_stake_multiplier acc w = Inr (m, t) \<longleftrightarrow>
     t = w \<and> (\<exists>r. admitted w acc = Some r \<and> m = stake_multiplier r)"
  by (auto simp: get_stake_multiplier_def whitelist_handle_def admitted_def new_no_whitelist_def run
      split: option.splits)

text \<open>What a successful change of the whitelist did, for every account.\<close>

lemma add_to_whitelist_admits:
  assumes "add_to_whitelist K E r w = Inr (u, t)"
  shows "admitted t acc =
    (if acc = account_id r then Some r
     else case whitelist (self w) of
       Some _ \<Rightarrow> admitted w acc
     | None \<Rightarrow> lm_get (st_whitelist (store w)) ''wlr'' acc)"
  using assms
  by (cases "whitelist (self w)"; cases "stake_multiplier r")
    (auto simp: add_to_whitelist_def whitelist_handle_def run admitted_def Let_def)

lemma remove_from_whitelist_admits:
  assumes "remove_from_whitelist K E r w = Inr (u, t)"
  shows "whitelist (self w) \<noteq> None \<and>
    admitted t acc = (if acc = account_id r then None else admitted w acc)"
  using assms
  by (cases "whitelist (self w)") (auto simp: remove_from_whitelist_def whitelist_handle_def run admitted_def)

text \<open>The initial whitelist admits exactly the accounts listed, the last entry of an account counting.\<close>

lemma whitelist_fill:
  "\<exists>t. foreach (\<lambda>r. bindM (whitelist_insert wl (account_id r) r) (\<lambda>_. emit (log_whitelist E r True))) rs w
       = Inr ((), t) \<and> self t = self w \<and>
     (\<forall>acc. lm_get (st_whitelist (store t)) wl acc =
        (case filter (\<lambda>r. account_id r = acc) (rev rs) of
           r # _ \<Rightarrow> Some r
         | [] \<Rightarrow> lm_get (st_whitelist (store w)) wl acc))"
proof (induction rs arbitrary: w)
  case Nil
  then show ?case by (simp add: actions)
next
  case (Cons r rs)
  let ?w = "w\<lparr>store := (store w)\<lparr>st_whitelist := lm_insert (st_whitelist (store w)) wl (account_id r) r\<rparr>,
      logs := logs w @ [log_whitelist E r True]\<rparr>"
  from Cons.IH [of ?w] show ?case
    by (auto simp: actions whitelist_insert_def emit_def filter_append split: list.splits)
qed

section \<open>Properties\<close>

text \<open>C34: adding a requester admits its account under its entry, and is refused to all but
  governance and for a zero multiplier. If the whitelist exists, no other account changes. If
  there is none, so that everyone is admitted, the call creates one: from then on every other
  account is admitted only if an entry for it is stored under the prefix of the new list.\<close>

theorem add_to_whitelist_spec:
  assumes "add_to_whitelist K E r w = Inr (u, t)" and "configs_ok w"
  shows "predecessor E = cfg_gov (last (config_list w)) \<and> stake_multiplier r \<noteq> Some 0 \<and>
    whitelist (self t) \<noteq> None \<and> admitted t (account_id r) = Some r \<and>
    (\<forall>acc. acc \<noteq> account_id r \<longrightarrow>
      admitted t acc = (if whitelist (self w) = None then lm_get (st_whitelist (store w)) ''wlr'' acc
                        else admitted w acc))"
proof -
  have "predecessor E = cfg_gov (last (config_list w)) \<and> stake_multiplier r \<noteq> Some 0 \<and> whitelist (self t) \<noteq> None"
    using assms
    by (cases "stake_multiplier r"; cases "whitelist (self w)")
      (auto simp: add_to_whitelist_def whitelist_handle_def Let_def run governed_ok)
  with add_to_whitelist_admits [OF assms(1)] show ?thesis by (auto split: option.split)
qed

definition listed_world :: world where
  "listed_world = (sample_world (sample_config 1000))
     \<lparr>self := (self (sample_world (sample_config 1000)))\<lparr>whitelist := Some ''wl''\<rparr>\<rparr>"

lemma listed_configs: "configs_ok listed_world" "config_list listed_world = [sample_config 1000]"
  by (simp_all add: configs_ok_def config_list_def listed_world_def sample_worlds vec_ok_def vec_elems_def)

lemma listed_world_run: "governed (sample_env ''gov'' 0) listed_world" "whitelist (self listed_world) = Some ''wl''"
  by (simp_all add: governed_ok [OF listed_configs(1)] listed_configs(2) sample_inputs)
    (simp add: listed_world_def)

lemma add_to_whitelist_spec_witness:
  "\<exists>t. add_to_whitelist sample_sdk (sample_env ''gov'' 0) sample_requester listed_world = Inr ((), t) \<and>
    admitted t ''bob'' = Some sample_requester"
proof -
  have "\<exists>t. add_to_whitelist sample_sdk (sample_env ''gov'' 0) sample_requester listed_world = Inr ((), t)"
    by (simp add: add_to_whitelist_def run listed_world_run whitelist_handle_def sample_refund sample_requester_def)
  then obtain t where call: "add_to_whitelist sample_sdk (sample_env ''gov'' 0) sample_requester listed_world = Inr ((), t)" ..
  from add_to_whitelist_spec [OF call listed_configs(1)] call show ?thesis by (auto simp: sample_requester_def)
qed

text \<open>C35: removing a requester needs a whitelist and governance, refuses its account from then
  on and changes no other account.\<close>

theorem remove_from_whitelist_spec:
  assumes "remove_from_whitelist K E r w = Inr (u, t)" and "configs_ok w"
  shows "predecessor E = cfg_gov (last (config_list w)) \<and> whitelist (self w) \<noteq> None \<and>
    admitted t = (admitted w)(account_id r := None)"
proof -
  have "predecessor E = cfg_gov (last (config_list w))"
    using assms by (auto simp: remove_from_whitelist_def run governed_ok)
  with remove_from_whitelist_admits [OF assms(1)] show ?thesis by auto
qed

lemma remove_from_whitelist_spec_witness:
  "\<exists>t. remove_from_whitelist sample_sdk (sample_env ''gov'' 0) sample_requester listed_world = Inr ((), t) \<and>
    admitted t ''bob'' = None"
proof -
  have "\<exists>t. remove_from_whitelist sample_sdk (sample_env ''gov'' 0) sample_requester listed_world = Inr ((), t)"
    by (simp add: remove_from_whitelist_def run listed_world_run whitelist_handle_def sample_refund sample_requester_def)
  then obtain t where call: "remove_from_whitelist sample_sdk (sample_env ''gov'' 0) sample_requester listed_world = Inr ((), t)" ..
  from remove_from_whitelist_spec [OF call listed_configs(1)] call show ?thesis by (auto simp: sample_requester_def)
qed

end
