(* ===== verification/Data_Request.thy ===== *)
theory Data_Request
  imports Resolution_Window Whitelist
begin

text \<open>
  The methods that \<open>oracle/src/data_request.rs\<close> gives to \<open>ActiveDataRequest\<close>,
  \<open>FinalizedDataRequest\<close> and \<open>DataRequest\<close>. A method with \<open>&mut self\<close> returns the struct it
  leaves behind next to its result. The windows of a request are the elements of a persistent
  vector whose handle the struct carries.
\<close>

section \<open>ActiveDataRequest\<close>

definition windows_prefix :: "u64 \<Rightarrow> string" where
  "windows_prefix dr_id = ''rw'' @ show_u64 dr_id"

definition adr_new ::
  "requester \<Rightarrow> u64 \<Rightarrow> u64 \<Rightarrow> oracle_config \<Rightarrow> u128 \<Rightarrow> new_data_request_args \<Rightarrow>
   error + active_data_request" where
  "adr_new r dr_id global_config_id config paid_fee request_data =
     (case arg_sources request_data of
        None \<Rightarrow> Inl (Rust ErrUnwrapNone)
      | Some sources \<Rightarrow> Inr
          \<lparr>adr_id = dr_id, adr_sources = sources, adr_outcomes = arg_outcomes request_data,
           adr_requester = r, adr_resolution_windows = vec_new (windows_prefix dr_id),
           adr_global_config_id = global_config_id,
           adr_request_config =
             \<lparr>rc_default_challenge_window_duration = cfg_default_challenge_window_duration config,
              rc_final_arbitrator_invoke_amount = cfg_final_arbitrator_invoke_amount config,
              rc_final_arbitrator = cfg_final_arbitrator config,
              rc_validity_bond = cfg_validity_bond config,
              rc_stake_multiplier = stake_multiplier r,
              rc_paid_fee = paid_fee,
              rc_min_resolution_bond = cfg_min_resolution_bond config\<rparr>,
           adr_initial_challenge_period = arg_challenge_period request_data,
           adr_final_arbitrator_triggered = False,
           adr_description = arg_description request_data, adr_tags = arg_tags request_data,
           adr_data_type = arg_data_type request_data, adr_provider = arg_provider request_data\<rparr>)"

definition calc_resolution_bond :: "active_data_request \<Rightarrow> error + u128" where
  "calc_resolution_bond dr =
     (let rc = adr_request_config dr;
          base_bond = (if rc_paid_fee rc \<ge> rc_validity_bond rc then rc_paid_fee rc
                       else rc_validity_bond rc);
          res_bond = (if base_bond < rc_min_resolution_bond rc then rc_min_resolution_bond rc
                      else base_bond) in
      multiply_stake res_bond (rc_stake_multiplier rc))"

text \<open>Returns whether the final arbitrator is triggered.\<close>

definition invoke_final_arbitrator :: "active_data_request \<Rightarrow> u128 \<Rightarrow> bool \<times> active_data_request" where
  "invoke_final_arbitrator dr bond_size =
     (let should_invoke = bond_size \<ge> rc_final_arbitrator_invoke_amount (adr_request_config dr);
          dr' = (if should_invoke then dr\<lparr>adr_final_arbitrator_triggered := True\<rparr> else dr) in
      (adr_final_arbitrator_triggered dr', dr'))"

text \<open>\<open>self.resolution_windows.get(i).unwrap()\<close>\<close>

definition window_at :: "vector_handle \<Rightarrow> u64 \<Rightarrow> resolution_window call" where
  "window_at ws i = bindM (windows_get ws i) (\<lambda>x. expect x (Rust ErrUnwrapNone))"

text \<open>
  The three parts of \<open>ActiveDataRequest::stake\<close>: the window staked on, storing it, and opening
  the next window once it is bonded.
\<close>

definition current_window :: "oenv \<Rightarrow> active_data_request \<Rightarrow> resolution_window call" where
  "current_window E dr =
     (let ws = adr_resolution_windows dr in
      if vec_len ws = 0 then
        bindM (lift (calc_resolution_bond dr)) (\<lambda>bond.
        rw_new E (adr_id dr) 0 bond (adr_initial_challenge_period dr) (block_timestamp E))
      else bindM (lift (checked_sub (vec_len ws) 1)) (window_at ws))"

definition store_window :: "active_data_request \<Rightarrow> resolution_window \<Rightarrow> active_data_request call" where
  "store_window dr window =
     (let ws = adr_resolution_windows dr in
      if vec_len ws = 0 then
        bindM (windows_push ws window) (\<lambda>ws'. ret (dr\<lparr>adr_resolution_windows := ws'\<rparr>))
      else
        bindM (lift (checked_sub (vec_len ws) 1)) (\<lambda>i.
        bindM (windows_replace ws i window) (\<lambda>_. ret dr)))"

definition open_next_window ::
  "oenv \<Rightarrow> active_data_request \<Rightarrow> resolution_window \<Rightarrow> active_data_request call" where
  "open_next_window E dr window =
     (let ws = adr_resolution_windows dr;
          duration = (if vec_len ws = 1 then adr_initial_challenge_period dr
                      else rc_default_challenge_window_duration (adr_request_config dr)) in
      bindM (rw_new E (adr_id dr) (ucast (vec_len ws)) (rw_bond_size window) duration
        (block_timestamp E)) (\<lambda>next_window.
      bindM (windows_push ws next_window) (\<lambda>ws'.
      ret (dr\<lparr>adr_resolution_windows := ws'\<rparr>))))"

definition adr_stake ::
  "oenv \<Rightarrow> active_data_request \<Rightarrow> account \<Rightarrow> outcome \<Rightarrow> u128 \<Rightarrow> (u128 \<times> active_data_request) call" where
  "adr_stake E dr sender outc amount =
     bindM (current_window E dr) (\<lambda>window.
     bindM (rw_stake E window sender outc amount) (\<lambda>r.
     let unspent = fst r; window' = snd r in
     bindM (store_window dr window') (\<lambda>dr'.
     if rw_bonded_outcome window' \<noteq> None then
       let i = invoke_final_arbitrator dr' (rw_bond_size window') in
       if \<not> fst i then
         bindM (open_next_window E (snd i) window') (\<lambda>dr''. ret (unspent, dr''))
       else ret (unspent, snd i)
     else ret (unspent, dr'))))"

definition get_final_outcome :: "active_data_request \<Rightarrow> outcome call" where
  "get_final_outcome dr =
     (let ws = adr_resolution_windows dr in
      bindM (ensure (vec_len ws \<ge> 2) (Request ErrNoBondedOutcomeFound)) (\<lambda>_.
      bindM (lift (checked_sub (vec_len ws) 2)) (\<lambda>last_bonded_window_i.
      bindM (window_at ws last_bonded_window_i) (\<lambda>last_bonded_window.
      expect (rw_bonded_outcome last_bonded_window) (Request ErrNoFinalOutcome)))))"

subsection \<open>Checks\<close>

definition assert_valid_outcome :: "active_data_request \<Rightarrow> outcome \<Rightarrow> unit call" where
  "assert_valid_outcome dr outc =
     (case adr_outcomes dr of
        Some outcomes \<Rightarrow>
          (case outc of
             Answer answer \<Rightarrow>
               (case answer of
                  AString string_answer \<Rightarrow>
                    ensure (string_answer \<in> set outcomes) (Request ErrIncompatibleOutcome)
                | ANumber _ \<Rightarrow> panic (Request ErrOutcomeNotString))
           | Invalid \<Rightarrow> ret ())
      | None \<Rightarrow> ret ())"

definition assert_valid_outcome_type :: "active_data_request \<Rightarrow> outcome \<Rightarrow> unit call" where
  "assert_valid_outcome_type dr outc =
     (case outc of
        Answer answer \<Rightarrow>
          (case answer of
             AString _ \<Rightarrow> ensure (adr_data_type dr = TString) (Request ErrWrongOutcomeType)
           | ANumber ans_num \<Rightarrow>
               (case adr_data_type dr of
                  TNumber dr_multiplier \<Rightarrow>
                    ensure (dr_multiplier = num_multiplier ans_num) (Request ErrWrongMultiplier)
                | TString \<Rightarrow> panic (Request ErrWrongOutcomeType)))
      | Invalid \<Rightarrow> ret ())"

definition assert_can_stake_on_outcome :: "active_data_request \<Rightarrow> outcome \<Rightarrow> unit call" where
  "assert_can_stake_on_outcome dr outc =
     (let ws = adr_resolution_windows dr in
      if vec_len ws > 1 then
        bindM (lift (checked_sub (vec_len ws) 2)) (\<lambda>i.
        bindM (window_at ws i) (\<lambda>last_window.
        bindM (expect (rw_bonded_outcome last_window) (Rust ErrUnwrapNone)) (\<lambda>bonded.
        ensure (bonded \<noteq> outc) (Request ErrIncompatibleRound))))
      else ret ())"

definition assert_can_finalize :: "oenv \<Rightarrow> active_data_request \<Rightarrow> unit call" where
  "assert_can_finalize E dr =
     (let ws = adr_resolution_windows dr in
      bindM (ensure (vec_len ws > 0) (Request ErrStillInProgress)) (\<lambda>_.
      bindM (lift (checked_sub (vec_len ws) 1)) (\<lambda>i.
      bindM (window_at ws i) (\<lambda>window.
      bindM (ensure (\<not> adr_final_arbitrator_triggered dr)
        (Request (ErrOnlyFinalArbitrator (rc_final_arbitrator (adr_request_config dr))))) (\<lambda>_.
      ensure (block_timestamp E \<ge> rw_end_time window) (Request ErrNotTimedOut))))))"

definition assert_final_arbitrator :: "oenv \<Rightarrow> active_data_request \<Rightarrow> unit call" where
  "assert_final_arbitrator E dr =
     ensure (rc_final_arbitrator (adr_request_config dr) = predecessor E)
       (Access (ErrNotFinalArbitrator (rc_final_arbitrator (adr_request_config dr))))"

definition assert_final_arbitrator_invoked :: "active_data_request \<Rightarrow> unit call" where
  "assert_final_arbitrator_invoked dr =
     ensure (adr_final_arbitrator_triggered dr) (Request (ErrArbitratorNotInvoked (adr_id dr)))"

definition assert_final_arbitrator_not_invoked :: "active_data_request \<Rightarrow> unit call" where
  "assert_final_arbitrator_not_invoked dr =
     ensure (\<not> adr_final_arbitrator_triggered dr) (Request (ErrArbitratorInvoked (adr_id dr)))"

subsection \<open>Summaries\<close>

text \<open>\<open>for i in self.resolution_windows.iter()\<close>\<close>

definition windows_iter :: "vector_handle \<Rightarrow> resolution_window list call" where
  "windows_iter ws = collect (\<lambda>i. window_at ws (of_nat i)) [0..<unat (vec_len ws)]"

definition window_summary :: "resolution_window \<Rightarrow> resolution_window_summary" where
  "window_summary i =
     \<lparr>rws_round = rw_round i, rws_start_time = rw_start_time i, rws_end_time = rw_end_time i,
      rws_bond_size = rw_bond_size i, rws_bonded_outcome = rw_bonded_outcome i\<rparr>"

definition adr_summarize :: "active_data_request \<Rightarrow> active_data_request_summary call" where
  "adr_summarize dr =
     bindM (windows_iter (adr_resolution_windows dr)) (\<lambda>ws.
     ret \<lparr>ads_id = adr_id dr, ads_description = adr_description dr, ads_sources = adr_sources dr,
       ads_outcomes = adr_outcomes dr, ads_requester = adr_requester dr,
       ads_resolution_windows = map window_summary ws,
       ads_global_config_id = adr_global_config_id dr,
       ads_initial_challenge_period = adr_initial_challenge_period dr,
       ads_final_arbitrator_triggered = adr_final_arbitrator_triggered dr,
       ads_tags = adr_tags dr, ads_data_type = adr_data_type dr,
       ads_request_config =
         \<lparr>rcs_validity_bond = rc_validity_bond (adr_request_config dr),
          rcs_paid_fee = rc_paid_fee (adr_request_config dr),
          rcs_stake_multiplier = rc_stake_multiplier (adr_request_config dr),
          rcs_min_resolution_bond = rc_min_resolution_bond (adr_request_config dr)\<rparr>\<rparr>)"

section \<open>FinalizedDataRequest\<close>

definition fdr_summarize :: "finalized_data_request \<Rightarrow> finalized_data_request_summary call" where
  "fdr_summarize dr =
     bindM (windows_iter (fdr_resolution_windows dr)) (\<lambda>ws.
     ret \<lparr>fds_id = fdr_id dr, fds_finalized_outcome = fdr_finalized_outcome dr,
       fds_resolution_windows = map window_summary ws,
       fds_global_config_id = fdr_global_config_id dr, fds_paid_fee = fdr_paid_fee dr\<rparr>)"

definition fdr_finalize :: "finalized_data_request \<Rightarrow> outcome \<Rightarrow> finalized_data_request" where
  "fdr_finalize dr final_outcome = dr\<lparr>fdr_finalized_outcome := final_outcome\<rparr>"

definition return_validity_bond ::
  "sdk \<Rightarrow> finalized_data_request \<Rightarrow> account \<Rightarrow> account \<Rightarrow> u128 \<Rightarrow> bool promise_or_value" where
  "return_validity_bond K dr token requester_id validity_bond =
     (case fdr_finalized_outcome dr of
        Answer _ \<Rightarrow> PromiseOf (fungible_token_transfer K token requester_id validity_bond)
      | Invalid \<Rightarrow> ValueOf False)"

subsection \<open>Claims\<close>

text \<open>The three metrics of the loop: correct stake, incorrect stake, the user's correct stake.\<close>

record claim_totals =
  total_correct_staked :: u128
  total_incorrect_staked :: u128
  user_correct_stake :: u128

definition count_stake :: "claim_totals \<Rightarrow> window_stake_result \<Rightarrow> error + claim_totals" where
  "count_stake m stake_state =
     (case stake_state of
        Correct bonded user \<Rightarrow>
          bindR (checked_add (total_correct_staked m) bonded) (\<lambda>c.
          bindR (checked_add (user_correct_stake m) user) (\<lambda>u.
          Inr (m\<lparr>total_correct_staked := c, user_correct_stake := u\<rparr>)))
      | Incorrect incorrectly_staked \<Rightarrow>
          bindR (checked_add (total_incorrect_staked m) incorrectly_staked) (\<lambda>i.
          Inr (m\<lparr>total_incorrect_staked := i\<rparr>))
      | NoResult \<Rightarrow> Inr m)"

definition claim_round ::
  "finalized_data_request \<Rightarrow> account \<Rightarrow> u64 \<Rightarrow> claim_totals \<Rightarrow> claim_totals call" where
  "claim_round dr acc rnd m =
     bindM (window_at (fdr_resolution_windows dr) rnd) (\<lambda>window.
     bindM (rw_claim_for window acc (fdr_finalized_outcome dr)) (\<lambda>stake_state.
     bindM (lift (count_stake m stake_state)) (\<lambda>m'.
     bindM (windows_replace (fdr_resolution_windows dr) rnd window) (\<lambda>_.
     ret m'))))"

primrec claim_rounds ::
  "finalized_data_request \<Rightarrow> account \<Rightarrow> nat list \<Rightarrow> claim_totals \<Rightarrow> claim_totals call" where
  "claim_rounds dr acc [] m = ret m"
| "claim_rounds dr acc (i # is) m = bindM (claim_round dr acc (of_nat i) m) (claim_rounds dr acc is)"

definition fdr_claim :: "oenv \<Rightarrow> finalized_data_request \<Rightarrow> account \<Rightarrow> claim_res call" where
  "fdr_claim E dr acc =
     bindM (claim_rounds dr acc [0..<unat (vec_len (fdr_resolution_windows dr))]
       \<lparr>total_correct_staked = 0, total_incorrect_staked = 0, user_correct_stake = 0\<rparr>) (\<lambda>m.
     bindM (lift (if total_correct_staked m = 0 then Inr 0
         else calc_product (user_correct_stake m) (total_incorrect_staked m)
                (total_correct_staked m))) (\<lambda>stake_profit.
     bindM (lift (if total_correct_staked m = 0 then Inr 0
         else calc_product (user_correct_stake m) (fdr_paid_fee dr) (total_correct_staked m)))
       (\<lambda>fee_profit.
     bindM (emits (log_claim E acc (fdr_id dr) (total_correct_staked m) (total_incorrect_staked m)
       (user_correct_stake m) stake_profit fee_profit)) (\<lambda>_.
     bindM (lift (checked_add (user_correct_stake m) stake_profit)) (\<lambda>payout.
     ret \<lparr>payment_token_payout = fee_profit, stake_token_payout = payout\<rparr>)))))"

section \<open>DataRequest\<close>

definition request_windows :: "data_request \<Rightarrow> vector_handle" where
  "request_windows dr =
     (case dr of Active d \<Rightarrow> adr_resolution_windows d | Finalized d \<Rightarrow> fdr_resolution_windows d)"

definition dr_unstake_window ::
  "oenv \<Rightarrow> data_request \<Rightarrow> account \<Rightarrow> u16 \<Rightarrow> outcome \<Rightarrow> u128 \<Rightarrow> u128 call" where
  "dr_unstake_window E dr sender rnd outc amount =
     bindM (windows_get (request_windows dr) (ucast rnd)) (\<lambda>x.
     bindM (expect x (Request ErrNoResolutionWindow)) (\<lambda>window.
     rw_unstake E window sender outc amount))"

definition get_config_id :: "data_request \<Rightarrow> u64" where
  "get_config_id dr =
     (case dr of Active d \<Rightarrow> adr_global_config_id d | Finalized d \<Rightarrow> fdr_global_config_id d)"

definition log_update :: "data_request \<Rightarrow> json" where
  "log_update dr =
     (case dr of
        Active d \<Rightarrow> log_update_active_data_request d
      | Finalized d \<Rightarrow> log_update_finalized_data_request d)"

definition summarize :: "data_request \<Rightarrow> data_request_summary call" where
  "summarize dr =
     (case dr of
        Active d \<Rightarrow> bindM (adr_summarize d) (\<lambda>s. ret (ActiveSummary s))
      | Finalized d \<Rightarrow> bindM (fdr_summarize d) (\<lambda>s. ret (FinalizedSummary s)))"

definition trim_dr :: "active_data_request \<Rightarrow> outcome \<Rightarrow> finalized_data_request" where
  "trim_dr dr finalized_outcome =
     \<lparr>fdr_id = adr_id dr, fdr_finalized_outcome = finalized_outcome,
      fdr_resolution_windows = adr_resolution_windows dr,
      fdr_global_config_id = adr_global_config_id dr,
      fdr_paid_fee = rc_paid_fee (adr_request_config dr)\<rparr>"

end
