(* ===== verification/Callback_Args.thy ===== *)
theory Callback_Args
  imports Contract_Checks
begin

text \<open>
  \<open>oracle/src/callback_args.rs\<close>: the checks on the arguments of a new request. The lengths are
  cast with \<open>as u8\<close>, which keeps the lowest eight bits.
\<close>

definition dr_validate :: "sdk \<Rightarrow> new_data_request_args \<Rightarrow> unit call" where
  "dr_validate K data_request =
     bindM get_config (\<lambda>config.
     let challenge_period = arg_challenge_period data_request;
         default_challenge_window_duration = cfg_default_challenge_window_duration config;
         min_initial_challenge_window_duration = cfg_min_initial_challenge_window_duration config;
         sources_len = (of_nat (length (unwrap_or (arg_sources data_request) [])) :: u8) in
     bindM (ensure (arg_description data_request = None \<and> sources_len \<noteq> 0 \<or>
         arg_description data_request \<noteq> None)
       (Validation ErrDescriptionMissing)) (\<lambda>_.
     bindM (ensure (sources_len \<le> max_sources K) (Validation (ErrTooManySources (max_sources K)))) (\<lambda>_.
     bindM (ensure (challenge_period \<ge> min_initial_challenge_window_duration)
       (Validation (ErrChallengeTooShort min_initial_challenge_window_duration))) (\<lambda>_.
     bindM (lift (checked_mul default_challenge_window_duration (min_period_multiplier K)))
       (\<lambda>max_challenge_period.
     bindM (ensure (challenge_period \<le> max_challenge_period)
       (Validation (ErrChallengeTooLong max_challenge_period))) (\<lambda>_.
     bindM (ensure (length (arg_tags data_request) = 0 \<or>
         (of_nat (length (arg_tags data_request)) :: u8) \<le> max_tags K)
       (Validation (ErrTooManyTags (max_tags K)))) (\<lambda>_.
     ensure (case arg_outcomes data_request of
         None \<Rightarrow> True
       | Some outcomes \<Rightarrow> (of_nat (length outcomes) :: u8) \<le> cfg_max_outcomes config \<and>
           (of_nat (length outcomes) :: u8) \<ge> min_outcomes K)
       (Validation (ErrOutcomeList (min_outcomes K) (cfg_max_outcomes config))))))))))"

text \<open>
  What the limits promise, with \<open>len\<close> the length as the code sees it: the length itself for
  lists short enough for the cast, the length modulo 256 in general.
\<close>

definition args_within :: "sdk \<Rightarrow> oracle_config \<Rightarrow> (nat \<Rightarrow> nat) \<Rightarrow> new_data_request_args \<Rightarrow> bool" where
  "args_within K c len d \<longleftrightarrow>
     (arg_description d = None \<longrightarrow> len (length (unwrap_or (arg_sources d) [])) \<noteq> 0) \<and>
     len (length (unwrap_or (arg_sources d) [])) \<le> unat (max_sources K) \<and>
     len (length (arg_tags d)) \<le> unat (max_tags K) \<and>
     (\<forall>os. arg_outcomes d = Some os \<longrightarrow>
        unat (min_outcomes K) \<le> len (length os) \<and> len (length os) \<le> unat (cfg_max_outcomes c)) \<and>
     cfg_min_initial_challenge_window_duration c \<le> arg_challenge_period d \<and>
     unat (arg_challenge_period d) \<le>
       unat (cfg_default_challenge_window_duration c) * unat (min_period_multiplier K)"

definition short_lists :: "new_data_request_args \<Rightarrow> bool" where
  "short_lists d \<longleftrightarrow> length (unwrap_or (arg_sources d) []) < 256 \<and> length (arg_tags d) < 256 \<and>
     (\<forall>os. arg_outcomes d = Some os \<longrightarrow> length os < 256)"

lemma unat_u8_length [simp]: "unat (of_nat n :: u8) = n mod 256"
  by (simp add: unat_of_nat)

lemma u8_length_zero [simp]: "(of_nat n :: u8) = 0 \<longleftrightarrow> n mod 256 = 0"
  by (metis unat_eq_0 unat_u8_length)

text \<open>The only other way to fail is the overflow of the longest challenge period.\<close>

lemma dr_validate_exact:
  assumes "configs_ok w"
  defines "c \<equiv> last (config_list w)"
  shows "dr_validate K d w = Inr ((), w) \<longleftrightarrow>
    args_within K c (\<lambda>n. n mod 256) d \<and>
    unat (cfg_default_challenge_window_duration c) * unat (min_period_multiplier K) < 2 ^ 64"
  using assms(1) unfolding c_def
  by (cases "arg_outcomes d")
    (auto simp: dr_validate_def run Let_def current_config_ok args_within_def unats exact)

lemma args_within_short: "short_lists d \<Longrightarrow> args_within K c (\<lambda>n. n mod 256) d = args_within K c (\<lambda>n. n) d"
  by (auto simp: args_within_def short_lists_def)

lemma dr_validate_state: "dr_validate K d w = Inr (u, t) \<Longrightarrow> t = w"
  by (cases "arg_outcomes d") (auto simp: dr_validate_def run Let_def)

section \<open>Properties\<close>

text \<open>C29: for argument lists of fewer than 256 elements, validation accepts exactly the requests
  within the limits of the current configuration: a description or a source, at most
  \<open>max_sources\<close> sources and \<open>max_tags\<close> tags, an outcome list of \<open>min_outcomes\<close> to
  \<open>max_outcomes\<close> elements if there is one, and a challenge period between the minimum and a
  multiple of the default window, whose product must not overflow.\<close>

theorem dr_validate_accepts:
  assumes "configs_ok w" and "short_lists d"
  defines "c \<equiv> last (config_list w)"
  shows "dr_validate K d w = Inr ((), w) \<longleftrightarrow>
    args_within K c (\<lambda>n. n) d \<and>
    unat (cfg_default_challenge_window_duration c) * unat (min_period_multiplier K) < 2 ^ 64"
  using dr_validate_exact [OF assms(1)] args_within_short [OF assms(2)] by (simp add: c_def)

lemma dr_validate_accepts_witness:
  "dr_validate sample_sdk sample_args (sample_world (sample_config 1000)) = Inr ((), sample_world (sample_config 1000))"
proof -
  have "short_lists sample_args" by (simp add: short_lists_def sample_args_def)
  from dr_validate_accepts [OF sample_configs(1) this, of sample_sdk "sample_config 1000"] show ?thesis
    by (simp add: sample_configs args_within_def sample_inputs word_le_nat_alt)
qed

text \<open>Arguments that differ only in what the casts of lengths to 8 bits lose, or in what is not checked.\<close>

definition wrapped_alike :: "new_data_request_args \<Rightarrow> new_data_request_args \<Rightarrow> bool" where
  "wrapped_alike d d' \<longleftrightarrow> arg_challenge_period d' = arg_challenge_period d \<and>
     (arg_description d' = None \<longleftrightarrow> arg_description d = None) \<and>
     length (unwrap_or (arg_sources d') []) mod 256 = length (unwrap_or (arg_sources d) []) mod 256 \<and>
     length (arg_tags d') mod 256 = length (arg_tags d) mod 256 \<and>
     map_option (\<lambda>os. length os mod 256) (arg_outcomes d') = map_option (\<lambda>os. length os mod 256) (arg_outcomes d)"

lemma u8_length_cong: "m mod 256 = n mod 256 \<Longrightarrow> (of_nat m :: u8) = of_nat n"
  by (simp only: word_unat_eq_iff unat_u8_length)

lemma outcomes_length_cong:
  assumes "map_option (\<lambda>os. length os mod 256) x = map_option (\<lambda>os. length os mod 256) y"
  shows "map_option (\<lambda>os. of_nat (length os) :: u8) x = map_option (\<lambda>os. of_nat (length os)) y"
proof (cases x)
  case None
  then show ?thesis using assms by (cases y) simp_all
next
  case (Some os)
  with assms obtain os' where y: "y = Some os'" and len: "length os mod 256 = length os' mod 256" by (cases y) simp_all
  have "(of_nat (length os) :: u8) = of_nat (length os')" by (rule u8_length_cong [OF len])
  with Some y show ?thesis by (simp only: option.map)
qed

lemma outcomes_check:
  "(case x of None \<Rightarrow> True | Some os \<Rightarrow> (of_nat (length os) :: u8) \<le> m \<and> (of_nat (length os) :: u8) \<ge> n) =
    pred_option (\<lambda>k. k \<le> m \<and> k \<ge> n) (map_option (\<lambda>os. of_nat (length os) :: u8) x)"
  by (cases x) simp_all

lemma tags_length_check: "length ts = 0 \<or> (of_nat (length ts) :: u8) \<le> m \<longleftrightarrow> (of_nat (length ts) :: u8) \<le> m"
  by auto

text \<open>C30: the casts of list lengths to 8 bits make validation blind to multiples of 256: in every
  state and under every limit, two argument records whose numbers of sources, tags and outcomes
  agree modulo 256 are accepted or refused alike, with the same error, so no limit bounds the
  lists that the contract stores (258 outcomes pass a limit of 8, as 2 do).\<close>

theorem dr_validate_wraps:
  assumes "wrapped_alike d d'"
  shows "dr_validate K d' w = dr_validate K d w"
proof -
  note alike = assms [unfolded wrapped_alike_def]
  have s: "(of_nat (length (unwrap_or (arg_sources d') [])) :: u8) = of_nat (length (unwrap_or (arg_sources d) []))"
    by (rule u8_length_cong) (use alike in blast)
  have t: "(of_nat (length (arg_tags d')) :: u8) = of_nat (length (arg_tags d))"
    by (rule u8_length_cong) (use alike in blast)
  have p: "arg_challenge_period d' = arg_challenge_period d"
    and e: "(arg_description d' = None) = (arg_description d = None)"
    using alike by blast+
  have u: "map_option (\<lambda>os. of_nat (length os) :: u8) (arg_outcomes d') = map_option (\<lambda>os. of_nat (length os)) (arg_outcomes d)"
    using alike by (intro outcomes_length_cong) blast
  show ?thesis
    unfolding dr_validate_def tags_length_check outcomes_check unfolding s t p e u by (rule refl)
qed

lemma dr_validate_wraps_witness:
  "dr_validate sample_sdk (sample_args\<lparr>arg_outcomes := Some (replicate 258 ''x'')\<rparr>) (sample_world (sample_config 1000)) =
    Inr ((), sample_world (sample_config 1000))"
proof -
  have "dr_validate sample_sdk sample_args (sample_world (sample_config 1000)) = Inr ((), sample_world (sample_config 1000))"
    using dr_validate_exact [OF sample_configs(1), of sample_sdk sample_args]
    by (simp add: sample_configs args_within_def sample_inputs word_le_nat_alt)
  moreover have "wrapped_alike sample_args (sample_args\<lparr>arg_outcomes := Some (replicate 258 ''x'')\<rparr>)"
    by (simp add: wrapped_alike_def sample_args_def)
  ultimately show ?thesis by (simp only: dr_validate_wraps)
qed

end
