(* ===== verification/Oracle_Config.thy ===== *)
theory Oracle_Config
  imports Whitelist
begin

text \<open>
  \<open>oracle/src/oracle_config.rs\<close>, \<open>oracle/src/fee_config.rs\<close> and the constructor of
  \<open>oracle/src/lib.rs\<close>: governance appends configurations, replaces the fee settings of the
  last one, and pauses the contract. Requests keep the index of the configuration they were
  filed under, so the list only grows and an index stays valid.
\<close>

section \<open>Operations\<close>

text \<open>
  The constructor. While it runs, \<open>configs\<close> of the state is the local variable of that name;
  the last step is the struct literal.
\<close>

definition contract_new :: "sdk \<Rightarrow> oenv \<Rightarrow> requester list option \<Rightarrow> oracle_config \<Rightarrow> unit call" where
  "contract_new K E initial_whitelist config =
     bindM (modifies (\<lambda>w. w\<lparr>self := (self w)\<lparr>configs := vec_new (key_configs K)\<rparr>\<rparr>)) (\<lambda>_.
     bindM (configs_push config) (\<lambda>_.
     bindM (emit (log_oracle_config E config 0)) (\<lambda>_.
     bindM (whitelist_new K E initial_whitelist) (\<lambda>wl.
     modifies (\<lambda>w. w\<lparr>self :=
       \<lparr>whitelist = wl, configs = configs (self w),
        data_requests = vec_new (key_data_requests K), accounts = key_accounts K,
        paused = False\<rparr>\<rparr>)))))"

definition set_config :: "sdk \<Rightarrow> oenv \<Rightarrow> oracle_config \<Rightarrow> unit call" where
  "set_config K E new_config =
     bindM (assert_gov E) (\<lambda>_.
     bindM (ensure (cfg_validity_bond new_config > 0) (Validation ErrZeroValidityBond)) (\<lambda>_.
     bindM (ensure (cfg_min_resolution_bond new_config > 0) (Validation ErrZeroResolutionBond)) (\<lambda>_.
     bindM (usage E) (\<lambda>initial_storage.
     bindM (configs_push new_config) (\<lambda>_.
     bindM configs_len (\<lambda>n.
     bindM (lift (checked_sub n 1)) (\<lambda>i.
     bindM (emit (log_oracle_config E new_config i)) (\<lambda>_.
     refund_storage K E initial_storage (predecessor E)))))))))"

definition toggle_pause :: "oenv \<Rightarrow> unit call" where
  "toggle_pause E =
     bindM (assert_gov E) (\<lambda>_.
     modifies (\<lambda>w. w\<lparr>self := (self w)\<lparr>paused := \<not> paused (self w)\<rparr>\<rparr>))"

definition update_fee_config :: "sdk \<Rightarrow> oenv \<Rightarrow> fee_config \<Rightarrow> unit call" where
  "update_fee_config K E new_fee_config =
     bindM (assert_gov E) (\<lambda>_.
     bindM (usage E) (\<lambda>initial_storage.
     bindM (ensure (total_value_staked new_fee_config < flux_market_cap new_fee_config)
       (Validation ErrTvsAboveMarketCap)) (\<lambda>_.
     bindM (ensure (resolution_fee_percentage new_fee_config \<le> max_resolution_fee_percentage K)
       (Validation ErrFeePercentage)) (\<lambda>_.
     bindM get_config (\<lambda>config.
     let updated_config = config\<lparr>cfg_fee := new_fee_config\<rparr> in
     bindM configs_len (\<lambda>n.
     bindM (lift (checked_sub n 1)) (\<lambda>i.
     bindM (configs_replace i updated_config) (\<lambda>_.
     bindM configs_len (\<lambda>n'.
     bindM (lift (checked_sub n' 1)) (\<lambda>i'.
     bindM (emit (log_oracle_config E updated_config i')) (\<lambda>_.
     refund_storage K E initial_storage (predecessor E))))))))))))"

section \<open>Effects\<close>

text \<open>The parts of the state that an operation on configurations leaves alone.\<close>

definition same_but_configs :: "world \<Rightarrow> world \<Rightarrow> bool" where
  "same_but_configs w t \<longleftrightarrow>
     (\<exists>cs h. store t = (store w)\<lparr>st_configs := cs\<rparr> \<and> self t = (self w)\<lparr>configs := h\<rparr>)"

lemma set_config_Inr:
  assumes "set_config K E c w = Inr (u, t)" and ok: "configs_ok w"
  shows "predecessor E = cfg_gov (last (config_list w)) \<and> 0 < cfg_validity_bond c \<and>
    0 < cfg_min_resolution_bond c \<and> config_list t = config_list w @ [c] \<and> configs_ok t \<and>
    same_but_configs w t"
proof -
  from assms(1) obtain r h where gov: "governed E w"
    and pos: "0 < cfg_validity_bond c" "0 < cfg_min_resolution_bond c"
    and push: "vec_push (st_configs (store w)) (configs (self w)) c = Inr (r, h)"
    and t: "store t = (store w)\<lparr>st_configs := r\<rparr>" "self t = (self w)\<lparr>configs := h\<rparr>"
    by (auto simp: set_config_def run)
  from vec.push_items [OF push] ok have "config_list t = config_list w @ [c]" "configs_ok t"
    by (auto simp: configs_ok_def config_list_def t)
  with pos gov ok show ?thesis
    by (auto simp: governed_ok same_but_configs_def t)
qed

lemma toggle_pause_Inr:
  assumes "toggle_pause E w = Inr (u, t)" and "configs_ok w"
  shows "predecessor E = cfg_gov (last (config_list w)) \<and>
    t = w\<lparr>self := (self w)\<lparr>paused := \<not> paused (self w)\<rparr>\<rparr>"
  using assms by (auto simp: toggle_pause_def run governed_ok)

lemma update_fee_config_Inr:
  assumes "update_fee_config K E f w = Inr (u, t)" and ok: "configs_ok w"
  shows "predecessor E = cfg_gov (last (config_list w)) \<and>
    total_value_staked f < flux_market_cap f \<and>
    resolution_fee_percentage f \<le> max_resolution_fee_percentage K \<and>
    config_list t = butlast (config_list w) @ [(last (config_list w))\<lparr>cfg_fee := f\<rparr>] \<and>
    configs_ok t \<and> same_but_configs w t"
proof -
  let ?c = "(last (config_list w))\<lparr>cfg_fee := f\<rparr>"
  from assms(1) ok obtain r where gov: "governed E w"
    and checks: "total_value_staked f < flux_market_cap f"
      "resolution_fee_percentage f \<le> max_resolution_fee_percentage K"
    and replace: "vec_replace (st_configs (store w)) (configs (self w))
      (vec_len (configs (self w)) - 1) ?c = Inr r"
    and t: "store t = (store w)\<lparr>st_configs := r\<rparr>" "self t = self w"
    by (auto simp: update_fee_config_def run Let_def current_config_ok)
  from vec.replace_last [of "st_configs (store w)" "configs (self w)" ?c] ok replace
  have "config_list t = butlast (config_list w) @ [?c]" "configs_ok t"
    by (auto simp: configs_ok_def config_list_def t)
  moreover have "same_but_configs w t"
    unfolding same_but_configs_def by (rule exI [of _ r], rule exI [of _ "configs (self w)"]) (simp add: t)
  ultimately show ?thesis
    using checks gov ok by (auto simp: governed_ok)
qed

text \<open>A configuration that a request refers to by index stays where it is.\<close>

lemma config_index_kept:
  assumes "set_config K E c w = Inr (u, t)" and "configs_ok w" and "i < length (config_list w)"
  shows "i < length (config_list t) \<and> config_list t ! i = config_list w ! i"
  using set_config_Inr [OF assms(1,2)] assms(3) by (simp add: nth_append)

lemma contract_new_Inr:
  assumes "contract_new K E wl c w = Inr (u, t)"
  shows "configs_ok t \<and> config_list t = [c] \<and> \<not> paused (self t) \<and>
    vec_len (data_requests (self t)) = 0 \<and>
    (\<forall>acc. wl = None \<longrightarrow> admitted t acc = Some (new_no_whitelist acc))"
proof -
  let ?w = "w\<lparr>self := (self w)\<lparr>configs := vec_new (key_configs K)\<rparr>\<rparr>"
  from assms obtain r h s h' where
    push: "vec_push (st_configs (store w)) (vec_new (key_configs K)) c = Inr (r, h)"
    and wl: "whitelist_new K E wl (w\<lparr>self := (self w)\<lparr>configs := h\<rparr>,
      store := (store w)\<lparr>st_configs := r\<rparr>, logs := logs w @ [log_oracle_config E c 0]\<rparr>) = Inr (h', s)"
    and t: "t = s\<lparr>self := \<lparr>whitelist = h', configs = configs (self s),
       data_requests = vec_new (key_data_requests K), accounts = key_accounts K, paused = False\<rparr>\<rparr>"
    by (auto simp: contract_new_def run)
  have keep: "keeps (\<lambda>v. configs (self v) = h \<and> st_configs (store v) = r) (whitelist_new K E wl)"
    by (auto simp: whitelist_new_def Let_def whitelist_insert_def emit_def intro!: keep split: option.splits)
  from keepsD [OF keep wl] have "configs (self s) = h \<and> st_configs (store s) = r" by simp
  moreover from vec.push_items [OF push] have "vec_ok r h \<and> vec_elems r h = [c]" by simp
  moreover have "wl = None \<Longrightarrow> h' = None" using wl by (simp add: whitelist_new_def run)
  ultimately show ?thesis
    by (auto simp: t configs_ok_def config_list_def vec_new_def admitted_def)
qed

section \<open>Properties\<close>

text \<open>C31: whoever is not the governance account of the current configuration cannot change the
  configuration, the fees, the pause flag or the whitelist: every such call panics.\<close>

theorem governance_only:
  assumes "configs_ok w" and "predecessor E \<noteq> cfg_gov (last (config_list w))"
  defines "no \<equiv> Inl (Access (ErrNotGov (cfg_gov (last (config_list w)))))"
  shows "set_config K E c w = no \<and> update_fee_config K E fc w = no \<and> toggle_pause E w = no \<and>
    add_to_whitelist K E r w = no \<and> remove_from_whitelist K E r w = no"
proof -
  have "assert_gov E w = Inl (Access (ErrNotGov (cfg_gov (last (config_list w)))))"
    using assms(1,2) by (simp add: assert_gov_ok)
  then show ?thesis
    by (simp add: no_def set_config_def update_fee_config_def toggle_pause_def add_to_whitelist_def
        remove_from_whitelist_def bindM_def)
qed

lemma governance_only_witness:
  "toggle_pause (sample_env ''eve'' 0) (sample_world (sample_config 1000)) = Inl (Access (ErrNotGov ''gov''))"
  using governance_only [OF sample_configs(1), of "sample_env ''eve'' 0" "sample_config 1000"]
  by (simp add: sample_configs(2) sample_env_def) (simp add: sample_config_def)

text \<open>C32: a new configuration becomes the last one; the earlier ones, which requests refer to by
  index, stay where they are, and its validity and resolution bonds are positive.\<close>

theorem set_config_appends:
  assumes "set_config K E c w = Inr (u, t)" and "configs_ok w"
  shows "predecessor E = cfg_gov (last (config_list w)) \<and> config_list t = config_list w @ [c] \<and>
    (\<forall>i < length (config_list w). config_list t ! i = config_list w ! i) \<and>
    0 < cfg_validity_bond c \<and> 0 < cfg_min_resolution_bond c \<and> same_but_configs w t"
  using set_config_Inr [OF assms] by (auto simp: nth_append)

lemma set_config_appends_witness:
  "\<exists>t. set_config sample_sdk (sample_env ''gov'' 0) (sample_config 5) (sample_world (sample_config 1000)) = Inr ((), t) \<and>
    config_list t = [sample_config 1000, sample_config 5]"
proof -
  have g: "governed (sample_env ''gov'' 0) (sample_world (sample_config 1000))"
    by (simp add: sample_governed) (simp add: sample_config_def)
  have "\<exists>t. set_config sample_sdk (sample_env ''gov'' 0) (sample_config 5) (sample_world (sample_config 1000)) = Inr ((), t)"
    by (simp add: set_config_def run g sample_refund) (simp add: sample_config_def sample_worlds evaluate)
  then obtain t where
    call: "set_config sample_sdk (sample_env ''gov'' 0) (sample_config 5) (sample_world (sample_config 1000)) = Inr ((), t)" ..
  from set_config_appends [OF call sample_configs(1)] call show ?thesis by (simp add: sample_configs(2))
qed

text \<open>C33: a change of the fee settings replaces those of the last configuration in place, within
  the limits, and nothing else.\<close>

theorem update_fee_config_replaces:
  assumes "update_fee_config K E f w = Inr (u, t)" and "configs_ok w"
  shows "predecessor E = cfg_gov (last (config_list w)) \<and> total_value_staked f < flux_market_cap f \<and>
    resolution_fee_percentage f \<le> max_resolution_fee_percentage K \<and>
    config_list t = butlast (config_list w) @ [(last (config_list w))\<lparr>cfg_fee := f\<rparr>] \<and> same_but_configs w t"
  using update_fee_config_Inr [OF assms] by simp

lemma update_fee_config_replaces_witness:
  defines "f \<equiv> \<lparr>flux_market_cap = 9, total_value_staked = 8, resolution_fee_percentage = 7\<rparr>"
  shows "\<exists>t. update_fee_config sample_sdk (sample_env ''gov'' 0) f (sample_world (sample_config 1000)) = Inr ((), t) \<and>
    config_list t = [(sample_config 1000)\<lparr>cfg_fee := f\<rparr>]"
proof -
  have g: "governed (sample_env ''gov'' 0) (sample_world (sample_config 1000))"
    by (simp add: sample_governed) (simp add: sample_config_def)
  have "\<exists>t. update_fee_config sample_sdk (sample_env ''gov'' 0) f (sample_world (sample_config 1000)) = Inr ((), t)"
    by (simp add: update_fee_config_def run Let_def g sample_refund current_config_ok [OF sample_configs(1)] sample_configs(2))
      (simp add: f_def sample_sdk_def sample_worlds evaluate)
  then obtain t where
    call: "update_fee_config sample_sdk (sample_env ''gov'' 0) f (sample_world (sample_config 1000)) = Inr ((), t)" ..
  from update_fee_config_replaces [OF call sample_configs(1)] call show ?thesis by (simp add: sample_configs(2))
qed

end
