(* ===== verification/Storage_Manager.thy ===== *)
theory Storage_Manager
  imports Contract_Checks
begin

text \<open>
  \<open>oracle/src/storage_manager.rs\<close>: deposits that pay for the storage of token receivers, the
  deduction (or credit) of \<open>use_storage\<close> after a call, and the view methods.
\<close>

section \<open>Operations\<close>

definition STORAGE_MINIMUM_BALANCE :: u128 where
  "STORAGE_MINIMUM_BALANCE = 10000000000000000000000"

definition assert_one_yocto :: "oenv \<Rightarrow> unit call" where
  "assert_one_yocto E = ensure (attached_deposit E = 1) (Access ErrOneYocto)"

definition get_storage_account :: "account \<Rightarrow> account_storage_balance call" where
  "get_storage_account acc =
     bindM (accounts_get acc) (\<lambda>b. ret (unwrap_or b \<lparr>asb_total = 0, asb_available = 0\<rparr>))"

definition storage_deposit :: "oenv \<Rightarrow> account option \<Rightarrow> storage_balance call" where
  "storage_deposit E account_arg =
     (let amount = attached_deposit E; acc = unwrap_or account_arg (predecessor E) in
      bindM (get_storage_account acc) (\<lambda>b.
      bindM (ensure (amount \<ge> STORAGE_MINIMUM_BALANCE) (Balance ErrDepositBelowMinimum)) (\<lambda>_.
      bindM (lift (checked_add (asb_available b) amount)) (\<lambda>available.
      bindM (lift (checked_add (asb_total b) amount)) (\<lambda>total.
      bindM (accounts_insert acc \<lparr>asb_total = total, asb_available = available\<rparr>) (\<lambda>_.
      ret \<lparr>sb_total = total, sb_available = available\<rparr>))))))"

definition storage_withdraw :: "oenv \<Rightarrow> u128 \<Rightarrow> storage_balance call" where
  "storage_withdraw E amount =
     bindM (assert_one_yocto E) (\<lambda>_.
     let acc = predecessor E in
     bindM (get_storage_account acc) (\<lambda>b.
     bindM (ensure (amount \<le> asb_available b) (Balance ErrNotEnoughStorage)) (\<lambda>_.
     bindM (lift (checked_sub (asb_available b) amount)) (\<lambda>available.
     bindM (lift (checked_sub (asb_total b) amount)) (\<lambda>total.
     bindM (accounts_insert acc \<lparr>asb_total = total, asb_available = available\<rparr>) (\<lambda>_.
     bindM (schedule (Transfer acc amount)) (\<lambda>_.
     ret \<lparr>sb_total = total, sb_available = available\<rparr>)))))))"

definition storage_balance_bounds :: storage_bounds where
  "storage_balance_bounds = \<lparr>sbb_min = STORAGE_MINIMUM_BALANCE, sbb_max = None\<rparr>"

definition storage_balance_of :: "account \<Rightarrow> storage_balance option call" where
  "storage_balance_of acc =
     bindM (accounts_get acc) (\<lambda>b.
     ret (map_option (\<lambda>a. \<lparr>sb_total = asb_total a, sb_available = asb_available a\<rparr>) b))"

definition use_storage :: "sdk \<Rightarrow> oenv \<Rightarrow> account \<Rightarrow> u64 \<Rightarrow> u128 \<Rightarrow> unit call" where
  "use_storage K E sender_id initial_storage_usage initial_available_balance =
     bindM (usage E) (\<lambda>now.
     if now \<ge> initial_storage_usage then
       bindM (lift (checked_sub now initial_storage_usage)) (\<lambda>d.
       let difference = (ucast d :: u128) in
       bindM (get_storage_account sender_id) (\<lambda>b.
       bindM (lift (checked_mul difference (storage_price_per_byte K))) (\<lambda>cost.
       bindM (ensure (cost \<le> initial_available_balance)
         (Balance (ErrStorageCost sender_id initial_available_balance cost))) (\<lambda>_.
       bindM (lift (checked_mul difference (storage_price_per_byte K))) (\<lambda>cost'.
       bindM (lift (checked_sub initial_available_balance cost')) (\<lambda>available.
       accounts_insert sender_id (b\<lparr>asb_available := available\<rparr>)))))))
     else
       bindM (lift (checked_sub initial_storage_usage now)) (\<lambda>d.
       let difference = (ucast d :: u128) in
       bindM (get_storage_account sender_id) (\<lambda>b.
       bindM (lift (checked_mul difference (storage_price_per_byte K))) (\<lambda>released.
       bindM (lift (checked_add initial_available_balance released)) (\<lambda>available.
       accounts_insert sender_id (b\<lparr>asb_available := available\<rparr>))))))"

section \<open>The deposits of an account\<close>

definition deposit_of :: "world \<Rightarrow> account \<Rightarrow> account_storage_balance" where
  "deposit_of w acc = unwrap_or (lm_get (st_accounts (store w)) (accounts (self w)) acc)
     \<lparr>asb_total = 0, asb_available = 0\<rparr>"

definition total_deposit :: "world \<Rightarrow> account \<Rightarrow> nat" where
  "total_deposit w acc = unat (asb_total (deposit_of w acc))"

definition available_deposit :: "world \<Rightarrow> account \<Rightarrow> nat" where
  "available_deposit w acc = unat (asb_available (deposit_of w acc))"

lemma get_storage_account_Inr [run]:
  "get_storage_account acc w = Inr (b, t) \<longleftrightarrow> b = deposit_of w acc \<and> t = w"
  by (auto simp: get_storage_account_def deposit_of_def run)

lemma assert_one_yocto_Inr [run]: "assert_one_yocto E w = Inr (u, t) \<longleftrightarrow> attached_deposit E = 1 \<and> t = w"
  by (auto simp: assert_one_yocto_def run)

lemma deposit_of_insert:
  "deposit_of (w\<lparr>store := (store w)\<lparr>st_accounts :=
      lm_insert (st_accounts (store w)) (accounts (self w)) a b\<rparr>\<rparr>) acc =
    (if acc = a then b else deposit_of w acc)"
  by (simp add: deposit_of_def)

lemma storage_deposit_Inr:
  assumes "storage_deposit E who w = Inr (b, t)"
  defines "acc \<equiv> unwrap_or who (predecessor E)"
  shows "unat STORAGE_MINIMUM_BALANCE \<le> unat (attached_deposit E) \<and>
    total_deposit t = (total_deposit w)(acc := total_deposit w acc + unat (attached_deposit E)) \<and>
    available_deposit t = (available_deposit w)(acc := available_deposit w acc + unat (attached_deposit E)) \<and>
    self t = self w \<and> outbox t = outbox w"
  using assms(1) unfolding acc_def
  by (auto simp: storage_deposit_def run Let_def total_deposit_def available_deposit_def fun_eq_iff
      deposit_of_insert exact unats)

lemma storage_withdraw_Inr:
  assumes "storage_withdraw E amount w = Inr (b, t)"
  defines "acc \<equiv> predecessor E"
  shows "attached_deposit E = 1 \<and> unat amount \<le> available_deposit w acc \<and>
    unat amount \<le> total_deposit w acc \<and>
    total_deposit t = (total_deposit w)(acc := total_deposit w acc - unat amount) \<and>
    available_deposit t = (available_deposit w)(acc := available_deposit w acc - unat amount) \<and>
    self t = self w \<and> outbox t = outbox w @ [Transfer acc amount]"
  using assms(1) unfolding acc_def
  by (auto simp: storage_withdraw_def run Let_def total_deposit_def available_deposit_def fun_eq_iff
      deposit_of_def exact unats)

text \<open>
  \<open>use_storage\<close> sets the available balance to the one before the call, less the price of the
  bytes used since (or plus that of the bytes released), and touches no other account.
\<close>

lemma use_storage_Inr:
  assumes "use_storage K E acc initial available w = Inr (u, t)"
  shows "int (available_deposit t acc) = int (unat available) -
      (int (unat (storage_usage E (store w))) - int (unat initial)) * int (unat (storage_price_per_byte K)) \<and>
    total_deposit t = total_deposit w \<and> (\<forall>b. b \<noteq> acc \<longrightarrow> available_deposit t b = available_deposit w b) \<and>
    self t = self w \<and> outbox t = outbox w"
proof (cases "storage_usage E (store w) \<ge> initial")
  case True
  let ?d = "unat (storage_usage E (store w)) - unat initial" and ?p = "unat (storage_price_per_byte K)"
  from True have d: "unat (storage_usage E (store w) - initial) = ?d" by (simp add: exact)
  from assms True have cost: "?d * ?p \<le> unat available"
    and t: "t = w\<lparr>store := (store w)\<lparr>st_accounts := lm_insert (st_accounts (store w)) (accounts (self w)) acc
      ((deposit_of w acc)\<lparr>asb_available :=
         available - ucast (storage_usage E (store w) - initial) * storage_price_per_byte K\<rparr>)\<rparr>\<rparr>"
    by (auto simp: use_storage_def run Let_def unat_le_iff [where 'a = 128] exact d)
  from assms True have "unat (ucast (storage_usage E (store w) - initial) * storage_price_per_byte K) = ?d * ?p"
    and "ucast (storage_usage E (store w) - initial) * storage_price_per_byte K \<le> available"
    by (auto simp: use_storage_def run Let_def exact d)
  then have "available_deposit t acc = unat available - ?d * ?p"
    by (simp add: available_deposit_def t deposit_of_insert exact)
  with cost True show ?thesis
    by (auto simp: t total_deposit_def available_deposit_def deposit_of_insert fun_eq_iff unats of_nat_diff
        algebra_simps)
next
  case False
  let ?d = "unat initial - unat (storage_usage E (store w))" and ?p = "unat (storage_price_per_byte K)"
  let ?r = "ucast (initial - storage_usage E (store w)) * storage_price_per_byte K"
  from False have d: "unat (initial - storage_usage E (store w)) = ?d" by (simp add: exact)
  from assms False have r: "unat ?r = ?d * ?p" and fits: "unat available + ?d * ?p < 2 ^ 128"
    and t: "t = w\<lparr>store := (store w)\<lparr>st_accounts := lm_insert (st_accounts (store w)) (accounts (self w)) acc
      ((deposit_of w acc)\<lparr>asb_available := available + ?r\<rparr>)\<rparr>\<rparr>"
    by (auto simp: use_storage_def run Let_def exact d)
  then have "available_deposit t acc = unat available + ?d * ?p"
    by (simp add: available_deposit_def deposit_of_insert exact)
  then have "int (available_deposit t acc) = int (unat available) + int ?d * int ?p"
    by (simp only: of_nat_add of_nat_mult)
  moreover from False have "int ?d = int (unat initial) - int (unat (storage_usage E (store w)))"
    by (simp only: unats of_nat_diff not_le less_imp_le)
  ultimately have "int (available_deposit t acc) = int (unat available) -
      (int (unat (storage_usage E (store w))) - int (unat initial)) * int ?p"
    by (simp only: algebra_simps)
  then show ?thesis
    by (auto simp: t total_deposit_def available_deposit_def deposit_of_insert fun_eq_iff)
qed

section \<open>Properties\<close>

text \<open>C36: a storage deposit of at least the minimum adds the attached amount to the total and to
  the available balance of the account named, or of the caller, and to nobody else's.\<close>

theorem storage_deposit_credits:
  assumes "storage_deposit E who w = Inr (b, t)"
  defines "acc \<equiv> unwrap_or who (predecessor E)" and "n \<equiv> unat (attached_deposit E)"
  shows "unat STORAGE_MINIMUM_BALANCE \<le> n \<and> self t = self w \<and> outbox t = outbox w \<and>
    total_deposit t = (total_deposit w)(acc := total_deposit w acc + n) \<and>
    available_deposit t = (available_deposit w)(acc := available_deposit w acc + n)"
  using storage_deposit_Inr [OF assms(1)] by (simp add: acc_def n_def)

lemma storage_deposit_credits_witness:
  defines "E \<equiv> (sample_env ''bob'' 0)\<lparr>attached_deposit := 10000000000000000000000\<rparr>"
  shows "\<exists>b t. storage_deposit E None blank_world = Inr (b, t) \<and> total_deposit t ''bob'' = 10000000000000000000000"
proof -
  have "\<exists>b t. storage_deposit E None blank_world = Inr (b, t)"
    by (simp add: storage_deposit_def run Let_def E_def STORAGE_MINIMUM_BALANCE_def deposit_of_def sample_worlds
        sample_env_def lm_get_def)
  then obtain b t where call: "storage_deposit E None blank_world = Inr (b, t)" by blast
  have "total_deposit blank_world ''bob'' = 0"
    by (simp add: total_deposit_def deposit_of_def sample_worlds lm_get_def)
  with storage_deposit_credits [OF call] call show ?thesis by (simp add: E_def sample_env_def)
qed

text \<open>C37: a withdrawal takes exactly its amount, never more than is available, from the caller's
  total and available balance, and promises the caller that amount.\<close>

theorem storage_withdraw_debits:
  assumes "storage_withdraw E n w = Inr (b, t)"
  defines "acc \<equiv> predecessor E"
  shows "attached_deposit E = 1 \<and> unat n \<le> available_deposit w acc \<and> unat n \<le> total_deposit w acc \<and>
    total_deposit t = (total_deposit w)(acc := total_deposit w acc - unat n) \<and>
    available_deposit t = (available_deposit w)(acc := available_deposit w acc - unat n) \<and>
    self t = self w \<and> outbox t = outbox w @ [Transfer acc n]"
  using storage_withdraw_Inr [OF assms(1)] by (simp add: acc_def)

definition deposited_world :: world where
  "deposited_world = blank_world\<lparr>store := empty_storage
     \<lparr>st_accounts := [([], ''bob'') \<mapsto> \<lparr>asb_total = 700, asb_available = 600\<rparr>]\<rparr>\<rparr>"

lemma bob_deposit: "deposit_of deposited_world ''bob'' = \<lparr>asb_total = 700, asb_available = 600\<rparr>"
  by (simp add: deposit_of_def deposited_world_def sample_worlds lm_get_def)

lemma storage_withdraw_debits_witness:
  "\<exists>b t. storage_withdraw (sample_env ''bob'' 0) 250 deposited_world = Inr (b, t) \<and> available_deposit t ''bob'' = 350"
proof -
  have "\<exists>b t. storage_withdraw (sample_env ''bob'' 0) 250 deposited_world = Inr (b, t)"
    by (simp add: storage_withdraw_def run Let_def sample_env_def bob_deposit)
  then obtain b t where call: "storage_withdraw (sample_env ''bob'' 0) 250 deposited_world = Inr (b, t)" by blast
  have "available_deposit deposited_world ''bob'' = 600" by (simp add: available_deposit_def bob_deposit)
  with storage_withdraw_debits [OF call] call show ?thesis by (simp add: sample_env_def)
qed

text \<open>C38: after a token transfer the receiver's available balance is the one before the call less
  the price of the bytes the call added, or plus that of the bytes it released; an account that
  cannot pay makes the call panic, and totals and other accounts stay.\<close>

theorem use_storage_charges:
  assumes "use_storage K E acc initial available w = Inr (u, t)"
  shows "int (available_deposit t acc) = int (unat available) -
      (int (unat (storage_usage E (store w))) - int (unat initial)) * int (unat (storage_price_per_byte K)) \<and>
    total_deposit t = total_deposit w \<and> (\<forall>b. b \<noteq> acc \<longrightarrow> available_deposit t b = available_deposit w b) \<and>
    self t = self w \<and> outbox t = outbox w"
  by (rule use_storage_Inr [OF assms])

lemma use_storage_charges_witness:
  "\<exists>t. use_storage sample_sdk (sample_env ''flx'' 0) ''bob'' 480 600 deposited_world = Inr ((), t) \<and>
    int (available_deposit t ''bob'') = 400"
proof -
  have "\<exists>t. use_storage sample_sdk (sample_env ''flx'' 0) ''bob'' 480 600 deposited_world = Inr ((), t)"
    by (simp add: use_storage_def run Let_def sample_sdk_def bob_deposit)
  then obtain t where call: "use_storage sample_sdk (sample_env ''flx'' 0) ''bob'' 480 600 deposited_world = Inr ((), t)" ..
  from use_storage_charges [OF call] call show ?thesis by (simp add: sample_sdk_def)
qed

end
