(* ===== verification/Oracle_Contract.thy ===== *)
theory Oracle_Contract
  imports Data_Request Callback_Args Oracle_Config Storage_Manager
begin

text \<open>
  The methods of \<open>Contract\<close> in \<open>oracle/src/data_request.rs\<close>, the callback of
  \<open>requester_handler.rs\<close> and the token receiver of \<open>fungible_token_receiver.rs\<close>, each a whole
  handler: its checks in the order of the code, the writes, the log records and the promises.
\<close>

section \<open>Looking requests up\<close>

definition requests_len :: "u64 call" where
  "requests_len = reads (\<lambda>w. vec_len (data_requests (self w)))"

definition dr_exists :: "u64 \<Rightarrow> bool call" where
  "dr_exists i = bindM (requests_get i) (\<lambda>x. ret (x \<noteq> None))"

definition dr_get_expect :: "u64 \<Rightarrow> data_request call" where
  "dr_get_expect i = bindM (requests_get i) (\<lambda>x. expect x (Request ErrDataRequestNotFound))"

definition dr_get_expect_active :: "u64 \<Rightarrow> active_data_request call" where
  "dr_get_expect_active i =
     bindM (requests_get i) (\<lambda>x.
     bindM (expect x (Request ErrNoSuchRequest)) (\<lambda>dr.
     case dr of
       Active d \<Rightarrow> ret d
     | Finalized _ \<Rightarrow> panic (Request ErrAlreadyFinalized)))"

definition dr_get_expect_finalized :: "u64 \<Rightarrow> finalized_data_request call" where
  "dr_get_expect_finalized i =
     bindM (requests_get i) (\<lambda>x.
     bindM (expect x (Request ErrNoSuchRequest)) (\<lambda>dr.
     case dr of
       Active _ \<Rightarrow> panic (Request ErrNotYetFinalized)
     | Finalized d \<Rightarrow> ret d))"

text \<open>\<open>self.configs.get(i).unwrap()\<close>\<close>

definition config_at :: "u64 \<Rightarrow> oracle_config call" where
  "config_at i = bindM (configs_get i) (\<lambda>c. expect c (Rust ErrUnwrapNone))"

section \<open>New requests and stakes\<close>

definition dr_new :: "sdk \<Rightarrow> oenv \<Rightarrow> account \<Rightarrow> u128 \<Rightarrow> new_data_request_args \<Rightarrow> u128 call" where
  "dr_new K E sender amount payload =
     bindM assert_unpaused (\<lambda>_.
     bindM get_config (\<lambda>config.
     let validity_bond = cfg_validity_bond config in
     bindM (assert_whitelisted sender) (\<lambda>_.
     bindM (assert_sender E (cfg_payment_token config)) (\<lambda>_.
     bindM (ensure (amount \<ge> validity_bond) (Validation (ErrValidityBond validity_bond amount))) (\<lambda>_.
     bindM (dr_validate K payload) (\<lambda>_.
     bindM (lift (checked_sub amount validity_bond)) (\<lambda>paid_fee.
     bindM (whitelist_get_expect sender) (\<lambda>r.
     bindM requests_len (\<lambda>dr_id.
     bindM configs_len (\<lambda>n.
     bindM (lift (checked_sub n 1)) (\<lambda>config_id.
     bindM (lift (adr_new r dr_id config_id config paid_fee payload)) (\<lambda>dr.
     bindM (emit (log_new_data_request E dr)) (\<lambda>_.
     bindM (requests_push (Active dr)) (\<lambda>_.
     ret 0))))))))))))))"

definition dr_stake ::
  "oenv \<Rightarrow> account \<Rightarrow> u128 \<Rightarrow> stake_data_request_args \<Rightarrow> u128 promise_or_value call" where
  "dr_stake E sender amount payload =
     bindM assert_unpaused (\<lambda>_.
     bindM (dr_get_expect_active (stake_id payload)) (\<lambda>dr.
     bindM (config_at (adr_global_config_id dr)) (\<lambda>config.
     bindM (assert_sender E (cfg_stake_token config)) (\<lambda>_.
     bindM (assert_final_arbitrator_not_invoked dr) (\<lambda>_.
     bindM (assert_can_stake_on_outcome dr (stake_outcome payload)) (\<lambda>_.
     bindM (assert_valid_outcome dr (stake_outcome payload)) (\<lambda>_.
     bindM (assert_valid_outcome_type dr (stake_outcome payload)) (\<lambda>_.
     bindM (adr_stake E dr sender (stake_outcome payload) amount) (\<lambda>r.
     let unspent_stake = fst r; dr' = snd r in
     bindM (emit (log_update_active_data_request dr')) (\<lambda>_.
     bindM (requests_replace (stake_id payload) (Active dr')) (\<lambda>_.
     ret (ValueOf unspent_stake))))))))))))"

text \<open>
  The window is loaded from the vector and not written back: unstaking changes storage through
  the handles of the window only.
\<close>

definition dr_unstake :: "sdk \<Rightarrow> oenv \<Rightarrow> u64 \<Rightarrow> u16 \<Rightarrow> outcome \<Rightarrow> u128 \<Rightarrow> unit call" where
  "dr_unstake K E request_id resolution_round outc amount =
     bindM assert_unpaused (\<lambda>_.
     bindM (usage E) (\<lambda>initial_storage.
     bindM (dr_get_expect request_id) (\<lambda>dr.
     bindM (dr_unstake_window E dr (predecessor E) resolution_round outc amount) (\<lambda>unstaked.
     bindM (config_at (get_config_id dr)) (\<lambda>config.
     bindM (refund_storage K E initial_storage (predecessor E)) (\<lambda>_.
     bindM (emit (log_update dr)) (\<lambda>_.
     schedule (fungible_token_transfer K (cfg_stake_token config) (predecessor E) unstaked))))))))"

section \<open>Claims\<close>

text \<open>The promise \<open>dr_claim\<close> returns for a payout, or the panic of a claim of nothing.\<close>

definition claim_promise :: "sdk \<Rightarrow> oracle_config \<Rightarrow> account \<Rightarrow> claim_res \<Rightarrow> error + oracle_promise" where
  "claim_promise K config acc payout =
     (let prev_prom =
            (if stake_token_payout payout > 0
             then Some (fungible_token_transfer K (cfg_stake_token config) acc (stake_token_payout payout))
             else None) in
      if payment_token_payout payout > 0 then
        (case prev_prom of
           Some p \<Rightarrow> Inr (AndThen p
             (fungible_token_transfer K (cfg_payment_token config) acc (payment_token_payout payout)))
         | None \<Rightarrow> Inr
             (fungible_token_transfer K (cfg_payment_token config) acc (payment_token_payout payout)))
      else
        (case prev_prom of
           Some p \<Rightarrow> Inr p
         | None \<Rightarrow> Inl (Request ErrClaimZero)))"

definition dr_claim :: "sdk \<Rightarrow> oenv \<Rightarrow> account \<Rightarrow> u64 \<Rightarrow> oracle_promise call" where
  "dr_claim K E acc request_id =
     bindM assert_unpaused (\<lambda>_.
     bindM (usage E) (\<lambda>initial_storage.
     bindM (dr_get_expect_finalized request_id) (\<lambda>dr.
     bindM (fdr_claim E dr acc) (\<lambda>stake_payout.
     bindM (config_at (fdr_global_config_id dr)) (\<lambda>config.
     bindM (emit (log_update_finalized_data_request dr)) (\<lambda>_.
     bindM (refund_storage K E initial_storage (predecessor E)) (\<lambda>_.
     bindM (lift (checked_sub (prepaid_gas E) (used_gas E))) (\<lambda>gas.
     bindM (ensure (gas \<ge> gas_base_transfer K) (Request ErrNotEnoughGas)) (\<lambda>_.
     bindM (lift (claim_promise K config acc stake_payout)) (\<lambda>p.
     bindM (schedule p) (\<lambda>_.
     ret p)))))))))))"

section \<open>Finalization\<close>

definition dr_finalize :: "sdk \<Rightarrow> oenv \<Rightarrow> u64 \<Rightarrow> unit call" where
  "dr_finalize K E request_id =
     bindM assert_unpaused (\<lambda>_.
     bindM (usage E) (\<lambda>initial_storage.
     bindM (dr_get_expect_active request_id) (\<lambda>dr.
     let requester_id = account_id (adr_requester dr);
         validity_bond = rc_validity_bond (adr_request_config dr) in
     bindM (assert_can_finalize E dr) (\<lambda>_.
     bindM (get_final_outcome dr) (\<lambda>final_outcome.
     bindM (schedule (set_outcome K (adr_requester dr) final_outcome (adr_tags dr))) (\<lambda>_.
     bindM (config_at (adr_global_config_id dr)) (\<lambda>config.
     let fdr = trim_dr dr final_outcome in
     bindM (schedule_pv (return_validity_bond K fdr (cfg_payment_token config) requester_id
       validity_bond)) (\<lambda>_.
     bindM (emit (log_update_finalized_data_request fdr)) (\<lambda>_.
     bindM (refund_storage K E initial_storage (predecessor E)) (\<lambda>_.
     requests_replace request_id (Finalized fdr)))))))))))"

definition dr_finalize_by_provider :: "sdk \<Rightarrow> oenv \<Rightarrow> u64 \<Rightarrow> outcome \<Rightarrow> unit call" where
  "dr_finalize_by_provider K E request_id outc =
     bindM assert_unpaused (\<lambda>_.
     bindM (usage E) (\<lambda>initial_storage.
     bindM (dr_get_expect_active request_id) (\<lambda>dr.
     bindM (assert_valid_outcome dr outc) (\<lambda>_.
     bindM (case adr_provider dr of
         Some provider \<Rightarrow> ensure (provider = predecessor E) (Access ErrWrongProvider)
       | None \<Rightarrow> panic (Access ErrNotProviderRequest)) (\<lambda>_.
     bindM (schedule (set_outcome K (adr_requester dr) outc (adr_tags dr))) (\<lambda>_.
     let fdr = trim_dr dr outc in
     bindM (emit (log_update_finalized_data_request fdr)) (\<lambda>_.
     bindM (requests_replace request_id (Finalized fdr)) (\<lambda>_.
     refund_storage K E initial_storage (predecessor E)))))))))"

definition dr_final_arbitrator_finalize ::
  "sdk \<Rightarrow> oenv \<Rightarrow> u64 \<Rightarrow> outcome \<Rightarrow> bool promise_or_value call" where
  "dr_final_arbitrator_finalize K E request_id outc =
     bindM assert_unpaused (\<lambda>_.
     bindM (usage E) (\<lambda>initial_storage.
     bindM (dr_get_expect_active request_id) (\<lambda>dr.
     let requester_id = account_id (adr_requester dr);
         validity_bond = rc_validity_bond (adr_request_config dr) in
     bindM (assert_final_arbitrator E dr) (\<lambda>_.
     bindM (assert_valid_outcome dr outc) (\<lambda>_.
     bindM (assert_final_arbitrator_invoked dr) (\<lambda>_.
     bindM (config_at (adr_global_config_id dr)) (\<lambda>config.
     bindM (schedule (set_outcome K (adr_requester dr) outc (adr_tags dr))) (\<lambda>_.
     let fdr = trim_dr dr outc in
     bindM (emit (log_update_finalized_data_request fdr)) (\<lambda>_.
     let p = return_validity_bond K fdr (cfg_payment_token config) requester_id validity_bond in
     bindM (requests_replace request_id (Finalized fdr)) (\<lambda>_.
     bindM (refund_storage K E initial_storage (predecessor E)) (\<lambda>_.
     bindM (schedule_pv p) (\<lambda>_.
     ret p))))))))))))"

section \<open>Views\<close>

definition get_request_by_id :: "u64 \<Rightarrow> data_request_summary option call" where
  "get_request_by_id i =
     bindM (requests_get i) (\<lambda>dr.
     case dr of
       Some d \<Rightarrow> bindM (summarize d) (\<lambda>s. ret (Some s))
     | None \<Rightarrow> ret None)"

definition get_latest_request :: "data_request_summary option call" where
  "get_latest_request =
     bindM requests_len (\<lambda>n.
     if n < 1 then ret None
     else
       bindM requests_len (\<lambda>n'.
       bindM (lift (checked_sub n' 1)) get_request_by_id))"

definition get_outcome :: "u64 \<Rightarrow> outcome call" where
  "get_outcome dr_id = bindM (dr_get_expect_finalized dr_id) (\<lambda>d. ret (fdr_finalized_outcome d))"

definition get_requests :: "u64 \<Rightarrow> u64 \<Rightarrow> data_request_summary list call" where
  "get_requests from_index limit =
     bindM (lift (checked_add from_index limit)) (\<lambda>upper.
     bindM requests_len (\<lambda>n.
     collect (\<lambda>i.
       bindM (requests_get (of_nat i)) (\<lambda>x.
       bindM (expect x (Rust ErrUnwrapNone)) summarize))
       [unat from_index..<unat (min upper n)]))"

section \<open>Token transfers into the contract\<close>

definition ft_dr_new_callback ::
  "sdk \<Rightarrow> oenv \<Rightarrow> account \<Rightarrow> u128 \<Rightarrow> new_data_request_args \<Rightarrow> u128 promise_or_value call" where
  "ft_dr_new_callback K E sender amount payload =
     bindM (dr_new K E sender amount payload) (\<lambda>r. ret (ValueOf r))"

text \<open>
  \<open>parse\<close> is \<open>serde_json::from_str\<close> at type \<open>Payload\<close>, with \<open>None\<close> for its error.
\<close>

definition ft_on_transfer ::
  "(string \<Rightarrow> payload option) \<Rightarrow> sdk \<Rightarrow> oenv \<Rightarrow> account \<Rightarrow> u128 \<Rightarrow> string \<Rightarrow>
   u128 promise_or_value call" where
  "ft_on_transfer parse K E sender_id amount msg =
     bindM (usage E) (\<lambda>initial_storage_usage.
     bindM (get_storage_account sender_id) (\<lambda>account.
     bindM (expect (parse msg) (Validation ErrPayload)) (\<lambda>payload.
     bindM get_config (\<lambda>config.
     bindM (case payload of
         NewDataRequest p \<Rightarrow>
           bindM (ensure (cfg_payment_token config = predecessor E) (Validation ErrWrongPaymentToken)) (\<lambda>_.
           ft_dr_new_callback K E sender_id amount p)
       | StakeDataRequest p \<Rightarrow>
           bindM (ensure (cfg_stake_token config = predecessor E) (Validation ErrWrongStakeToken)) (\<lambda>_.
           dr_stake E sender_id amount p)) (\<lambda>unspent.
     bindM (use_storage K E sender_id initial_storage_usage (asb_available account)) (\<lambda>_.
     ret unspent))))))"

end
