(* ===== verification/Rounds.thy ===== *)
theory Rounds
  imports Finite_Sums Oracle_Types
begin

text \<open>
  The dispute game in the abstract: a request is a list of staking rounds, a round is a bond, a
  table of stakes per outcome and account, and the outcome whose stakes filled the bond. There
  is no storage, no machine integer and no panic here; the operations say what staking,
  unstaking and claiming mean. \<open>Request_Refinement\<close> shows that the contract's code implements
  them.

  The lemmas are about the ladder of rounds: bonds double, every round but the last is bonded,
  two adjacent rounds are never bonded on the same outcome, stakes are neither created nor
  lost, and the claims on a finalized request never exceed the bonds that were filled.
\<close>

section \<open>Rounds\<close>

record stake_round =
  sr_bond :: nat
  sr_stakes :: "outcome \<Rightarrow> account \<Rightarrow> nat"
  sr_bonded :: "outcome option"

definition sr_total :: "stake_round \<Rightarrow> outcome \<Rightarrow> nat" where
  "sr_total r o' = total_of (sr_stakes r o')"

definition fresh_round :: "nat \<Rightarrow> stake_round" where
  "fresh_round b = \<lparr>sr_bond = b, sr_stakes = \<lambda>_ _. 0, sr_bonded = None\<rparr>"

definition round_ok :: "stake_round \<Rightarrow> bool" where
  "round_ok r \<longleftrightarrow> finite_table (sr_stakes r) \<and>
     (\<forall>o'. sr_total r o' \<le> sr_bond r \<and> (sr_bonded r = Some o' \<longleftrightarrow> sr_total r o' = sr_bond r))"

text \<open>A stake takes what still fits into the bond and bonds the outcome when it is full.\<close>

definition round_taken :: "stake_round \<Rightarrow> outcome \<Rightarrow> nat \<Rightarrow> nat" where
  "round_taken r o' n = min n (sr_bond r - sr_total r o')"

definition round_stake :: "stake_round \<Rightarrow> account \<Rightarrow> outcome \<Rightarrow> nat \<Rightarrow> stake_round" where
  "round_stake r a o' n =
     (let k = round_taken r o' n in
      r\<lparr>sr_stakes := entry (sr_stakes r) o' a (sr_stakes r o' a + k),
        sr_bonded := (if sr_total r o' + k = sr_bond r then Some o' else sr_bonded r)\<rparr>)"

definition round_unstake :: "stake_round \<Rightarrow> account \<Rightarrow> outcome \<Rightarrow> nat \<Rightarrow> stake_round" where
  "round_unstake r a o' n = r\<lparr>sr_stakes := entry (sr_stakes r) o' a (sr_stakes r o' a - n)\<rparr>"

lemma sr_total_entry:
  assumes "finite_table (sr_stakes r)"
  shows "sr_total (r\<lparr>sr_stakes := entry (sr_stakes r) o' a v\<rparr>) p + (if p = o' then sr_stakes r o' a else 0) =
    sr_total r p + (if p = o' then v else 0)"
  using total_upd [OF finite_table_row [OF assms], of o' a v] by (simp add: sr_total_def)

lemma stake_le_total: "finite_table (sr_stakes r) \<Longrightarrow> sr_stakes r o' a \<le> sr_total r o'"
  unfolding sr_total_def by (rule total_member_le) (rule finite_table_row)

lemma sr_total_bonded [simp]: "sr_total (r\<lparr>sr_bonded := b\<rparr>) = sr_total r"
  by (simp add: sr_total_def fun_eq_iff)

lemma round_stake_fields [simp]:
  "sr_bond (round_stake r a o' n) = sr_bond r"
  "sr_stakes (round_stake r a o' n) = entry (sr_stakes r) o' a (sr_stakes r o' a + round_taken r o' n)"
  "sr_bonded (round_stake r a o' n) =
     (if sr_total r o' + round_taken r o' n = sr_bond r then Some o' else sr_bonded r)"
  by (simp_all add: round_stake_def Let_def)

lemma round_unstake_fields [simp]:
  "sr_bond (round_unstake r a o' n) = sr_bond r"
  "sr_bonded (round_unstake r a o' n) = sr_bonded r"
  "sr_stakes (round_unstake r a o' n) = entry (sr_stakes r) o' a (sr_stakes r o' a - n)"
  by (simp_all add: round_unstake_def)

lemma round_stake_total:
  assumes "finite_table (sr_stakes r)"
  shows "sr_total (round_stake r a o' n) p = sr_total r p + (if p = o' then round_taken r o' n else 0)"
  using sr_total_entry [OF assms, of o' a "sr_stakes r o' a + round_taken r o' n" p]
  by (simp add: round_stake_def Let_def sr_total_def split: if_splits)

lemma round_unstake_total:
  assumes "finite_table (sr_stakes r)" and "n \<le> sr_stakes r o' a"
  shows "sr_total (round_unstake r a o' n) p + (if p = o' then n else 0) = sr_total r p"
  using sr_total_entry [OF assms(1), of o' a "sr_stakes r o' a - n" p] assms(2)
    stake_le_total [OF assms(1), of o' a]
  by (simp add: round_unstake_def split: if_splits)

lemma fresh_round_ok: "0 < b \<Longrightarrow> round_ok (fresh_round b)"
  by (simp add: round_ok_def fresh_round_def sr_total_def)

lemma round_taken_le: "round_taken r o' n \<le> n"
  by (simp add: round_taken_def)

lemma round_stake_ok:
  assumes ok: "round_ok r" and open_round: "sr_bonded r = None"
  shows "round_ok (round_stake r a o' n)"
proof -
  from ok have fin: "finite_table (sr_stakes r)"
    and le: "\<And>p. sr_total r p \<le> sr_bond r" and ne: "\<And>p. sr_total r p \<noteq> sr_bond r"
    using open_round by (auto simp: round_ok_def)
  have "sr_total r o' + round_taken r o' n \<le> sr_bond r"
    using le [of o'] by (simp add: round_taken_def)
  then show ?thesis
    unfolding round_ok_def round_stake_total [OF fin]
    using fin le ne open_round by auto
qed

lemma round_unstake_ok:
  assumes ok: "round_ok r" and not_bonded: "sr_bonded r \<noteq> Some o'" and le: "n \<le> sr_stakes r o' a"
  shows "round_ok (round_unstake r a o' n)"
proof -
  from ok have fin: "finite_table (sr_stakes r)" by (simp add: round_ok_def)
  have tot: "sr_total (round_unstake r a o' n) p = sr_total r p - (if p = o' then n else 0)" for p
    using round_unstake_total [OF fin le, of p] by simp
  from ok not_bonded have lt: "sr_total r o' < sr_bond r"
    by (auto simp: round_ok_def order_less_le)
  show ?thesis
    unfolding round_ok_def tot using ok lt fin not_bonded
    by (auto simp: round_ok_def)
qed

section \<open>The ladder\<close>

text \<open>
  Staking on a request: the first stake opens the first round at twice the base bond; a stake
  that bonds a round either triggers the final arbitrator (from a given bond size on) or opens
  the next round at twice the bond.
\<close>

definition current_round :: "nat \<Rightarrow> stake_round list \<Rightarrow> stake_round" where
  "current_round base rs = (if rs = [] then fresh_round (2 * base) else last rs)"

definition ladder_stake ::
  "nat \<Rightarrow> nat \<Rightarrow> stake_round list \<Rightarrow> account \<Rightarrow> outcome \<Rightarrow> nat \<Rightarrow> stake_round list \<times> bool" where
  "ladder_stake base invoke rs a o' n =
     (let r = round_stake (current_round base rs) a o' n; rs' = butlast rs @ [r] in
      if sr_bonded r \<noteq> None then
        if sr_bond r \<ge> invoke then (rs', True) else (rs' @ [fresh_round (2 * sr_bond r)], False)
      else (rs', False))"

definition ladder_unstake ::
  "stake_round list \<Rightarrow> nat \<Rightarrow> account \<Rightarrow> outcome \<Rightarrow> nat \<Rightarrow> stake_round list" where
  "ladder_unstake rs i a o' n = rs[i := round_unstake (rs ! i) a o' n]"

text \<open>The invariant of the game; \<open>triggered\<close> says that the final arbitrator has been called.\<close>

definition ladder :: "nat \<Rightarrow> bool \<Rightarrow> stake_round list \<Rightarrow> bool" where
  "ladder base triggered rs \<longleftrightarrow>
     (\<forall>i < length rs. round_ok (rs ! i) \<and> sr_bond (rs ! i) = base * 2 ^ Suc i) \<and>
     (\<forall>i. Suc i < length rs \<longrightarrow> sr_bonded (rs ! i) \<noteq> None \<and> sr_bonded (rs ! Suc i) \<noteq> sr_bonded (rs ! i)) \<and>
     (if rs = [] then \<not> triggered else sr_bonded (last rs) \<noteq> None \<longleftrightarrow> triggered)"

text \<open>The outcome that a stake must not repeat: the one the previous round is bonded on.\<close>

definition challenged :: "stake_round list \<Rightarrow> outcome option" where
  "challenged rs = (if length rs < 2 then None else sr_bonded (rs ! (length rs - 2)))"

lemma ladder_Nil [simp]: "ladder base t [] \<longleftrightarrow> \<not> t"
  by (simp add: ladder_def)

text \<open>The invariant, one round at a time.\<close>

lemma ladder_snoc:
  "ladder base t (rs @ [r]) \<longleftrightarrow>
     (\<forall>i < length rs. round_ok (rs ! i) \<and> sr_bond (rs ! i) = base * 2 ^ Suc i \<and> sr_bonded (rs ! i) \<noteq> None) \<and>
     (\<forall>i. Suc i < length rs \<longrightarrow> sr_bonded (rs ! Suc i) \<noteq> sr_bonded (rs ! i)) \<and>
     round_ok r \<and> sr_bond r = base * 2 ^ Suc (length rs) \<and>
     (rs \<noteq> [] \<longrightarrow> sr_bonded r \<noteq> sr_bonded (last rs)) \<and> (sr_bonded r \<noteq> None \<longleftrightarrow> t)"
proof -
  have *: "(\<forall>i. Suc i < length (rs @ [r]) \<longrightarrow> sr_bonded ((rs @ [r]) ! i) \<noteq> None \<and>
        sr_bonded ((rs @ [r]) ! Suc i) \<noteq> sr_bonded ((rs @ [r]) ! i)) \<longleftrightarrow>
      (\<forall>i < length rs. sr_bonded (rs ! i) \<noteq> None) \<and>
      (\<forall>i. Suc i < length rs \<longrightarrow> sr_bonded (rs ! Suc i) \<noteq> sr_bonded (rs ! i)) \<and>
      (rs \<noteq> [] \<longrightarrow> sr_bonded r \<noteq> sr_bonded (last rs))" (is "?L \<longleftrightarrow> ?R")
  proof
    assume L: ?L
    show ?R
    proof (intro conjI allI impI)
      fix i
      assume "i < length rs"
      with L show "sr_bonded (rs ! i) \<noteq> None" by (auto simp: nth_append split: if_splits)
    next
      fix i
      assume "Suc i < length rs"
      with L [rule_format, of i] show "sr_bonded (rs ! Suc i) \<noteq> sr_bonded (rs ! i)" by (simp add: nth_append)
    next
      assume "rs \<noteq> []"
      with L [rule_format, of "length rs - 1"] show "sr_bonded r \<noteq> sr_bonded (last rs)"
        by (simp add: nth_append last_conv_nth)
    qed
  next
    assume R: ?R
    show ?L
    proof (intro allI impI)
      fix i
      assume "Suc i < length (rs @ [r])"
      then consider "Suc i < length rs" | "i = length rs - 1" "rs \<noteq> []" by fastforce
      then show "sr_bonded ((rs @ [r]) ! i) \<noteq> None \<and>
          sr_bonded ((rs @ [r]) ! Suc i) \<noteq> sr_bonded ((rs @ [r]) ! i)"
        using R by cases (auto simp: nth_append last_conv_nth)
    qed
  qed
  show ?thesis
    unfolding ladder_def * by (auto simp: nth_append less_Suc_eq)
qed

lemma ladder_current:
  assumes "ladder base False rs" and "0 < base"
  shows "round_ok (current_round base rs) \<and> sr_bonded (current_round base rs) = None \<and>
    sr_bond (current_round base rs) = base * 2 ^ Suc (length rs - 1) \<and>
    ladder base False (butlast rs @ [current_round base rs])"
proof (cases rs rule: rev_cases)
  case Nil
  then show ?thesis
    using assms(2) fresh_round_ok [of "2 * base"]
    by (simp add: current_round_def ladder_snoc [of _ _ "[]", simplified]) (simp add: fresh_round_def)
next
  case (snoc ss r)
  with assms(1) show ?thesis by (auto simp: current_round_def ladder_snoc)
qed

text \<open>Staking keeps the invariant, unless it repeats the outcome of the round before.\<close>

lemma ladder_stake_ladder:
  assumes inv: "ladder base False rs" and pos: "0 < base" and fair: "challenged rs \<noteq> Some o'"
    and call: "ladder_stake base invoke rs a o' n = (rs', t)"
  shows "ladder base t rs'"
proof -
  let ?r = "current_round base rs" and ?ss = "butlast rs"
  note cur = ladder_current [OF inv pos]
  from cur have inv': "ladder base False (?ss @ [?r])" by simp
  let ?r' = "round_stake ?r a o' n"
  have ok: "round_ok ?r'" using cur by (intro round_stake_ok) simp_all
  have prev: "?ss \<noteq> [] \<Longrightarrow> sr_bonded (last ?ss) = challenged rs"
    by (cases rs rule: rev_cases) (auto simp: challenged_def last_conv_nth nth_append nth_butlast)
  have "ladder base (sr_bonded ?r' \<noteq> None) (?ss @ [?r'])"
    using inv' ok fair prev cur unfolding ladder_snoc by (auto split: if_splits)
  moreover have "0 < sr_bond ?r'" using cur pos by simp
  moreover have "sr_bonded ?r' \<noteq> None \<Longrightarrow>
      ladder base False ((?ss @ [?r']) @ [fresh_round (2 * sr_bond ?r')])"
    using \<open>ladder base (sr_bonded ?r' \<noteq> None) (?ss @ [?r'])\<close> fresh_round_ok [of "2 * sr_bond ?r'"]
      \<open>0 < sr_bond ?r'\<close>
    unfolding ladder_snoc [of _ _ "?ss @ [?r']"] ladder_def
    by (auto simp: fresh_round_def nth_append less_Suc_eq)
  ultimately show ?thesis
    using call by (auto simp: ladder_stake_def Let_def split: if_splits simp del: append_assoc)
qed

lemma ladder_unstake_ladder:
  assumes inv: "ladder base t rs" and i: "i < length rs"
    and not_bonded: "sr_bonded (rs ! i) \<noteq> Some o'" and le: "n \<le> sr_stakes (rs ! i) o' a"
  shows "ladder base t (ladder_unstake rs i a o' n)"
proof -
  let ?r = "round_unstake (rs ! i) a o' n"
  have "round_ok ?r" using inv i not_bonded le by (intro round_unstake_ok) (simp_all add: ladder_def)
  moreover have "sr_bonded (rs[i := ?r] ! j) = sr_bonded (rs ! j)" for j
    using i by (cases "j = i") simp_all
  moreover from i have "rs \<noteq> []" "rs[i := ?r] \<noteq> []" by auto
  then have "sr_bonded (last (rs[i := ?r])) = sr_bonded (last rs)"
    by (simp add: last_conv_nth calculation(2))
  ultimately show ?thesis
    using inv i by (auto simp: ladder_def ladder_unstake_def nth_list_update split: if_splits)
qed

text \<open>A bond below \<open>2 ^ w\<close> limits the number of rounds: bonds double, so fewer than \<open>w\<close> fit.\<close>

lemma ladder_length:
  assumes inv: "ladder base t rs" and pos: "0 < base" and fits: "\<And>r. r \<in> set rs \<Longrightarrow> sr_bond r < 2 ^ w"
  shows "rs = [] \<or> length rs < w"
proof (cases rs rule: rev_cases)
  case (snoc ss r)
  with inv have "sr_bond r = base * 2 ^ length rs" by (simp add: ladder_snoc)
  moreover have "sr_bond r < 2 ^ w" using fits snoc by simp
  moreover have "2 ^ length rs \<le> base * 2 ^ length rs" using pos by simp
  ultimately have "(2::nat) ^ length rs < 2 ^ w" by linarith
  then show ?thesis by simp
qed simp

section \<open>Conservation of stakes\<close>

definition staked :: "stake_round list \<Rightarrow> nat" where
  "staked rs = (\<Sum>r\<leftarrow>rs. sum_all (sr_stakes r))"

lemma staked_simps [simp]:
  "staked [] = 0" "staked (rs @ rs') = staked rs + staked rs'" "staked (r # rs) = sum_all (sr_stakes r) + staked rs"
  by (simp_all add: staked_def)

lemma staked_fresh [simp]: "sum_all (sr_stakes (fresh_round b)) = 0"
  by (simp add: fresh_round_def)

lemma staked_current: "staked (butlast rs) + sum_all (sr_stakes (current_round base rs)) = staked rs"
  by (cases rs rule: rev_cases) (simp_all add: current_round_def)

lemma staked_update:
  assumes "i < length rs"
  shows "staked (rs[i := r]) + sum_all (sr_stakes (rs ! i)) = staked rs + sum_all (sr_stakes r)"
proof -
  have "rs = take i rs @ rs ! i # drop (Suc i) rs" using assms by (rule id_take_nth_drop)
  then have "staked rs = staked (take i rs) + (sum_all (sr_stakes (rs ! i)) + staked (drop (Suc i) rs))"
    by (metis staked_simps(2,3))
  then show ?thesis
    unfolding upd_conv_take_nth_drop [OF assms] by simp
qed

text \<open>Staking adds exactly what was taken, unstaking removes exactly what was asked for.\<close>

lemma ladder_stake_staked:
  assumes inv: "ladder base False rs" and pos: "0 < base"
    and call: "ladder_stake base invoke rs a o' n = (rs', t)"
  shows "staked rs' = staked rs + round_taken (current_round base rs) o' n"
proof -
  let ?r = "current_round base rs"
  have "finite_table (sr_stakes ?r)" using ladder_current [OF inv pos] by (simp add: round_ok_def)
  from sum_all_entry [OF this, of o' a "sr_stakes ?r o' a + round_taken ?r o' n"]
  have "sum_all (sr_stakes (round_stake ?r a o' n)) = sum_all (sr_stakes ?r) + round_taken ?r o' n"
    by simp
  then show ?thesis
    using call staked_current [of rs base] by (auto simp: ladder_stake_def Let_def split: if_splits)
qed

lemma ladder_unstake_staked:
  assumes "finite_table (sr_stakes (rs ! i))" and "i < length rs" and "n \<le> sr_stakes (rs ! i) o' a"
  shows "staked (ladder_unstake rs i a o' n) + n = staked rs"
  using staked_update [OF assms(2), of "round_unstake (rs ! i) a o' n"]
    sum_all_entry [OF assms(1), of o' a "sr_stakes (rs ! i) o' a - n"] assms(3)
  by (simp add: ladder_unstake_def)

section \<open>Claims\<close>

text \<open>
  With final outcome \<open>f\<close>: the bonds of the rounds bonded on \<open>f\<close>, the bonds of the rounds bonded
  on another outcome, what an account staked on \<open>f\<close> in the former, and its payout: that stake
  and its share of the losing bonds, rounded down.
\<close>

definition correct_bonds :: "outcome \<Rightarrow> stake_round list \<Rightarrow> nat" where
  "correct_bonds f rs = (\<Sum>r\<leftarrow>rs. if sr_bonded r = Some f then sr_bond r else 0)"

definition incorrect_bonds :: "outcome \<Rightarrow> stake_round list \<Rightarrow> nat" where
  "incorrect_bonds f rs = (\<Sum>r\<leftarrow>rs. if sr_bonded r \<noteq> None \<and> sr_bonded r \<noteq> Some f then sr_bond r else 0)"

definition correct_stake :: "outcome \<Rightarrow> stake_round list \<Rightarrow> account \<Rightarrow> nat" where
  "correct_stake f rs a = (\<Sum>r\<leftarrow>rs. if sr_bonded r = Some f then sr_stakes r f a else 0)"

definition share :: "nat \<Rightarrow> nat \<Rightarrow> nat \<Rightarrow> nat" where
  "share u pot c = (if c = 0 then 0 else u * pot div c)"

definition ladder_payout :: "outcome \<Rightarrow> stake_round list \<Rightarrow> account \<Rightarrow> nat" where
  "ladder_payout f rs a =
     correct_stake f rs a + share (correct_stake f rs a) (incorrect_bonds f rs) (correct_bonds f rs)"

definition claim_in :: "outcome \<Rightarrow> account \<Rightarrow> stake_round \<Rightarrow> stake_round" where
  "claim_in f a r = (if sr_bonded r = Some f then r\<lparr>sr_stakes := entry (sr_stakes r) f a 0\<rparr> else r)"

definition ladder_claim :: "outcome \<Rightarrow> stake_round list \<Rightarrow> account \<Rightarrow> stake_round list" where
  "ladder_claim f rs a = map (claim_in f a) rs"

text \<open>What rounds still satisfy while claims are paid: stakes of an outcome never exceed the bond.\<close>

definition covered :: "stake_round list \<Rightarrow> bool" where
  "covered rs \<longleftrightarrow> (\<forall>r \<in> set rs. finite_table (sr_stakes r) \<and> (\<forall>o'. sr_total r o' \<le> sr_bond r))"

lemma ladder_covered: "ladder base t rs \<Longrightarrow> covered rs"
proof -
  assume "ladder base t rs"
  then have "\<And>r. r \<in> set rs \<Longrightarrow> round_ok r" by (auto simp: ladder_def in_set_conv_nth)
  then show ?thesis by (simp add: covered_def round_ok_def)
qed

lemma claim_in_fields [simp]:
  "sr_bond (claim_in f a r) = sr_bond r" "sr_bonded (claim_in f a r) = sr_bonded r"
  by (simp_all add: claim_in_def)

lemma correct_stake_Nil [simp]: "correct_stake f [] = (\<lambda>_. 0)"
  by (simp add: correct_stake_def fun_eq_iff)

lemma correct_stake_Cons [simp]: "correct_stake f (r # rs) =
    (\<lambda>a. (if sr_bonded r = Some f then sr_stakes r f a else 0) + correct_stake f rs a)"
  by (simp add: correct_stake_def fun_eq_iff)

lemma correct_stake_claim:
  "correct_stake f (ladder_claim f rs a) b = (if b = a then 0 else correct_stake f rs b)"
  unfolding correct_stake_def ladder_claim_def
  by (induction rs) (auto simp: claim_in_def entry_apply)

lemma bonds_claim [simp]:
  "correct_bonds f (ladder_claim f rs a) = correct_bonds f rs"
  "incorrect_bonds f (ladder_claim f rs a) = incorrect_bonds f rs"
  unfolding correct_bonds_def incorrect_bonds_def ladder_claim_def by (induction rs) simp_all

lemma ladder_payout_claim:
  "ladder_payout f (ladder_claim f rs a) b = (if b = a then 0 else ladder_payout f rs b)"
  by (simp add: ladder_payout_def correct_stake_claim share_def)

lemma covered_claim: "covered rs \<Longrightarrow> covered (ladder_claim f rs a)"
proof -
  have "sr_total (claim_in f a r) p \<le> sr_total r p" if "finite_table (sr_stakes r)" for r p
    using sr_total_entry [OF that, of f a 0 p] by (simp add: claim_in_def split: if_splits)
  then show "covered rs \<Longrightarrow> covered (ladder_claim f rs a)"
    by (fastforce simp: covered_def ladder_claim_def claim_in_def intro: le_trans)
qed

lemma correct_stake_finite: "covered rs \<Longrightarrow> finite_support (correct_stake f rs)"
proof (induction rs)
  case (Cons r rs)
  have "finite_support (\<lambda>a. if sr_bonded r = Some f then sr_stakes r f a else 0)"
    using Cons.prems finite_table_row [of "sr_stakes r" f] by (cases "sr_bonded r = Some f") (simp_all add: covered_def)
  moreover have "finite_support (correct_stake f rs)" using Cons by (simp add: covered_def)
  ultimately show ?case
    by (simp add: finite_support_add)
qed simp

text \<open>The correct stakes of all accounts fit into the correct bonds.\<close>

lemma total_correct_stake: "covered rs \<Longrightarrow> total_of (correct_stake f rs) \<le> correct_bonds f rs"
proof (induction rs)
  case (Cons r rs)
  let ?g = "\<lambda>a. if sr_bonded r = Some f then sr_stakes r f a else 0"
  have cov: "covered rs" using Cons.prems by (simp add: covered_def)
  have fin: "finite_support ?g"
    using Cons.prems finite_table_row [of "sr_stakes r" f] by (cases "sr_bonded r = Some f") (simp_all add: covered_def)
  have "total_of ?g \<le> (if sr_bonded r = Some f then sr_bond r else 0)"
    using Cons.prems by (cases "sr_bonded r = Some f") (auto simp: covered_def sr_total_def)
  moreover have "total_of (correct_stake f (r # rs)) = total_of ?g + total_of (correct_stake f rs)"
    using total_add [OF fin correct_stake_finite [OF cov]] by simp
  ultimately show ?case
    using Cons.IH [OF cov] by (simp add: correct_bonds_def)
qed (simp add: correct_bonds_def)

lemma correct_stake_le: "covered rs \<Longrightarrow> correct_stake f rs a \<le> correct_bonds f rs"
  using total_member_le [OF correct_stake_finite, of rs f a] total_correct_stake [of rs f] by linarith

lemma sum_correct_stake:
  assumes "covered rs" and "finite A"
  shows "(\<Sum>a\<in>A. correct_stake f rs a) \<le> correct_bonds f rs"
proof -
  have "(\<Sum>a\<in>A. correct_stake f rs a) = (\<Sum>a\<in>{a \<in> A. correct_stake f rs a \<noteq> 0}. correct_stake f rs a)"
    using assms(2) by (intro sum.mono_neutral_right) auto
  also have "\<dots> \<le> total_of (correct_stake f rs)"
    unfolding total_of_def using correct_stake_finite [OF assms(1), of f]
    by (intro sum_mono2) (auto simp: finite_support_def)
  finally show ?thesis using total_correct_stake [OF assms(1), of f] by linarith
qed

lemma sum_div_le: "finite A \<Longrightarrow> (\<Sum>a\<in>A. g a div c) \<le> (\<Sum>a\<in>A. g a) div c" for c :: nat
proof (cases "c = 0")
  case False
  assume "finite A"
  have "(\<Sum>a\<in>A. g a div c) * c \<le> (\<Sum>a\<in>A. g a)"
    unfolding sum_distrib_right by (rule sum_mono) (metis div_times_less_eq_dividend)
  with False show ?thesis by (simp add: less_eq_div_iff_mult_less_eq)
qed simp

text \<open>The shares of a pot never add up to more than the pot.\<close>

lemma sum_share:
  assumes "finite A" and "(\<Sum>a\<in>A. u a) \<le> c"
  shows "(\<Sum>a\<in>A. share (u a) pot c) \<le> pot"
proof (cases "c = 0")
  case False
  have "(\<Sum>a\<in>A. u a * pot div c) \<le> (\<Sum>a\<in>A. u a * pot) div c"
    by (rule sum_div_le) (rule assms(1))
  also have "\<dots> \<le> c * pot div c"
    using assms(2) by (intro div_le_mono) (simp flip: sum_distrib_right)
  finally show ?thesis using False by (simp add: share_def)
qed (simp add: share_def)

lemma sum_payout:
  assumes "covered rs" and "finite A"
  shows "(\<Sum>a\<in>A. ladder_payout f rs a) \<le> correct_bonds f rs + incorrect_bonds f rs"
  using sum_correct_stake [OF assms, of f] sum_share [OF assms(2) sum_correct_stake [OF assms, of f]]
  unfolding ladder_payout_def sum.distrib by (intro add_mono)

text \<open>Any sequence of claims, repeated ones included, pays no more than the bonds that were filled.\<close>

fun claims_paid :: "outcome \<Rightarrow> stake_round list \<Rightarrow> account list \<Rightarrow> nat" where
  "claims_paid f rs [] = 0"
| "claims_paid f rs (a # as) = ladder_payout f rs a + claims_paid f (ladder_claim f rs a) as"

lemma claims_paid_once: "claims_paid f rs as = (\<Sum>a\<in>set as. ladder_payout f rs a)"
proof (induction as arbitrary: rs)
  case (Cons a as)
  have "claims_paid f rs (a # as) =
      ladder_payout f rs a + (\<Sum>b\<in>set as. if b = a then 0 else ladder_payout f rs b)"
    by (simp add: Cons.IH ladder_payout_claim)
  also have "(\<Sum>b\<in>set as. if b = a then 0 else ladder_payout f rs b) = (\<Sum>b\<in>set as - {a}. ladder_payout f rs b)"
    by (rule sum.mono_neutral_cong_right) auto
  finally show ?case by (simp add: sum.insert_remove)
qed simp

lemma claims_paid_le: "covered rs \<Longrightarrow> claims_paid f rs as \<le> correct_bonds f rs + incorrect_bonds f rs"
  by (simp add: claims_paid_once sum_payout)

text \<open>
  And next to nothing is left over: when every account with a correct stake has claimed, the
  rounding has kept back less than one unit per claim.
\<close>

lemma total_correct_stake_eq: "(\<And>r. r \<in> set rs \<Longrightarrow> round_ok r) \<Longrightarrow> total_of (correct_stake f rs) = correct_bonds f rs"
proof (induction rs)
  case (Cons r rs)
  let ?g = "\<lambda>a. if sr_bonded r = Some f then sr_stakes r f a else 0"
  have cov: "covered rs" using Cons.prems by (simp add: covered_def round_ok_def)
  have ok: "round_ok r" using Cons.prems by simp
  then have fin: "finite_support ?g"
    using finite_table_row [of "sr_stakes r" f] by (cases "sr_bonded r = Some f") (simp_all add: round_ok_def)
  have "total_of ?g = (if sr_bonded r = Some f then sr_bond r else 0)"
    using ok by (auto simp: round_ok_def sr_total_def)
  then show ?case
    using Cons.IH Cons.prems total_add [OF fin correct_stake_finite [OF cov, of f]]
    by (simp add: correct_bonds_def)
qed (simp add: correct_bonds_def)

lemma sum_share_dust:
  assumes "finite A" and "(\<Sum>a\<in>A. u a) = c" and "0 < c"
  shows "pot \<le> (\<Sum>a\<in>A. share (u a) pot c) + card A"
proof -
  have "c * pot = (\<Sum>a\<in>A. u a * pot)" using assms(2) by (simp flip: sum_distrib_right)
  also have "\<dots> \<le> (\<Sum>a\<in>A. (u a * pot div c + 1) * c)"
    by (rule sum_mono) (metis add.commute assms(3) dividend_less_div_times less_imp_le mult.commute mult_Suc_right plus_1_eq_Suc)
  also have "\<dots> = ((\<Sum>a\<in>A. share (u a) pot c) + card A) * c"
    using assms(1,3) by (simp add: share_def sum.distrib add_mult_distrib flip: sum_distrib_right)
  finally show ?thesis using assms(3) by (simp add: mult.commute)
qed

lemma payout_dust:
  assumes ok: "\<And>r. r \<in> set rs \<Longrightarrow> round_ok r" and "finite A" and "0 < correct_bonds f rs"
    and all: "\<And>a. correct_stake f rs a \<noteq> 0 \<Longrightarrow> a \<in> A"
  shows "correct_bonds f rs + incorrect_bonds f rs \<le> (\<Sum>a\<in>A. ladder_payout f rs a) + card A"
proof -
  have "{a. correct_stake f rs a \<noteq> 0} \<subseteq> A" using all by blast
  from total_superset [OF assms(2) this] have sum: "(\<Sum>a\<in>A. correct_stake f rs a) = correct_bonds f rs"
    using total_correct_stake_eq [of rs f, OF ok] by simp
  from sum_share_dust [OF assms(2) sum assms(3), of "incorrect_bonds f rs"] sum
  show ?thesis unfolding ladder_payout_def sum.distrib by linarith
qed

section \<open>What a finalized request still owes\<close>

text \<open>
  Stakes on outcomes a round is not bonded on can be taken back; the payouts of all accounts
  are owed. Claims and withdrawals lower the debt by what they pay, and finalization starts it
  at no more than what is staked.
\<close>

definition loose_stakes :: "stake_round \<Rightarrow> nat" where
  "loose_stakes r =
     (case sr_bonded r of
        None \<Rightarrow> sum_all (sr_stakes r)
      | Some b \<Rightarrow> sum_all (clear_row (sr_stakes r) b))"

definition debt :: "outcome \<Rightarrow> stake_round list \<Rightarrow> nat" where
  "debt f rs = (\<Sum>r\<leftarrow>rs. loose_stakes r) + total_of (ladder_payout f rs)"

lemma ladder_payout_finite:
  assumes "covered rs"
  shows "finite_support (ladder_payout f rs)"
proof -
  have "{a. ladder_payout f rs a \<noteq> 0} \<subseteq> {a. correct_stake f rs a \<noteq> 0}"
    by (auto simp: ladder_payout_def share_def) (metis div_0 gr0I mult_0)
  with correct_stake_finite [OF assms, of f] show ?thesis
    unfolding finite_support_def by (rule finite_subset [rotated])
qed

lemma loose_claim: "(\<Sum>r\<leftarrow>ladder_claim f rs a. loose_stakes r) = (\<Sum>r\<leftarrow>rs. loose_stakes r)"
  unfolding ladder_claim_def
  by (induction rs) (auto simp: loose_stakes_def claim_in_def clear_row_entry)

lemma debt_claim:
  assumes "covered rs"
  shows "debt f (ladder_claim f rs a) + ladder_payout f rs a = debt f rs"
proof -
  have "ladder_payout f (ladder_claim f rs a) = (ladder_payout f rs)(a := 0)"
    by (simp add: fun_eq_iff ladder_payout_claim)
  then show ?thesis
    using total_upd [OF ladder_payout_finite [OF assms, of f], of a 0]
    by (simp add: debt_def loose_claim)
qed

lemma loose_unstake:
  assumes "finite_table (sr_stakes r)" and "sr_bonded r \<noteq> Some o'" and "n \<le> sr_stakes r o' a"
  shows "loose_stakes (round_unstake r a o' n) + n = loose_stakes r"
proof (cases "sr_bonded r")
  case None
  then show ?thesis
    using sum_all_entry [OF assms(1), of o' a "sr_stakes r o' a - n"] assms(3)
    by (simp add: loose_stakes_def)
next
  case (Some b)
  with assms(2) have "o' \<noteq> b" by auto
  moreover have "clear_row (sr_stakes r) b o' a = sr_stakes r o' a"
    using \<open>o' \<noteq> b\<close> by (simp add: clear_row_def)
  ultimately show ?thesis
    using sum_all_entry [OF finite_table_clear [OF assms(1)], of b o' a "sr_stakes r o' a - n"] assms(3) Some
    by (simp add: loose_stakes_def clear_row_entry)
qed

lemma sum_list_change:
  assumes "i < length rs"
  shows "(\<Sum>r\<leftarrow>rs[i := x]. g r) + g (rs ! i) = (\<Sum>r\<leftarrow>rs. g r) + (g x :: nat)"
proof -
  have "rs = take i rs @ rs ! i # drop (Suc i) rs" using assms by (rule id_take_nth_drop)
  then have "(\<Sum>r\<leftarrow>rs. g r) = (\<Sum>r\<leftarrow>take i rs. g r) + (g (rs ! i) + (\<Sum>r\<leftarrow>drop (Suc i) rs. g r))"
    by (metis map_append list.simps(9) sum_list.Cons sum_list_append)
  then show ?thesis
    unfolding upd_conv_take_nth_drop [OF assms] by simp
qed

lemma list_map_update_same: "i < length rs \<Longrightarrow> g x = g (rs ! i) \<Longrightarrow> map g (rs[i := x]) = map g rs"
  by (metis list_update_id map_update)

text \<open>The bonds and the correct stakes do not see a withdrawal from another outcome.\<close>

lemma claims_unstake:
  assumes "i < length rs" and "sr_bonded (rs ! i) \<noteq> Some o'"
  shows "correct_bonds f (ladder_unstake rs i a o' n) = correct_bonds f rs"
    and "incorrect_bonds f (ladder_unstake rs i a o' n) = incorrect_bonds f rs"
    and "correct_stake f (ladder_unstake rs i a o' n) = correct_stake f rs"
proof -
  let ?rs = "ladder_unstake rs i a o' n"
  show "correct_bonds f ?rs = correct_bonds f rs" "incorrect_bonds f ?rs = incorrect_bonds f rs"
    unfolding correct_bonds_def incorrect_bonds_def ladder_unstake_def
    using assms(1) by (subst list_map_update_same; simp)+
  have "correct_stake f ?rs b = correct_stake f rs b" for b
    unfolding correct_stake_def ladder_unstake_def
    using assms by (subst list_map_update_same) (auto simp: entry_apply)
  then show "correct_stake f ?rs = correct_stake f rs" by (simp add: fun_eq_iff)
qed

lemma payout_unstake:
  assumes "i < length rs" and "sr_bonded (rs ! i) \<noteq> Some o'"
  shows "ladder_payout f (ladder_unstake rs i a o' n) = ladder_payout f rs"
  by (simp add: ladder_payout_def claims_unstake [OF assms] fun_eq_iff)

lemma debt_unstake:
  assumes "covered rs" and i: "i < length rs" and nb: "sr_bonded (rs ! i) \<noteq> Some o'"
    and le: "n \<le> sr_stakes (rs ! i) o' a"
  shows "debt f (ladder_unstake rs i a o' n) + n = debt f rs"
proof -
  have fin: "finite_table (sr_stakes (rs ! i))" using assms(1) i by (simp add: covered_def)
  have "(\<Sum>r\<leftarrow>ladder_unstake rs i a o' n. loose_stakes r) + n = (\<Sum>r\<leftarrow>rs. loose_stakes r)"
    using sum_list_change [OF i, of loose_stakes "round_unstake (rs ! i) a o' n"] loose_unstake [OF fin nb le]
    by (simp add: ladder_unstake_def)
  then show ?thesis by (simp add: debt_def payout_unstake [OF i nb])
qed

text \<open>Of what is staked, the bonds hold what is not loose.\<close>

lemma staked_split:
  assumes "\<And>r. r \<in> set rs \<Longrightarrow> round_ok r"
  shows "staked rs = (\<Sum>r\<leftarrow>rs. loose_stakes r) + (correct_bonds f rs + incorrect_bonds f rs)"
  using assms
proof (induction rs)
  case (Cons r rs)
  have "sum_all (sr_stakes r) = loose_stakes r + (if sr_bonded r = None then 0 else sr_bond r)"
  proof (cases "sr_bonded r")
    case (Some b)
    have "round_ok r" using Cons.prems by simp
    with Some have "finite_table (sr_stakes r)" and "total_of (sr_stakes r b) = sr_bond r"
      by (auto simp: round_ok_def sr_total_def)
    with sum_all_clear [of "sr_stakes r" b] Some show ?thesis by (simp add: loose_stakes_def)
  qed (simp add: loose_stakes_def)
  with Cons show ?case by (auto simp: correct_bonds_def incorrect_bonds_def)
qed (simp add: correct_bonds_def incorrect_bonds_def)

lemma debt_start:
  assumes "ladder base t rs"
  shows "debt f rs \<le> staked rs"
proof -
  have ok: "\<And>r. r \<in> set rs \<Longrightarrow> round_ok r" using assms by (auto simp: ladder_def in_set_conv_nth)
  have cov: "covered rs" by (rule ladder_covered [OF assms])
  have "total_of (ladder_payout f rs) \<le> correct_bonds f rs + incorrect_bonds f rs"
    unfolding total_of_def using ladder_payout_finite [OF cov, of f]
    by (intro sum_payout [OF cov]) (simp add: finite_support_def)
  with staked_split [of rs f, OF ok] show ?thesis by (simp add: debt_def)
qed

section \<open>The fee\<close>

text \<open>What the accounts with correct stake can still claim of a pot, here the fee.\<close>

definition fee_debt :: "nat \<Rightarrow> outcome \<Rightarrow> stake_round list \<Rightarrow> nat" where
  "fee_debt fee f rs = total_of (\<lambda>a. share (correct_stake f rs a) fee (correct_bonds f rs))"

lemma fee_share_finite:
  assumes "covered rs"
  shows "finite_support (\<lambda>a. share (correct_stake f rs a) fee c)"
proof -
  have "{a. share (correct_stake f rs a) fee c \<noteq> 0} \<subseteq> {a. correct_stake f rs a \<noteq> 0}"
    by (auto simp: share_def) (metis div_0 gr0I mult_0)
  with correct_stake_finite [OF assms, of f] show ?thesis
    unfolding finite_support_def by (rule finite_subset [rotated])
qed

lemma fee_debt_start:
  assumes "covered rs"
  shows "fee_debt fee f rs \<le> fee"
  unfolding fee_debt_def total_of_def using fee_share_finite [OF assms, of f fee "correct_bonds f rs"]
  by (intro sum_share sum_correct_stake [OF assms]) (simp_all add: finite_support_def)

lemma fee_debt_claim:
  assumes "covered rs"
  shows "fee_debt fee f (ladder_claim f rs a) + share (correct_stake f rs a) fee (correct_bonds f rs) = fee_debt fee f rs"
proof -
  let ?g = "\<lambda>b. share (correct_stake f rs b) fee (correct_bonds f rs)"
  have "(\<lambda>b. share (correct_stake f (ladder_claim f rs a) b) fee (correct_bonds f (ladder_claim f rs a))) = ?g(a := 0)"
    by (auto simp: fun_eq_iff correct_stake_claim share_def)
  with total_upd [OF fee_share_finite [OF assms, of f fee "correct_bonds f rs"], of a 0] show ?thesis
    by (simp add: fee_debt_def)
qed

lemma fee_debt_unstake:
  "i < length rs \<Longrightarrow> sr_bonded (rs ! i) \<noteq> Some o' \<Longrightarrow> fee_debt fee f (ladder_unstake rs i a o' n) = fee_debt fee f rs"
  by (simp add: fee_debt_def claims_unstake)

end
