(* ===== verification/Request_Refinement.thy ===== *)
theory Request_Refinement
  imports Data_Request Rounds
begin

text \<open>
  The contract's requests implement the game of \<open>Rounds\<close>: the windows of a request, read
  through their storage handles, are a list of rounds, and each method of \<open>Data_Request\<close> acts
  on that list as the abstract operation does. Other requests keep their rounds, because no
  two requests share a storage prefix.
\<close>

section \<open>The view of a request\<close>

definition round_of :: "oracle_storage \<Rightarrow> resolution_window \<Rightarrow> stake_round" where
  "round_of st win =
     \<lparr>sr_bond = unat (rw_bond_size win), sr_stakes = win_user st win, sr_bonded = rw_bonded_outcome win\<rparr>"

definition windows_of :: "oracle_storage \<Rightarrow> vector_handle \<Rightarrow> resolution_window list" where
  "windows_of st h = vec_elems (st_windows st) h"

definition rounds_of :: "oracle_storage \<Rightarrow> vector_handle \<Rightarrow> stake_round list" where
  "rounds_of st h = map (round_of st) (windows_of st h)"

text \<open>The part of the invariant that survives claims: the recorded totals bound the stakes.\<close>

definition win_bounded :: "oracle_storage \<Rightarrow> resolution_window \<Rightarrow> bool" where
  "win_bounded st win \<longleftrightarrow> win_ok st win \<and> finite_table (win_user st win) \<and>
     (\<forall>outc. total_of (win_user st win outc) \<le> win_total st win outc \<and>
        win_total st win outc \<le> unat (rw_bond_size win))"

lemma win_balanced_bounded: "win_balanced st win \<Longrightarrow> win_bounded st win"
  by (simp add: win_balanced_def win_bounded_def)

text \<open>No stake is stored yet for a round.\<close>

definition blank :: "oracle_storage \<Rightarrow> u64 \<Rightarrow> u16 \<Rightarrow> bool" where
  "blank st i r \<longleftrightarrow> (\<forall>k. st_stakes st (ots_prefix i r, k) = None) \<and>
     (\<forall>a k. st_stakes st (user_prefix i r a, k) = None) \<and> (\<forall>a. st_users st (utots_prefix i r, a) = None)"

definition window_key :: "resolution_window \<Rightarrow> u64 \<times> u16" where
  "window_key win = (rw_dr_id win, rw_round win)"

text \<open>The windows of request \<open>i\<close>, under handle \<open>h\<close>; nothing is stored from round \<open>n\<close> on.\<close>

definition windows_upto :: "oracle_storage \<Rightarrow> u64 \<Rightarrow> vector_handle \<Rightarrow> nat \<Rightarrow> bool" where
  "windows_upto st i h n \<longleftrightarrow> vec_prefix h = windows_prefix i \<and> vec_ok (st_windows st) h \<and>
     (\<forall>r < unat (vec_len h). window_key (windows_of st h ! r) = (i, of_nat r) \<and>
        win_bounded st (windows_of st h ! r)) \<and>
     (\<forall>r. n \<le> unat r \<longrightarrow> blank st i r)"

definition windows_ok :: "oracle_storage \<Rightarrow> u64 \<Rightarrow> vector_handle \<Rightarrow> bool" where
  "windows_ok st i h \<longleftrightarrow> windows_upto st i h (unat (vec_len h))"

definition windows_balanced :: "oracle_storage \<Rightarrow> vector_handle \<Rightarrow> bool" where
  "windows_balanced st h \<longleftrightarrow> (\<forall>win \<in> set (windows_of st h). win_balanced st win)"

lemma windows_ok_def': "windows_ok st i h \<longleftrightarrow> vec_prefix h = windows_prefix i \<and> vec_ok (st_windows st) h \<and>
     (\<forall>r < unat (vec_len h). window_key (windows_of st h ! r) = (i, of_nat r) \<and>
        win_bounded st (windows_of st h ! r)) \<and>
     (\<forall>r. unat (vec_len h) \<le> unat r \<longrightarrow> blank st i r)"
  by (simp add: windows_ok_def windows_upto_def)

lemma windows_ok_upto: "windows_ok st i h \<Longrightarrow> windows_upto st i h (Suc (unat (vec_len h)))"
  by (simp add: windows_ok_def windows_upto_def)

lemma length_rounds_of [simp]: "length (rounds_of st h) = unat (vec_len h)"
  by (simp add: rounds_of_def windows_of_def)

lemma length_windows_of [simp]: "length (windows_of st h) = unat (vec_len h)"
  by (simp add: windows_of_def)

lemma rounds_of_nth: "r < unat (vec_len h) \<Longrightarrow> rounds_of st h ! r = round_of st (windows_of st h ! r)"
  by (simp add: rounds_of_def)

lemma round_of_bonded [simp]: "round_of st (win\<lparr>rw_bonded_outcome := b\<rparr>) = (round_of st win)\<lparr>sr_bonded := b\<rparr>"
  by (simp add: round_of_def)

lemma win_bounded_bonded [simp]: "win_bounded st (win\<lparr>rw_bonded_outcome := b\<rparr>) = win_bounded st win"
  by (simp add: win_bounded_def)

lemma win_balanced_bonded [simp]: "win_balanced st (win\<lparr>rw_bonded_outcome := b\<rparr>) = win_balanced st win"
  by (simp add: win_balanced_def)

lemma window_key_bonded [simp]: "window_key (win\<lparr>rw_bonded_outcome := b\<rparr>) = window_key win"
  by (simp add: window_key_def)

section \<open>Storage that an operation on a request leaves alone\<close>

definition request_frame :: "u64 \<Rightarrow> oracle_storage \<Rightarrow> oracle_storage \<Rightarrow> bool" where
  "request_frame i st st' \<longleftrightarrow>
     st_whitelist st' = st_whitelist st \<and> st_configs st' = st_configs st \<and>
     st_requests st' = st_requests st \<and> st_accounts st' = st_accounts st \<and>
     (\<forall>p k. p \<noteq> windows_prefix i \<longrightarrow> st_windows st' (p, k) = st_windows st (p, k)) \<and>
     (\<forall>p k. (\<forall>r. p \<noteq> ots_prefix i r) \<longrightarrow> (\<forall>r a. p \<noteq> user_prefix i r a) \<longrightarrow>
        st_stakes st' (p, k) = st_stakes st (p, k)) \<and>
     (\<forall>p k. (\<forall>r. p \<noteq> utots_prefix i r) \<longrightarrow> st_users st' (p, k) = st_users st (p, k))"

lemma request_frame_refl [simp]: "request_frame i st st"
  by (simp add: request_frame_def)

lemma request_frame_trans: "request_frame i st st' \<Longrightarrow> request_frame i st' st'' \<Longrightarrow> request_frame i st st''"
  by (simp add: request_frame_def)

lemma windows_prefix_inject [simp]: "windows_prefix i = windows_prefix j \<longleftrightarrow> i = j"
  by (simp add: windows_prefix_def show_u64_def unat_eq_iff [of i j])

lemma put_stake_frame:
  assumes "win_ok st win"
  shows "request_frame (rw_dr_id win) st (put_stake st win a outc T U)"
  using win_okD [OF assms] by (auto simp: request_frame_def put_stake_def lm_insert_def)

lemma drop_stake_frame:
  assumes "win_ok st win"
  shows "request_frame (rw_dr_id win) st (drop_stake st win a outc)"
  using win_okD(3) [OF assms] by (auto simp: request_frame_def drop_stake_def lm_remove_def)

lemma windows_frame:
  "(\<And>p k. p \<noteq> windows_prefix i \<Longrightarrow> ws (p, k) = st_windows st (p, k)) \<Longrightarrow>
   request_frame i st (st\<lparr>st_windows := ws\<rparr>)"
  by (simp add: request_frame_def)

text \<open>What the views of another request see.\<close>

lemma frame_window:
  assumes fr: "request_frame i st st'" and key: "rw_dr_id win \<noteq> i" and ok: "win_ok st win"
  shows "win_total st' win = win_total st win" "win_user st' win = win_user st win" "win_ok st' win"
proof -
  note c = win_okD [OF ok]
  have users: "lm_get (st_users st') (rw_user_to_outcome_to_stake win) a =
      lm_get (st_users st) (rw_user_to_outcome_to_stake win) a" for a
    using fr key by (auto simp: request_frame_def lm_get_def c(2))
  then have h: "user_handle st' win = user_handle st win"
    by (simp add: user_handle_def fun_eq_iff)
  show t: "win_total st' win = win_total st win"
    using fr key by (auto simp: request_frame_def win_total_def lm_get_def c(1) fun_eq_iff)
  show u: "win_user st' win = win_user st win"
    using fr key by (auto simp: request_frame_def win_user_def h c(3) lm_get_def fun_eq_iff)
  show "win_ok st' win" using ok unfolding win_ok_def h u users .
qed

lemma frame_blank:
  assumes "request_frame i st st'" and "j \<noteq> i" and "blank st j r"
  shows "blank st' j r"
proof -
  have "st_stakes st' (ots_prefix j r, k) = None" for k
    using assms by (auto simp: request_frame_def blank_def)
  moreover have "st_stakes st' (user_prefix j r a, k) = None" for a k
    using assms by (auto simp: request_frame_def blank_def)
  moreover have "st_users st' (utots_prefix j r, a) = None" for a
    using assms by (auto simp: request_frame_def blank_def)
  ultimately show ?thesis by (simp add: blank_def)
qed

lemma frame_other:
  assumes fr: "request_frame i st st'" and other: "j \<noteq> i" and ok: "windows_ok st j h"
  shows "windows_of st' h = windows_of st h" "windows_ok st' j h" "rounds_of st' h = rounds_of st h"
    "windows_balanced st h \<Longrightarrow> windows_balanced st' h"
proof -
  from ok have pre: "vec_prefix h = windows_prefix j" by (simp add: windows_ok_def')
  have same: "st_windows st' (vec_prefix h, k) = st_windows st (vec_prefix h, k)" for k
    using fr other by (simp add: request_frame_def pre)
  show w: "windows_of st' h = windows_of st h"
    unfolding windows_of_def by (rule vec_elems_frame) (rule same)
  have win: "win_total st' win = win_total st win \<and> win_user st' win = win_user st win \<and> win_ok st' win"
    if "win \<in> set (windows_of st h)" for win
  proof -
    from that ok have "rw_dr_id win = j \<and> win_ok st win"
      by (auto simp: in_set_conv_nth windows_ok_def' window_key_def win_bounded_def)
    with frame_window [OF fr, of win] other show ?thesis by simp
  qed
  then show "rounds_of st' h = rounds_of st h"
    by (auto simp: rounds_of_def w round_of_def)
  have "win_bounded st' (windows_of st h ! r)" if "r < length (windows_of st h)" for r
    using win [of "windows_of st h ! r"] that ok by (simp add: windows_ok_def' win_bounded_def)
  moreover have "vec_ok (st_windows st') h"
    using ok vec_ok_frame [of h "st_windows st'" "st_windows st"] same by (simp add: windows_ok_def')
  ultimately show "windows_ok st' j h"
    using ok frame_blank [OF fr other] by (simp add: windows_ok_def' w)
  show "windows_balanced st h \<Longrightarrow> windows_balanced st' h"
    using win by (simp add: windows_balanced_def w win_balanced_def)
qed

section \<open>Storage that an operation on a window leaves alone\<close>

definition window_frame :: "u64 \<times> u16 \<Rightarrow> oracle_storage \<Rightarrow> oracle_storage \<Rightarrow> bool" where
  "window_frame key st st' \<longleftrightarrow> request_frame (fst key) st st' \<and> st_windows st' = st_windows st \<and>
     (\<forall>win. win_ok st win \<longrightarrow> window_key win \<noteq> key \<longrightarrow>
        win_total st' win = win_total st win \<and> win_user st' win = win_user st win \<and> win_ok st' win) \<and>
     (\<forall>i r. (i, r) \<noteq> key \<longrightarrow> blank st i r \<longrightarrow> blank st' i r)"

lemma window_frame_refl [simp]: "window_frame key st st"
  by (simp add: window_frame_def)

lemma put_stake_blank:
  assumes "win_ok st win" and "(i, r) \<noteq> window_key win" and "blank st i r"
  shows "blank (put_stake st win a outc T U) i r"
  using assms(2,3) win_okD [OF assms(1)]
  by (auto simp: blank_def put_stake_def lm_insert_def window_key_def)

lemma put_stake_window_frame:
  assumes "win_ok st win"
  shows "window_frame (window_key win) st (put_stake st win a outc T U)"
  using put_stake_frame [OF assms] put_stake_other [OF assms] put_stake_blank [OF assms]
  by (auto simp: window_frame_def window_key_def put_stake_def)

lemma drop_stake_blank:
  assumes "win_ok st win" and "blank st i r"
  shows "blank (drop_stake st win a outc) i r"
  using assms(2) win_okD(3) [OF assms(1)]
  by (auto simp: blank_def drop_stake_def lm_remove_def)

lemma drop_stake_window_frame:
  assumes "win_ok st win"
  shows "window_frame (window_key win) st (drop_stake st win a outc)"
  using drop_stake_frame [OF assms] drop_stake_other [OF assms] drop_stake_total [OF assms]
    drop_stake_blank [OF assms]
  by (auto simp: window_frame_def window_key_def) (auto simp: drop_stake_def)

lemma window_frame_other:
  assumes "window_frame key st st'" and "window_key win \<noteq> key"
  shows "win_bounded st win \<Longrightarrow> win_bounded st' win \<and> round_of st' win = round_of st win"
    and "win_balanced st win \<Longrightarrow> win_balanced st' win"
  using assms by (auto simp: window_frame_def win_bounded_def win_balanced_def round_of_def)

text \<open>The views of stakes do not read the vector of windows.\<close>

lemma views_windows [simp]:
  "win_bounded (st\<lparr>st_windows := ws\<rparr>) = win_bounded st"
  "win_balanced (st\<lparr>st_windows := ws\<rparr>) = win_balanced st"
  "round_of (st\<lparr>st_windows := ws\<rparr>) = round_of st"
  "blank (st\<lparr>st_windows := ws\<rparr>) = blank st"
proof -
  note c = win_views_cong [of "st\<lparr>st_windows := ws\<rparr>" st, simplified]
  show "win_bounded (st\<lparr>st_windows := ws\<rparr>) = win_bounded st"
    by (simp add: win_bounded_def c fun_eq_iff)
  show "win_balanced (st\<lparr>st_windows := ws\<rparr>) = win_balanced st"
    by (simp add: win_balanced_def c fun_eq_iff)
  show "round_of (st\<lparr>st_windows := ws\<rparr>) = round_of st"
    by (simp add: round_of_def c fun_eq_iff)
  show "blank (st\<lparr>st_windows := ws\<rparr>) = blank st"
    by (simp add: blank_def fun_eq_iff)
qed

text \<open>
  Windows after a change of one of them: in place (unstaking, claims), written back
  (\<open>replace\<close>), or appended (\<open>push\<close>).
\<close>

lemma rounds_in_place:
  assumes ok: "windows_ok st i h" and k: "k < unat (vec_len h)" and few: "unat (vec_len h) \<le> 2 ^ 16"
    and fr: "window_frame (i, of_nat k) st st'" and bd: "win_bounded st' (windows_of st h ! k)"
  shows "windows_ok st' i h" "windows_of st' h = windows_of st h"
    "rounds_of st' h = (rounds_of st h)[k := round_of st' (windows_of st h ! k)]"
    "windows_balanced st h \<Longrightarrow> win_balanced st' (windows_of st h ! k) \<Longrightarrow> windows_balanced st' h"
proof -
  from fr have vs: "st_windows st' = st_windows st" by (simp add: window_frame_def)
  show w: "windows_of st' h = windows_of st h" by (simp add: windows_of_def vs)
  have distinct: "(of_nat r :: u16) \<noteq> of_nat k" if "r < unat (vec_len h)" "r \<noteq> k" for r
  proof -
    from that few k have "r < 2 ^ LENGTH(16)" "k < 2 ^ LENGTH(16)" by simp_all
    then have "unat (of_nat r :: u16) = r" "unat (of_nat k :: u16) = k" by (simp_all only: unat_of_nat_fits)
    with that show ?thesis by metis
  qed
  have key: "window_key (windows_of st h ! r) = (i, of_nat r)" "win_bounded st (windows_of st h ! r)"
    if "r < unat (vec_len h)" for r
    using ok that by (simp_all add: windows_ok_def')
  have other: "win_bounded st' (windows_of st h ! r) \<and> round_of st' (windows_of st h ! r) = round_of st (windows_of st h ! r)"
    if "r < unat (vec_len h)" "r \<noteq> k" for r
    using window_frame_other(1) [OF fr] key [OF that(1)] distinct [OF that] by simp
  have bl: "blank st' i r" if "unat (vec_len h) \<le> unat r" for r
  proof -
    have "r \<noteq> of_nat k"
    proof
      assume "r = of_nat k"
      then have "unat r = k" using k few by (simp add: unat_of_nat_fits)
      with that k show False by simp
    qed
    with fr ok that show ?thesis by (simp add: window_frame_def windows_ok_def')
  qed
  have "win_bounded st' (windows_of st h ! r)" if "r < unat (vec_len h)" for r
    using other [OF that] bd by (cases "r = k") simp_all
  then show "windows_ok st' i h"
    using ok key bl by (simp add: windows_ok_def' w vs)
  show "rounds_of st' h = (rounds_of st h)[k := round_of st' (windows_of st h ! k)]"
  proof (rule nth_equalityI)
    fix r
    assume "r < length (rounds_of st' h)"
    with k show "rounds_of st' h ! r = (rounds_of st h)[k := round_of st' (windows_of st h ! k)] ! r"
      by (cases "r = k") (simp_all add: rounds_of_nth w other)
  qed simp
  assume bal: "windows_balanced st h" and "win_balanced st' (windows_of st h ! k)"
  then have "win_balanced st' (windows_of st h ! r)" if "r < unat (vec_len h)" for r
    using window_frame_other(2) [OF fr, of "windows_of st h ! r"] key [OF that] distinct [OF that] that
    by (cases "r = k") (simp_all add: windows_balanced_def)
  then show "windows_balanced st' h"
    by (auto simp: windows_balanced_def w in_set_conv_nth)
qed

lemma rounds_replace:
  assumes ok: "windows_ok st i h" and rep: "vec_replace (st_windows st) h j win = Inr ws"
    and key: "window_key win = (i, of_nat (unat j))" and bd: "win_bounded st win"
  defines "st' \<equiv> st\<lparr>st_windows := ws\<rparr>"
  shows "windows_ok st' i h" "windows_of st' h = (windows_of st h)[unat j := win]"
    "rounds_of st' h = (rounds_of st h)[unat j := round_of st win]"
    "unat j < unat (vec_len h)" "request_frame i st st'"
    "windows_balanced st h \<Longrightarrow> win_balanced st win \<Longrightarrow> windows_balanced st' h"
proof -
  from ok have vok: "vec_ok (st_windows st) h" and pre: "vec_prefix h = windows_prefix i"
    by (simp_all add: windows_ok_def')
  from vec.replace_inv [OF rep vok] have j: "unat j < unat (vec_len h)" and vok': "vec_ok ws h"
    and w: "windows_of st' h = (windows_of st h)[unat j := win]"
    by (simp_all add: windows_of_def st'_def)
  show "windows_of st' h = (windows_of st h)[unat j := win]" "unat j < unat (vec_len h)" by fact+
  show "rounds_of st' h = (rounds_of st h)[unat j := round_of st win]"
    unfolding rounds_of_def w by (simp add: map_update st'_def)
  have "window_key (windows_of st' h ! r) = (i, of_nat r) \<and> win_bounded st (windows_of st' h ! r)"
    if "r < unat (vec_len h)" for r
    using ok that j key bd by (cases "r = unat j") (simp_all add: w windows_ok_def')
  then show "windows_ok st' i h"
    using ok vok' pre by (simp add: windows_ok_def' st'_def)
  show "request_frame i st st'"
    using vec_replace_other [OF rep] unfolding st'_def by (intro windows_frame) (simp add: pre)
  show "windows_balanced st h \<Longrightarrow> win_balanced st win \<Longrightarrow> windows_balanced st' h"
    using set_update_subset_insert [of "windows_of st h" "unat j" win]
    by (auto simp: windows_balanced_def w) (auto simp: st'_def)
qed

lemma rounds_push:
  assumes ok: "windows_upto st i h (Suc (unat (vec_len h)))" and push: "vec_push (st_windows st) h win = Inr (ws, h')"
    and key: "window_key win = (i, of_nat (unat (vec_len h)))" and bd: "win_bounded st win"
    and few: "unat (vec_len h) < 2 ^ 16"
  defines "st' \<equiv> st\<lparr>st_windows := ws\<rparr>"
  shows "windows_ok st' i h'" "windows_of st' h' = windows_of st h @ [win]"
    "rounds_of st' h' = rounds_of st h @ [round_of st win]" "request_frame i st st'"
    "windows_balanced st h \<Longrightarrow> win_balanced st win \<Longrightarrow> windows_balanced st' h'"
proof -
  from ok have vok: "vec_ok (st_windows st) h" and pre: "vec_prefix h = windows_prefix i"
    by (simp_all add: windows_upto_def)
  from vec_push_elems [OF push vok] have vok': "vec_ok ws h'" and pre': "vec_prefix h' = windows_prefix i"
    and w: "windows_of st' h' = windows_of st h @ [win]"
    by (simp_all add: windows_of_def st'_def pre)
  show "windows_of st' h' = windows_of st h @ [win]" by fact
  from arg_cong [OF w, of length] have len: "unat (vec_len h') = Suc (unat (vec_len h))" by simp
  show "rounds_of st' h' = rounds_of st h @ [round_of st win]"
    unfolding rounds_of_def w by (simp add: st'_def)
  have "window_key (windows_of st' h' ! r) = (i, of_nat r) \<and> win_bounded st (windows_of st' h' ! r)"
    if "r < unat (vec_len h')" for r
    using ok that key bd by (auto simp: w windows_upto_def nth_append len less_Suc_eq)
  then show "windows_ok st' i h'"
    using ok vok' pre' by (simp add: windows_ok_def windows_upto_def st'_def len)
  show "request_frame i st st'"
    using vec_push_other [OF push] unfolding st'_def by (intro windows_frame) (simp add: pre)
  show "windows_balanced st h \<Longrightarrow> win_balanced st win \<Longrightarrow> windows_balanced st' h'"
    by (auto simp: windows_balanced_def w) (auto simp: st'_def)
qed

section \<open>One window\<close>

lemma blank_fresh:
  assumes "blank st i r"
  shows "win_balanced st (window_init i r b p s)" "window_key (window_init i r b p s) = (i, r)"
    "unat b * 2 < 2 ^ 128 \<Longrightarrow> round_of st (window_init i r b p s) = fresh_round (2 * unat b)"
proof -
  let ?win = "window_init i r b p s"
  have h: "user_handle st ?win a = user_prefix i r a" for a
    using assms by (simp add: user_handle_def window_init_def blank_def lm_get_def)
  have u: "win_user st ?win = (\<lambda>_ _. 0)"
    using assms by (simp add: win_user_def h blank_def lm_get_def fun_eq_iff)
  have t: "win_total st ?win = (\<lambda>_. 0)"
    using assms by (simp add: win_total_def window_init_def blank_def lm_get_def fun_eq_iff)
  have "win_ok st ?win"
    unfolding win_ok_def u h by (simp add: window_init_def)
  then show "win_balanced st ?win"
    by (simp add: win_balanced_def u t)
  show "window_key ?win = (i, r)" by (simp add: window_key_def window_init_def)
  show "unat b * 2 < 2 ^ 128 \<Longrightarrow> round_of st ?win = fresh_round (2 * unat b)"
    unfolding round_of_def u by (simp add: fresh_round_def window_init_def exact)
qed

lemma sr_total_round_of: "win_balanced st win \<Longrightarrow> sr_total (round_of st win) outc = win_total st win outc"
  by (simp add: sr_total_def round_of_def win_balanced_def)

lemma rw_stake_round:
  assumes call: "rw_stake E win a outc n w = Inr ((unspent, win'), t)" and bal: "win_balanced (store w) win"
  shows "round_of (store t) win' = round_stake (round_of (store w) win) a outc (unat n)"
    "unat unspent = unat n - round_taken (round_of (store w) win) outc (unat n)"
    "win_balanced (store t) win'" "win_balanced (store t) win" "window_key win' = window_key win" "rw_bond_size win' = rw_bond_size win"
    "window_frame (window_key win) (store w) (store t)" "self t = self w" "outbox t = outbox w"
proof -
  from bal have ok: "win_ok (store w) win" by (simp add: win_balanced_def)
  note view = rw_stake_view [OF call ok] and inv = rw_stake_Inr [OF call]
  let ?r = "round_of (store w) win"
  have taken: "round_taken ?r outc (unat n) =
      min (unat n) (unat (rw_bond_size win) - win_total (store w) win outc)"
    by (simp add: round_taken_def sr_total_round_of [OF bal]) (simp add: round_of_def)
  show "round_of (store t) win' = round_stake ?r a outc (unat n)"
    unfolding view(6) round_stake_def Let_def taken sr_total_round_of [OF bal]
    by (simp add: round_of_def view(3,4) entry_def)
  show "unat unspent = unat n - round_taken ?r outc (unat n)"
    using view(1) unfolding taken by simp
  show bal': "win_balanced (store t) win'" by (rule rw_stake_balanced [OF call bal])
  then show "win_balanced (store t) win" unfolding view(6) by simp
  show "window_key win' = window_key win" "rw_bond_size win' = rw_bond_size win"
    unfolding view(6) by (simp_all add: window_key_def)
  show "window_frame (window_key win) (store w) (store t)"
    using inv put_stake_window_frame [OF ok] by simp
  show "self t = self w" "outbox t = outbox w" using inv by simp_all
qed

lemma rw_unstake_bounded:
  assumes call: "rw_unstake E win a outc n w = Inr (r, t)" and bd: "win_bounded (store w) win"
  shows "round_of (store t) win = round_unstake (round_of (store w) win) a outc (unat n)"
    "unat n \<le> sr_stakes (round_of (store w) win) outc a"
    "sr_bonded (round_of (store w) win) \<noteq> Some outc" "r = n"
    "win_bounded (store t) win" "window_frame (window_key win) (store w) (store t)"
    "self t = self w" "outbox t = outbox w"
proof -
  from bd have ok: "win_ok (store w) win" and fin: "finite_table (win_user (store w) win)"
    and le: "\<And>p. total_of (win_user (store w) win p) \<le> win_total (store w) win p"
    and lb: "\<And>p. win_total (store w) win p \<le> unat (rw_bond_size win)"
    by (simp_all add: win_bounded_def)
  note view = rw_unstake_view [OF call ok] and inv = rw_unstake_Inr [OF call]
  show "round_of (store t) win = round_unstake (round_of (store w) win) a outc (unat n)"
    by (simp add: round_of_def round_unstake_def view(6) entry_def)
  show "unat n \<le> sr_stakes (round_of (store w) win) outc a"
    "sr_bonded (round_of (store w) win) \<noteq> Some outc"
    using view(2,4) by (simp_all add: round_of_def)
  show "r = n" by (rule view(1))
  have u: "win_user (store t) win = entry (win_user (store w) win) outc a (win_user (store w) win outc a - unat n)"
    by (simp add: view(6) entry_def)
  have "total_of (win_user (store t) win p) \<le> win_total (store t) win p" for p
  proof (cases "p = outc")
    case True
    with total_upd [OF finite_table_row [OF fin], of outc a "win_user (store w) win outc a - unat n"]
      view(2) le [of outc] show ?thesis
      unfolding u view(5) by simp
  next
    case False
    then show ?thesis using le [of p] by (simp add: u view(5))
  qed
  moreover have "win_total (store t) win p \<le> unat (rw_bond_size win)" for p
    using lb [of p] by (auto simp: view(5))
  ultimately show "win_bounded (store t) win"
    using view(7) fin by (simp add: win_bounded_def u)
  show "window_frame (window_key win) (store w) (store t)"
    using inv put_stake_window_frame [OF ok] by simp
  show "self t = self w" "outbox t = outbox w" using inv by simp_all
qed

section \<open>Staking on a request\<close>

text \<open>
  The invariant of an active request, with base bond \<open>base\<close>: its windows are in order, their
  totals are exact, and their rounds form a ladder.
\<close>

definition game :: "oracle_storage \<Rightarrow> active_data_request \<Rightarrow> nat \<Rightarrow> bool" where
  "game st d base \<longleftrightarrow>
     windows_ok st (adr_id d) (adr_resolution_windows d) \<and>
     windows_balanced st (adr_resolution_windows d) \<and>
     (\<exists>b. calc_resolution_bond d = Inr b \<and> unat b = base) \<and> 0 < base \<and>
     ladder base (adr_final_arbitrator_triggered d) (rounds_of st (adr_resolution_windows d))"

definition rounds :: "oracle_storage \<Rightarrow> active_data_request \<Rightarrow> stake_round list" where
  "rounds st d = rounds_of st (adr_resolution_windows d)"

lemma sr_bond_round_of [simp]: "sr_bond (round_of st win) = unat (rw_bond_size win)"
  by (simp add: round_of_def)

lemma sr_bonded_round_of [simp]: "sr_bonded (round_of st win) = rw_bonded_outcome win"
  by (simp add: round_of_def)

lemma ladder_few_windows:
  assumes "ladder base t (rounds_of st h)" and "0 < base"
  shows "unat (vec_len h) < 128"
proof -
  have "sr_bond r < 2 ^ 128" if "r \<in> set (rounds_of st h)" for r
    using that unat_bound [where 'a = 128] by (auto simp: rounds_of_def)
  from ladder_length [OF assms this] have "length (rounds_of st h) < 128"
    by (auto simp del: length_rounds_of)
  then show ?thesis by simp
qed

lemma rounds_of_empty: "rounds_of st h = [] \<longleftrightarrow> vec_len h = 0"
  by (metis length_0_conv length_rounds_of unat_eq_0)

lemma windows_at_Inr [run]: "window_at h i w = Inr (win, t) \<longleftrightarrow>
    vec_get (st_windows (store w)) h i = Inr (Some win) \<and> t = w"
  by (auto simp: window_at_def run)

lemma window_at_last:
  assumes "vec_ok (st_windows st) h" and "vec_len h \<noteq> 0"
    and "vec_get (st_windows st) h (vec_len h - 1) = Inr (Some win)"
  shows "win = last (windows_of st h)" "unat (vec_len h - 1) = unat (vec_len h) - 1"
    "win = windows_of st h ! (unat (vec_len h) - 1)"
proof -
  have "windows_of st h \<noteq> []" using assms(2) by (metis length_0_conv length_windows_of unat_eq_0)
  then show "win = last (windows_of st h)"
    using vec.get_last [OF assms(1)] assms(3) by (simp add: windows_of_def)
  with \<open>windows_of st h \<noteq> []\<close> show "win = windows_of st h ! (unat (vec_len h) - 1)"
    by (simp add: last_conv_nth)
  show "unat (vec_len h - 1) = unat (vec_len h) - 1"
    using assms(2) by (simp add: unat_minus_one)
qed

lemma current_window_round:
  assumes call: "current_window E d w = Inr (win, t)" and g: "game (store w) d base"
  shows "store t = store w" "self t = self w" "outbox t = outbox w"
    "round_of (store w) win = current_round base (rounds (store w) d)"
    "win_balanced (store w) win"
    "window_key win = (adr_id d, of_nat (unat (vec_len (adr_resolution_windows d)) - 1))"
    "vec_len (adr_resolution_windows d) \<noteq> 0 \<Longrightarrow>
      win = windows_of (store w) (adr_resolution_windows d) ! (unat (vec_len (adr_resolution_windows d)) - 1)"
proof -
  let ?h = "adr_resolution_windows d"
  from g have ok: "windows_ok (store w) (adr_id d) ?h" and bal: "windows_balanced (store w) ?h"
    by (simp_all add: game_def)
  have "store t = store w \<and> self t = self w \<and> outbox t = outbox w \<and>
    round_of (store w) win = current_round base (rounds (store w) d) \<and> win_balanced (store w) win \<and>
    window_key win = (adr_id d, of_nat (unat (vec_len ?h) - 1)) \<and>
    (vec_len ?h \<noteq> 0 \<longrightarrow> win = windows_of (store w) ?h ! (unat (vec_len ?h) - 1))"
  proof (cases "vec_len ?h = 0")
    case True
    from g obtain b where b: "calc_resolution_bond d = Inr b" "unat b = base" by (auto simp: game_def)
    from call True b have fits: "unat b * 2 < 2 ^ 128"
      and win: "win = window_init (adr_id d) 0 b (adr_initial_challenge_period d) (block_timestamp E)"
      and t: "t = w\<lparr>logs := logs w @ [log_resolution_window E win]\<rparr>"
      by (auto simp: current_window_def Let_def run)
    from ok True have "blank (store w) (adr_id d) 0" by (simp add: windows_ok_def')
    note fresh = blank_fresh [OF this, of b "adr_initial_challenge_period d" "block_timestamp E"]
    have "rounds (store w) d = []" using True by (simp add: rounds_def rounds_of_empty)
    with fresh fits True show ?thesis
      by (simp add: win t current_round_def b)
  next
    case False
    from call False have get: "vec_get (st_windows (store w)) ?h (vec_len ?h - 1) = Inr (Some win)" and t: "t = w"
      by (auto simp: current_window_def Let_def run)
    from ok have vok: "vec_ok (st_windows (store w)) ?h" by (simp add: windows_ok_def')
    note l = window_at_last [OF vok False get]
    from False have k: "unat (vec_len ?h) - 1 < unat (vec_len ?h)" by (simp add: unat_gt_0)
    have ne: "rounds (store w) d \<noteq> []" using False by (simp add: rounds_def rounds_of_empty)
    then have "round_of (store w) win = current_round base (rounds (store w) d)"
      using k by (simp add: current_round_def last_conv_nth rounds_def rounds_of_nth l(3))
    moreover have "win_balanced (store w) win"
      using bal k by (simp add: windows_balanced_def l(3))
    moreover have "window_key win = (adr_id d, of_nat (unat (vec_len ?h) - 1))"
      using ok k by (simp add: windows_ok_def' l(3))
    ultimately show ?thesis using l(3) by (simp add: t)
  qed
  then show "store t = store w" "self t = self w" "outbox t = outbox w"
    "round_of (store w) win = current_round base (rounds (store w) d)"
    "win_balanced (store w) win"
    "window_key win = (adr_id d, of_nat (unat (vec_len ?h) - 1))"
    "vec_len ?h \<noteq> 0 \<Longrightarrow> win = windows_of (store w) ?h ! (unat (vec_len ?h) - 1)"
    by simp_all
qed

text \<open>Writing the window back, after a stake on it: the last round is replaced.\<close>

lemma store_window_rounds:
  assumes call: "store_window d win' w = Inr (d', t)"
    and ok: "windows_ok st (adr_id d) (adr_resolution_windows d)"
    and bal: "windows_balanced st (adr_resolution_windows d)"
    and few: "unat (vec_len (adr_resolution_windows d)) < 128"
    and fr: "window_frame (adr_id d, of_nat (unat (vec_len (adr_resolution_windows d)) - 1)) st (store w)"
    and key: "window_key win' = (adr_id d, of_nat (unat (vec_len (adr_resolution_windows d)) - 1))"
    and bal': "win_balanced (store w) win'"
    and old: "vec_len (adr_resolution_windows d) \<noteq> 0 \<Longrightarrow>
      win_balanced (store w) (windows_of st (adr_resolution_windows d) ! (unat (vec_len (adr_resolution_windows d)) - 1))"
  shows "\<exists>h'. d' = d\<lparr>adr_resolution_windows := h'\<rparr> \<and> windows_ok (store t) (adr_id d) h' \<and>
    windows_balanced (store t) h' \<and> request_frame (adr_id d) (store w) (store t) \<and>
    rounds_of (store t) h' = butlast (rounds_of st (adr_resolution_windows d)) @ [round_of (store w) win'] \<and>
    unat (vec_len h') = max 1 (unat (vec_len (adr_resolution_windows d))) \<and>
    self t = self w \<and> outbox t = outbox w"
proof (cases "vec_len (adr_resolution_windows d) = 0")
  case True
  let ?h = "adr_resolution_windows d"
  from call True obtain ws h' where push: "vec_push (st_windows (store w)) ?h win' = Inr (ws, h')"
    and d': "d' = d\<lparr>adr_resolution_windows := h'\<rparr>" and t: "t = w\<lparr>store := (store w)\<lparr>st_windows := ws\<rparr>\<rparr>"
    by (auto simp: store_window_def Let_def run)
  have blanks: "blank (store w) (adr_id d) r" if "Suc 0 \<le> unat r" for r
  proof -
    from that have "r \<noteq> 0" by auto
    with fr ok True show ?thesis by (simp add: window_frame_def windows_ok_def')
  qed
  have "windows_upto (store w) (adr_id d) ?h (Suc (unat (vec_len ?h)))"
    using ok True blanks by (simp add: windows_upto_def windows_ok_def' vec_ok_def)
  note p = rounds_push [OF this push _ win_balanced_bounded [OF bal']]
  have "rounds_of (store w) ?h = []" "rounds_of st ?h = []" "windows_balanced (store w) ?h"
    using True by (simp_all add: rounds_of_empty windows_balanced_def windows_of_def vec_elems_def)
  note p = p this
  have "unat (vec_len h') = 1" using arg_cong [OF p(3), of length] True key p(6) by simp
  with p key True bal' show ?thesis
    by (intro exI [of _ h']) (simp add: d' t)
next
  case False
  let ?h = "adr_resolution_windows d" and ?k = "unat (vec_len (adr_resolution_windows d)) - 1"
  from call False obtain ws where rep: "vec_replace (st_windows (store w)) ?h (vec_len ?h - 1) win' = Inr ws"
    and d': "d' = d" and t: "t = w\<lparr>store := (store w)\<lparr>st_windows := ws\<rparr>\<rparr>"
    by (auto simp: store_window_def Let_def run)
  from False have k: "?k < unat (vec_len ?h)" by (simp add: unat_gt_0)
  have j: "unat (vec_len ?h - 1) = ?k" using False by (simp add: unat_minus_one)
  have few': "unat (vec_len ?h) \<le> 2 ^ 16" using few by simp
  note ip = rounds_in_place [OF ok k few' fr win_balanced_bounded [OF old [OF False]]]
  have key': "window_key win' = (adr_id d, of_nat (unat (vec_len ?h - 1)))" using key by (simp add: j)
  note rp = rounds_replace [OF ip(1) rep key' win_balanced_bounded [OF bal']]
  have "rounds_of st ?h \<noteq> []" using False by (simp add: rounds_of_empty)
  then have "(rounds_of st ?h)[?k := round_of (store w) win'] = butlast (rounds_of st ?h) @ [round_of (store w) win']"
    using list_update_last [of "rounds_of st ?h" "round_of (store w) win'"] by simp
  then show ?thesis
    using rp(1,3,5) rp(6) [OF ip(4) [OF bal old [OF False]] bal'] k
    by (intro exI [of _ ?h]) (simp add: d' t j ip(3))
qed

lemma open_next_window_rounds:
  assumes call: "open_next_window E d win w = Inr (d', t)"
    and ok: "windows_ok (store w) (adr_id d) (adr_resolution_windows d)"
    and bal: "windows_balanced (store w) (adr_resolution_windows d)"
    and few: "unat (vec_len (adr_resolution_windows d)) < 2 ^ 16"
  shows "\<exists>h'. d' = d\<lparr>adr_resolution_windows := h'\<rparr> \<and> windows_ok (store t) (adr_id d) h' \<and>
    windows_balanced (store t) h' \<and> request_frame (adr_id d) (store w) (store t) \<and>
    rounds_of (store t) h' =
      rounds_of (store w) (adr_resolution_windows d) @ [fresh_round (2 * unat (rw_bond_size win))] \<and>
    self t = self w \<and> outbox t = outbox w"
proof -
  let ?h = "adr_resolution_windows d" and ?r = "ucast (vec_len (adr_resolution_windows d)) :: u16"
  define p where "p = (if vec_len ?h = 1 then adr_initial_challenge_period d
    else rc_default_challenge_window_duration (adr_request_config d))"
  define nw where nw: "nw = window_init (adr_id d) ?r (rw_bond_size win) p (block_timestamp E)"
  from call have "\<exists>ws h'. vec_push (st_windows (store w)) ?h nw = Inr (ws, h') \<and>
      unat (rw_bond_size win) * 2 < 2 ^ 128 \<and> d' = d\<lparr>adr_resolution_windows := h'\<rparr> \<and>
      store t = (store w)\<lparr>st_windows := ws\<rparr> \<and> self t = self w \<and> outbox t = outbox w"
    unfolding open_next_window_def Let_def p_def [symmetric] nw
    by (simp only: run ex_simps simp_thms) (elim exE conjE, hypsubst, simp)
  then obtain ws h' where fits: "unat (rw_bond_size win) * 2 < 2 ^ 128"
    and push: "vec_push (st_windows (store w)) ?h nw = Inr (ws, h')"
    and d': "d' = d\<lparr>adr_resolution_windows := h'\<rparr>"
    and t: "store t = (store w)\<lparr>st_windows := ws\<rparr>" "self t = self w" "outbox t = outbox w"
    by blast
  have u: "unat ?r = unat (vec_len ?h)" using few by (intro unat_ucast_fits) simp
  have "unat (of_nat (unat (vec_len ?h)) :: u16) = unat (vec_len ?h)" using few by (intro unat_of_nat_fits) simp
  with u have r: "?r = of_nat (unat (vec_len ?h))" by (simp only: unat_eq_iff)
  from u have "blank (store w) (adr_id d) ?r" using ok by (simp add: windows_ok_def')
  note fresh = blank_fresh [OF this, of "rw_bond_size win" p "block_timestamp E", folded nw]
  have key: "window_key nw = (adr_id d, of_nat (unat (vec_len ?h)))" 
    unfolding r [symmetric] by (rule fresh(2))
  note ps = rounds_push [OF windows_ok_upto [OF ok] push key win_balanced_bounded [OF fresh(1)] few]
  show ?thesis
    using ps(1,3,4) ps(5) [OF bal fresh(1)] fresh(3) fits by (auto simp: d' t)
qed

text \<open>The terms of a request, which staking never changes.\<close>

definition same_terms :: "active_data_request \<Rightarrow> active_data_request \<Rightarrow> bool" where
  "same_terms d d' \<longleftrightarrow> adr_id d' = adr_id d \<and> adr_sources d' = adr_sources d \<and>
     adr_outcomes d' = adr_outcomes d \<and> adr_requester d' = adr_requester d \<and>
     adr_global_config_id d' = adr_global_config_id d \<and> adr_request_config d' = adr_request_config d \<and>
     adr_initial_challenge_period d' = adr_initial_challenge_period d \<and>
     adr_description d' = adr_description d \<and> adr_tags d' = adr_tags d \<and>
     adr_data_type d' = adr_data_type d \<and> adr_provider d' = adr_provider d"

lemma same_terms_bond: "same_terms d d' \<Longrightarrow> calc_resolution_bond d' = calc_resolution_bond d"
  by (simp add: same_terms_def calc_resolution_bond_def)

text \<open>The main refinement: staking on a request is \<open>ladder_stake\<close> on its rounds.\<close>

definition stake_spec :: "active_data_request \<Rightarrow> nat \<Rightarrow> stake_round list \<Rightarrow> account \<Rightarrow> outcome \<Rightarrow> nat \<Rightarrow>
    stake_round list \<times> bool" where
  "stake_spec d base = ladder_stake base (unat (rc_final_arbitrator_invoke_amount (adr_request_config d)))"

lemma adr_stake_rounds:
  assumes call: "adr_stake E d a outc n w = Inr ((unspent, d'), t)" and g: "game (store w) d base"
    and open_request: "\<not> adr_final_arbitrator_triggered d"
  shows "stake_spec d base (rounds (store w) d) a outc (unat n) =
      (rounds (store t) d', adr_final_arbitrator_triggered d') \<and>
    unat unspent = unat n - round_taken (current_round base (rounds (store w) d)) outc (unat n) \<and>
    windows_ok (store t) (adr_id d) (adr_resolution_windows d') \<and>
    windows_balanced (store t) (adr_resolution_windows d') \<and>
    request_frame (adr_id d) (store w) (store t) \<and>
    same_terms d d' \<and>
    self t = self w \<and> outbox t = outbox w"
proof -
  let ?h = "adr_resolution_windows d" and ?i = "adr_id d"
  let ?k = "unat (vec_len (adr_resolution_windows d)) - 1"
  from call obtain win w1 win' w2 d1 w3 where
    cur: "current_window E d w = Inr (win, w1)"
    and st: "rw_stake E win a outc n w1 = Inr ((unspent, win'), w2)"
    and sw: "store_window d win' w2 = Inr (d1, w3)"
    and rest: "(if rw_bonded_outcome win' \<noteq> None then
        let i = invoke_final_arbitrator d1 (rw_bond_size win') in
        if \<not> fst i then bindM (open_next_window E (snd i) win') (\<lambda>dr''. ret (unspent, dr''))
        else ret (unspent, snd i)
      else ret (unspent, d1)) w3 = Inr ((unspent, d'), t)"
    by (auto simp: adr_stake_def Let_def bindM_Inr ret_Inr split: if_splits)
  from g have ok: "windows_ok (store w) ?i ?h" and bal: "windows_balanced (store w) ?h"
    and few: "unat (vec_len ?h) < 128"
    by (auto simp: game_def intro: ladder_few_windows)
  note cw = current_window_round [OF cur g]
  have b1: "win_balanced (store w1) win" using cw(1,5) by simp
  note rs = rw_stake_round [OF st b1]
  let ?r = "current_round base (rounds (store w) d)"
  have fr: "window_frame (?i, of_nat ?k) (store w) (store w2)" using rs(7) cw(1,6) by simp
  have key: "window_key win' = (?i, of_nat ?k)" using rs(5) cw(6) by simp
  have old: "win_balanced (store w2) (windows_of (store w) ?h ! ?k)" if "vec_len ?h \<noteq> 0"
    using rs(4) cw(7) [OF that] by simp
  from store_window_rounds [OF sw ok bal few fr key rs(3) old] obtain h1 where
    d1: "d1 = d\<lparr>adr_resolution_windows := h1\<rparr>" and ok1: "windows_ok (store w3) ?i h1"
    and bal1: "windows_balanced (store w3) h1" and fr1: "request_frame ?i (store w2) (store w3)"
    and rounds1: "rounds_of (store w3) h1 = butlast (rounds_of (store w) ?h) @ [round_of (store w2) win']"
    and len1: "unat (vec_len h1) = max 1 (unat (vec_len ?h))"
    and s1: "self w3 = self w2" "outbox w3 = outbox w2"
    by blast
  have rw': "round_of (store w2) win' = round_stake ?r a outc (unat n)" using rs(1) cw(1,4) by simp
  have bonded: "sr_bonded (round_stake ?r a outc (unat n)) = rw_bonded_outcome win'"
    and bond: "sr_bond (round_stake ?r a outc (unat n)) = unat (rw_bond_size win')"
    using arg_cong [OF rw', of sr_bonded] arg_cong [OF rw', of sr_bond] by simp_all
  have rs1: "rounds (store w3) d1 = butlast (rounds (store w) d) @ [round_stake ?r a outc (unat n)]"
    using rounds1 rw' by (simp add: rounds_def d1)
  have unspent: "unat unspent = unat n - round_taken ?r outc (unat n)"
    using rs(2) cw(1,4) by simp
  have frame3: "request_frame ?i (store w) (store w3)"
    using fr fr1 by (auto simp: window_frame_def intro: request_frame_trans)
  have same3: "self w3 = self w" "outbox w3 = outbox w"
    using s1 rs(8,9) cw(2,3) by simp_all
  show ?thesis
  proof (cases "rw_bonded_outcome win' = None \<or>
      rw_bond_size win' \<ge> rc_final_arbitrator_invoke_amount (adr_request_config d)")
    case True
    with rest have "d' = (if rw_bonded_outcome win' = None then d1
        else d1\<lparr>adr_final_arbitrator_triggered := True\<rparr>)" and "t = w3"
      by (auto simp: invoke_final_arbitrator_def Let_def run d1 split: if_splits)
    with True show ?thesis
      using unspent ok1 bal1 frame3 same3 rs1 open_request bonded bond
      by (auto simp: stake_spec_def ladder_stake_def Let_def d1 rounds_def unats same_terms_def)
  next
    case False
    then have inv: "invoke_final_arbitrator d1 (rw_bond_size win') = (False, d1)"
      using open_request by (simp add: invoke_final_arbitrator_def d1)
    with rest False have opn: "open_next_window E d1 win' w3 = Inr (d', t)"
      by (auto simp: run)
    have few1: "unat (vec_len (adr_resolution_windows d1)) < 2 ^ 16" using len1 few by (simp add: d1)
    have "windows_ok (store w3) (adr_id d1) (adr_resolution_windows d1)" using ok1 by (simp add: d1)
    moreover have "windows_balanced (store w3) (adr_resolution_windows d1)" using bal1 by (simp add: d1)
    ultimately obtain h2 where
      d': "d' = d1\<lparr>adr_resolution_windows := h2\<rparr>" and ok2: "windows_ok (store t) ?i h2"
      and bal2: "windows_balanced (store t) h2" and fr2: "request_frame ?i (store w3) (store t)"
      and rounds2: "rounds_of (store t) h2 = rounds (store w3) d1 @ [fresh_round (2 * unat (rw_bond_size win'))]"
      and s2: "self t = self w3" "outbox t = outbox w3"
      using open_next_window_rounds [OF opn _ _ few1] by (auto simp: d1 rounds_def)
    have "rounds (store t) d' = butlast (rounds (store w) d) @
        [round_stake ?r a outc (unat n), fresh_round (2 * unat (rw_bond_size win'))]"
      using rounds2 rs1 by (simp add: rounds_def d')
    with False show ?thesis
      using unspent ok2 bal2 request_frame_trans [OF frame3 fr2] same3 s2 open_request bonded bond
      by (auto simp: stake_spec_def ladder_stake_def Let_def d' d1 unats same_terms_def)
  qed
qed

lemma assert_can_stake_challenged:
  assumes "assert_can_stake_on_outcome d outc w = Inr (u, t)"
    and ok: "windows_ok (store w) (adr_id d) (adr_resolution_windows d)"
  shows "t = w \<and> challenged (rounds (store w) d) \<noteq> Some outc"
proof (cases "vec_len (adr_resolution_windows d) > 1")
  case True
  let ?h = "adr_resolution_windows d"
  from assms(1) True obtain win b where le: "2 \<le> vec_len ?h" and t: "t = w"
    and get: "vec_get (st_windows (store w)) ?h (vec_len ?h - 2) = Inr (Some win)"
    and b: "rw_bonded_outcome win = Some b" "b \<noteq> outc"
    by (auto simp: assert_can_stake_on_outcome_def Let_def run)
  from le have k: "unat (vec_len ?h - 2) = unat (vec_len ?h) - 2" and big: "2 \<le> unat (vec_len ?h)"
    by (simp_all add: exact unats)
  have "vec_ok (st_windows (store w)) ?h" using ok by (simp add: windows_ok_def')
  from vec.get_some [OF get this] have "win = windows_of (store w) ?h ! (unat (vec_len ?h) - 2)"
    by (simp add: windows_of_def k)
  then have "challenged (rounds (store w) d) = Some b"
    using big b by (simp add: challenged_def rounds_def rounds_of_nth)
  with b t show ?thesis by simp
next
  case False
  then have "unat (vec_len (adr_resolution_windows d)) < 2" by (simp add: unats)
  with assms(1) False show ?thesis
    by (simp add: assert_can_stake_on_outcome_def Let_def run challenged_def rounds_def)
qed

text \<open>Staking keeps the game.\<close>

lemma adr_stake_game:
  assumes call: "adr_stake E d a outc n w = Inr ((unspent, d'), t)" and g: "game (store w) d base"
    and open_request: "\<not> adr_final_arbitrator_triggered d"
    and fair: "challenged (rounds (store w) d) \<noteq> Some outc"
  shows "game (store t) d' base"
proof -
  note r = adr_stake_rounds [OF call g open_request]
  from g open_request have lad: "ladder base False (rounds (store w) d)" and pos: "0 < base"
    by (simp_all add: game_def rounds_def)
  have "ladder base (adr_final_arbitrator_triggered d') (rounds (store t) d')"
    using r by (intro ladder_stake_ladder [OF lad pos fair]) (auto simp: stake_spec_def)
  then show ?thesis
    using r g same_terms_bond [of d d'] by (auto simp: game_def rounds_def same_terms_def)
qed

section \<open>Unstaking\<close>

lemma dr_unstake_window_rounds:
  assumes call: "dr_unstake_window E dr a rnd outc n w = Inr (r, t)"
    and ok: "windows_ok (store w) i (request_windows dr)" and few: "unat (vec_len (request_windows dr)) \<le> 2 ^ 16"
  defines "h \<equiv> request_windows dr" and "k \<equiv> unat rnd"
  shows "r = n \<and> k < length (rounds_of (store w) h) \<and>
    unat n \<le> sr_stakes (rounds_of (store w) h ! k) outc a \<and>
    sr_bonded (rounds_of (store w) h ! k) \<noteq> Some outc \<and>
    rounds_of (store t) h = ladder_unstake (rounds_of (store w) h) k a outc (unat n) \<and>
    windows_ok (store t) i h \<and> (windows_balanced (store w) h \<longrightarrow> windows_balanced (store t) h) \<and>
    request_frame i (store w) (store t) \<and> self t = self w \<and> outbox t = outbox w"
proof -
  from call obtain win where get: "vec_get (st_windows (store w)) h (ucast rnd) = Inr (Some win)"
    and un: "rw_unstake E win a outc n w = Inr (r, t)"
    by (auto simp: dr_unstake_window_def run h_def)
  have u: "unat (ucast rnd :: u64) = k" unfolding k_def by (rule unat_ucast_up) simp
  from ok have "vec_ok (st_windows (store w)) h" by (simp add: windows_ok_def' h_def)
  from vec.get_some [OF get this] have k: "k < unat (vec_len h)" and win: "win = windows_of (store w) h ! k"
    by (simp_all add: windows_of_def u)
  from ok k have bd: "win_bounded (store w) win" and key: "window_key win = (i, of_nat k)"
    by (simp_all add: windows_ok_def' win h_def)
  note rb = rw_unstake_bounded [OF un bd]
  have rnd: "rounds_of (store w) h ! k = round_of (store w) win" by (simp add: rounds_of_nth [OF k] win)
  have ok': "windows_ok (store w) i h" and few': "unat (vec_len h) \<le> 2 ^ 16"
    using ok few by (simp_all add: h_def)
  have fr: "window_frame (i, of_nat k) (store w) (store t)" using rb(6) key by simp
  note ip = rounds_in_place [OF ok' k few' fr rb(5) [unfolded win]]
  have "windows_balanced (store w) h \<Longrightarrow> windows_balanced (store t) h"
    using ip(4) rw_unstake_balanced [OF un] k by (simp add: win windows_balanced_def)
  moreover have "rounds_of (store t) h = ladder_unstake (rounds_of (store w) h) k a outc (unat n)"
    using ip(3) rb(1) by (simp add: ladder_unstake_def rnd win)
  moreover have "request_frame i (store w) (store t)" using fr by (simp add: window_frame_def)
  ultimately show ?thesis
    using rb(2,3,4,7,8) ip(1) k by (simp add: rnd)
qed

section \<open>Claims\<close>

lemma entry_same: "f a b = v \<Longrightarrow> entry f a b v = f"
  by (auto simp: entry_def fun_eq_iff)

text \<open>One window: the claim removes the stake if the window is bonded on the final outcome.\<close>

lemma rw_claim_round:
  assumes call: "rw_claim_for win a final w = Inr (res, t)" and bd: "win_bounded (store w) win"
  defines "r \<equiv> round_of (store w) win"
  shows "round_of (store t) win = claim_in final a r \<and> win_bounded (store t) win \<and>
    window_frame (window_key win) (store w) (store t) \<and> self t = self w \<and> outbox t = outbox w \<and>
    (case sr_bonded r of
       None \<Rightarrow> res = NoResult
     | Some b \<Rightarrow>
         if b = final then \<exists>s. res = Correct (rw_bond_size win) s \<and> unat s = sr_stakes r final a
         else res = Incorrect (rw_bond_size win))"
proof -
  from bd have ok: "win_ok (store w) win" by (simp add: win_bounded_def)
  note c = rw_claim_for_Inr [OF call ok]
  show ?thesis
  proof (cases "rw_bonded_outcome win = Some final")
    case False
    with c have "store t = store w" by (auto split: option.splits)
    with c False show ?thesis
      using bd by (auto simp: r_def claim_in_def split: option.splits)
  next
    case True
    with c obtain s where res: "res = Correct (rw_bond_size win) s" "unat s = win_user (store w) win final a"
      and st: "store t = drop_stake (store w) win a final \<or> store t = store w \<and> win_user (store w) win final a = 0"
      by auto
    have claimed: "claim_in final a r =
        r\<lparr>sr_stakes := entry (win_user (store w) win) final a 0\<rparr>"
      using True by (simp add: claim_in_def r_def) (simp add: round_of_def)
    from st have "round_of (store t) win = claim_in final a r \<and> win_bounded (store t) win \<and>
      window_frame (window_key win) (store w) (store t)"
    proof
      assume d: "store t = drop_stake (store w) win a final"
      have u: "win_user (store t) win = entry (win_user (store w) win) final a 0"
        unfolding d drop_stake_user [OF ok] by (simp add: entry_def)
      have tot: "win_total (store t) win = win_total (store w) win"
        unfolding d by (rule drop_stake_total [OF ok ok])
      have fin: "finite_table (win_user (store w) win)" using bd by (simp add: win_bounded_def)
      have "total_of (win_user (store t) win p) \<le> total_of (win_user (store w) win p)" for p
        using finite_table_row [OF fin] by (intro total_mono) (auto simp: u)
      then have "win_bounded (store t) win"
        using bd drop_stake_ok [OF ok, of a final] fin
        by (auto simp: win_bounded_def tot d [symmetric] intro: le_trans) (simp add: u)
      then show ?thesis
        using claimed drop_stake_window_frame [OF ok, of a final]
        by (simp add: r_def round_of_def u d [symmetric])
    next
      assume "store t = store w \<and> win_user (store w) win final a = 0"
      then show ?thesis
        using claimed bd by (simp add: entry_same r_def round_of_def)
    qed
    with c res True show ?thesis by (simp add: r_def) (simp add: round_of_def)
  qed
qed

text \<open>What one round adds to the three sums of the loop.\<close>

definition adds_up :: "outcome \<Rightarrow> account \<Rightarrow> stake_round list \<Rightarrow> claim_totals \<Rightarrow> claim_totals \<Rightarrow> bool" where
  "adds_up f a rs m m' \<longleftrightarrow>
     unat (total_correct_staked m') = unat (total_correct_staked m) + correct_bonds f rs \<and>
     unat (total_incorrect_staked m') = unat (total_incorrect_staked m) + incorrect_bonds f rs \<and>
     unat (user_correct_stake m') = unat (user_correct_stake m) + correct_stake f rs a"

lemma adds_up_Nil: "adds_up f a [] m m"
  by (simp add: adds_up_def correct_bonds_def incorrect_bonds_def)

lemma adds_up_Cons: "adds_up f a [r] m m' \<Longrightarrow> adds_up f a rs m' m'' \<Longrightarrow> adds_up f a (r # rs) m m''"
  by (simp add: adds_up_def correct_bonds_def incorrect_bonds_def)

lemma count_stake_adds_up:
  assumes "count_stake m res = Inr m'"
    and "case sr_bonded r of
       None \<Rightarrow> res = NoResult
     | Some b \<Rightarrow>
         if b = f then \<exists>s. res = Correct bnd s \<and> unat s = sr_stakes r f a
         else res = Incorrect bnd"
    and "sr_bond r = unat bnd"
  shows "adds_up f a [r] m m'"
  using assms
  by (auto simp: count_stake_def run adds_up_def correct_bonds_def incorrect_bonds_def exact
      split: option.splits if_splits)

lemma claim_round_rounds:
  assumes call: "claim_round d a (of_nat k) m w = Inr (m', t)"
    and ok: "windows_ok (store w) i (fdr_resolution_windows d)"
    and k: "k < unat (vec_len (fdr_resolution_windows d))"
    and few: "unat (vec_len (fdr_resolution_windows d)) \<le> 2 ^ 16"
  defines "h \<equiv> fdr_resolution_windows d" and "f \<equiv> fdr_finalized_outcome d"
  shows "rounds_of (store t) h = (rounds_of (store w) h)[k := claim_in f a (rounds_of (store w) h ! k)] \<and>
    adds_up f a [rounds_of (store w) h ! k] m m' \<and> windows_ok (store t) i h \<and>
    request_frame i (store w) (store t) \<and> self t = self w \<and> outbox t = outbox w"
proof -
  from call obtain win res v ws where get: "vec_get (st_windows (store w)) h (of_nat k) = Inr (Some win)"
    and cl: "rw_claim_for win a f w = Inr (res, v)" and cnt: "count_stake m res = Inr m'"
    and rep: "vec_replace (st_windows (store v)) h (of_nat k) win = Inr ws"
    and t: "t = v\<lparr>store := (store v)\<lparr>st_windows := ws\<rparr>\<rparr>"
    by (auto simp: claim_round_def run h_def f_def)
  have "k < 2 ^ LENGTH(64)" using k few by simp
  then have u: "unat (of_nat k :: u64) = k" by (rule unat_of_nat_fits)
  have ok': "windows_ok (store w) i h" and k': "k < unat (vec_len h)" and few': "unat (vec_len h) \<le> 2 ^ 16"
    using ok k few by (simp_all add: h_def)
  from ok' have "vec_ok (st_windows (store w)) h" by (simp add: windows_ok_def')
  from vec.get_some [OF get this] have win: "win = windows_of (store w) h ! k"
    by (simp add: windows_of_def u)
  from ok' k' have bd: "win_bounded (store w) win" and key: "window_key win = (i, of_nat k)"
    by (simp_all add: windows_ok_def' win)
  have rnd: "rounds_of (store w) h ! k = round_of (store w) win" by (simp add: rounds_of_nth [OF k'] win)
  note cr = rw_claim_round [OF cl bd]
  have fr: "window_frame (i, of_nat k) (store w) (store v)" using cr key by simp
  have bd': "win_bounded (store v) (windows_of (store w) h ! k)" using cr by (simp add: win)
  note ip = rounds_in_place [OF ok' k' few' fr bd']
  have key': "window_key win = (i, of_nat (unat (of_nat k :: u64)))" using key by (simp only: u)
  have bdv: "win_bounded (store v) win" using cr by simp
  note rp = rounds_replace [OF ip(1) rep key' bdv]
  have "rounds_of (store t) h = (rounds_of (store w) h)[k := claim_in f a (round_of (store w) win)]"
    using rp(3) ip(3) cr by (simp add: t u win)
  moreover have "adds_up f a [round_of (store w) win] m m'"
    using cr by (intro count_stake_adds_up [OF cnt, where bnd = "rw_bond_size win"]) simp_all
  moreover have "request_frame i (store w) (store t)"
    using fr rp(5) by (auto simp: window_frame_def t intro: request_frame_trans)
  ultimately show ?thesis
    using cr rp(1) by (simp add: rnd t)
qed

lemma claim_rounds_from:
  assumes "claim_rounds d a [k..<unat (vec_len (fdr_resolution_windows d))] m w = Inr (m', t)"
    and "windows_ok (store w) i (fdr_resolution_windows d)"
    and "k \<le> unat (vec_len (fdr_resolution_windows d))"
    and few: "unat (vec_len (fdr_resolution_windows d)) \<le> 2 ^ 16"
  defines "h \<equiv> fdr_resolution_windows d" and "f \<equiv> fdr_finalized_outcome d"
  shows "rounds_of (store t) h =
      take k (rounds_of (store w) h) @ map (claim_in f a) (drop k (rounds_of (store w) h)) \<and>
    adds_up f a (drop k (rounds_of (store w) h)) m m' \<and> windows_ok (store t) i h \<and>
    request_frame i (store w) (store t) \<and> self t = self w \<and> outbox t = outbox w"
  using assms(1-3)
proof (induction "unat (vec_len (fdr_resolution_windows d)) - k" arbitrary: k m w)
  case 0
  then show ?case by (simp add: run h_def adds_up_Nil)
next
  case (Suc x)
  let ?n = "unat (vec_len (fdr_resolution_windows d))" and ?rs = "rounds_of (store w) h"
  from Suc.hyps(2) have k: "k < ?n" by simp
  from Suc.prems(1) obtain m1 v where one: "claim_round d a (of_nat k) m w = Inr (m1, v)"
    and rest: "claim_rounds d a [Suc k..<?n] m1 v = Inr (m', t)"
    by (auto simp: upt_conv_Cons [OF k] run)
  note r = claim_round_rounds [OF one Suc.prems(2) k few, folded h_def f_def]
  have "x = ?n - Suc k" using Suc.hyps(2) by simp
  from Suc.hyps(1) [OF this rest] r k have
    t: "rounds_of (store t) h = take (Suc k) (rounds_of (store v) h) @ map (claim_in f a) (drop (Suc k) (rounds_of (store v) h)) \<and>
    adds_up f a (drop (Suc k) (rounds_of (store v) h)) m1 m' \<and> windows_ok (store t) i h \<and>
    request_frame i (store v) (store t) \<and> self t = self v \<and> outbox t = outbox v"
    by (simp add: h_def)
  have v: "rounds_of (store v) h = ?rs[k := claim_in f a (?rs ! k)]" using r by simp
  have len: "k < length ?rs" using k by (simp add: h_def)
  have d: "drop k ?rs = ?rs ! k # drop (Suc k) ?rs" using len by (simp add: Cons_nth_drop_Suc)
  have "rounds_of (store t) h = take k ?rs @ map (claim_in f a) (drop k ?rs)"
    using t len by (simp add: v d take_Suc_conv_app_nth)
  moreover have "adds_up f a (drop k ?rs) m m'"
    unfolding d using r t by (auto simp: v intro: adds_up_Cons)
  moreover have "request_frame i (store w) (store t)"
    using r t by (auto intro: request_frame_trans)
  ultimately show ?case using r t by simp
qed

text \<open>
  A successful claim pays the abstract payout in stake tokens and the share of the fee in
  payment tokens, and leaves the rounds of \<open>ladder_claim\<close> behind.
\<close>

lemma fdr_claim_rounds:
  assumes call: "fdr_claim E d a w = Inr (res, t)"
    and ok: "windows_ok (store w) i (fdr_resolution_windows d)"
    and few: "unat (vec_len (fdr_resolution_windows d)) \<le> 2 ^ 16"
  defines "rs \<equiv> rounds_of (store w) (fdr_resolution_windows d)" and "f \<equiv> fdr_finalized_outcome d"
  shows "unat (stake_token_payout res) = ladder_payout f rs a \<and>
    unat (payment_token_payout res) =
      share (correct_stake f rs a) (unat (fdr_paid_fee d)) (correct_bonds f rs) \<and>
    rounds_of (store t) (fdr_resolution_windows d) = ladder_claim f rs a \<and>
    windows_ok (store t) i (fdr_resolution_windows d) \<and> request_frame i (store w) (store t) \<and>
    self t = self w \<and> outbox t = outbox w"
proof -
  let ?z = "\<lparr>total_correct_staked = 0, total_incorrect_staked = 0, user_correct_stake = 0\<rparr>"
  from call obtain m v sp fp where
    rounds: "claim_rounds d a [0..<unat (vec_len (fdr_resolution_windows d))] ?z w = Inr (m, v)"
    and sp: "(if total_correct_staked m = 0 then Inr 0
         else calc_product (user_correct_stake m) (total_incorrect_staked m) (total_correct_staked m)) = Inr sp"
    and fp: "(if total_correct_staked m = 0 then Inr 0
         else calc_product (user_correct_stake m) (fdr_paid_fee d) (total_correct_staked m)) = Inr fp"
    and fits: "unat (user_correct_stake m) + unat sp < 2 ^ 128"
    and res: "res = \<lparr>payment_token_payout = fp, stake_token_payout = user_correct_stake m + sp\<rparr>"
    and t: "store t = store v" "self t = self v" "outbox t = outbox v"
    unfolding fdr_claim_def by (auto simp only: bindM_Inr lift_Inr emits_Inr ret_Inr checked_add_Inr) auto
  note c = claim_rounds_from [OF rounds ok _ few, folded rs_def f_def, simplified]
  from c have tot: "unat (total_correct_staked m) = correct_bonds f rs"
    "unat (total_incorrect_staked m) = incorrect_bonds f rs"
    "unat (user_correct_stake m) = correct_stake f rs a"
    by (simp_all add: adds_up_def)
  have "unat sp = share (correct_stake f rs a) (incorrect_bonds f rs) (correct_bonds f rs)"
    using sp by (auto simp: share_def calc_product_exact unat_eq_0 simp flip: tot split: if_splits)
  moreover have "unat fp = share (correct_stake f rs a) (unat (fdr_paid_fee d)) (correct_bonds f rs)"
    using fp by (auto simp: share_def calc_product_exact unat_eq_0 simp flip: tot split: if_splits)
  ultimately show ?thesis
    using c fits by (simp add: res t exact ladder_payout_def tot ladder_claim_def)
qed

end
