(* ===== verification/Upgrade.thy ===== *)
theory Upgrade
  imports Contract_Checks
begin

text \<open>
  \<open>oracle/src/upgrade.rs\<close>: governance redeploys the contract with the code in the call's input
  and calls \<open>migrate\<close> on it, which loads the old state. The promise is built through the raw
  host interface; the attached amount is the zero pointer of the call, the gas what is left
  after the gas set aside for the migration.
\<close>

definition GAS_FOR_MIGRATE_CALL :: u64 where
  "GAS_FOR_MIGRATE_CALL = 5000000000000"

text \<open>\<open>state\<close> is \<open>env::state_read()\<close>, the struct stored for the contract, if there is one.\<close>

definition upgrade :: "oenv \<Rightarrow> contract option \<Rightarrow> unit call" where
  "upgrade E state =
     bindM (expect state (Access ErrNotInitialized)) (\<lambda>contract.
     bindM (modifies (\<lambda>w. w\<lparr>self := contract\<rparr>)) (\<lambda>_.
     bindM (assert_gov E) (\<lambda>_.
     bindM (lift (checked_sub (prepaid_gas E) (used_gas E))) (\<lambda>left.
     bindM (lift (checked_sub left GAS_FOR_MIGRATE_CALL)) (\<lambda>attached_gas.
     schedule (DeployAndCall (current_account E) Migrate 0 attached_gas))))))"

definition migrate :: "contract option \<Rightarrow> unit call" where
  "migrate state =
     bindM (expect state (Access ErrNotInitialized)) (\<lambda>contract.
     modifies (\<lambda>w. w\<lparr>self := contract\<rparr>))"

lemma upgrade_Inr:
  assumes "upgrade E (Some (self w)) w = Inr (u, t)" and "configs_ok w"
  shows "predecessor E = cfg_gov (last (config_list w)) \<and> store t = store w \<and> self t = self w \<and>
    unat (used_gas E) + unat GAS_FOR_MIGRATE_CALL \<le> unat (prepaid_gas E) \<and>
    outbox t = outbox w @ [DeployAndCall (current_account E) Migrate 0
      (prepaid_gas E - used_gas E - GAS_FOR_MIGRATE_CALL)]"
  using assms by (auto simp: upgrade_def run governed_ok unats exact)

text \<open>Anyone may call \<open>migrate\<close>, but it stores back the state it loads.\<close>

lemma migrate_Inr: "migrate (Some (self w)) w = Inr (u, t) \<longleftrightarrow> t = w"
  by (auto simp: migrate_def run)

end
