(* ===== verification/Oracle_Lifecycle.thy ===== *)
theory Oracle_Lifecycle
  imports Oracle_Contract Request_Refinement Upgrade
begin

text \<open>
  The contract as a whole: the invariant \<open>contract_ok\<close> on its state, the effect of every method
  that changes requests, as an operation on the abstract rounds, and the preservation of the
  invariant by every method.
\<close>

section \<open>The invariant\<close>

definition request_list :: "world \<Rightarrow> data_request list" where
  "request_list w = vec_elems (st_requests (store w)) (data_requests (self w))"

definition request_ok :: "oracle_storage \<Rightarrow> u64 \<Rightarrow> data_request \<Rightarrow> bool" where
  "request_ok st i dr =
     (case dr of
        Active d \<Rightarrow> adr_id d = i \<and> (\<exists>base. game st d base)
      | Finalized d \<Rightarrow> fdr_id d = i \<and> windows_ok st i (fdr_resolution_windows d) \<and>
          unat (vec_len (fdr_resolution_windows d)) < 128)"

definition contract_ok :: "world \<Rightarrow> bool" where
  "contract_ok w \<longleftrightarrow> configs_ok w \<and> vec_ok (st_requests (store w)) (data_requests (self w)) \<and>
     (\<forall>i. unat i < length (request_list w) \<longrightarrow>
        request_ok (store w) i (request_list w ! unat i) \<and>
        unat (get_config_id (request_list w ! unat i)) < length (config_list w)) \<and>
     (\<forall>i. length (request_list w) \<le> unat i \<longrightarrow> (\<forall>r. blank (store w) i r))"

text \<open>What the invariant of requests reads of the storage.\<close>

definition same_stakes :: "oracle_storage \<Rightarrow> oracle_storage \<Rightarrow> bool" where
  "same_stakes st st' \<longleftrightarrow> st_windows st' = st_windows st \<and> st_stakes st' = st_stakes st \<and> st_users st' = st_users st"

lemma same_stakes_refl [simp]: "same_stakes st st"
  by (simp add: same_stakes_def)

lemma same_stakes_views:
  assumes "same_stakes st st'"
  shows "windows_of st' = windows_of st" "rounds_of st' = rounds_of st" "blank st' = blank st"
    "windows_ok st' = windows_ok st" "windows_balanced st' = windows_balanced st" "game st' = game st"
    "request_ok st' = request_ok st"
proof -
  from assms have v: "st_windows st' = st_windows st" "st_stakes st' = st_stakes st" "st_users st' = st_users st"
    by (simp_all add: same_stakes_def)
  note c = win_views_cong [OF v(2,3)]
  show w: "windows_of st' = windows_of st" by (simp add: windows_of_def v fun_eq_iff)
  have "round_of st' = round_of st" by (simp add: round_of_def c fun_eq_iff)
  then show r: "rounds_of st' = rounds_of st" by (simp add: rounds_of_def w fun_eq_iff)
  show b: "blank st' = blank st" by (simp add: blank_def v fun_eq_iff)
  have "win_bounded st' = win_bounded st" by (simp add: win_bounded_def c fun_eq_iff)
  then show o': "windows_ok st' = windows_ok st" by (simp add: windows_ok_def' v w b fun_eq_iff)
  have "win_balanced st' = win_balanced st" by (simp add: win_balanced_def c fun_eq_iff)
  then show l: "windows_balanced st' = windows_balanced st" by (simp add: windows_balanced_def w fun_eq_iff)
  show g: "game st' = game st" by (simp add: game_def r o' l fun_eq_iff)
  show "request_ok st' = request_ok st"
    by (simp add: request_ok_def o' g fun_eq_iff split: data_request.split)
qed

lemma request_ok_frame:
  assumes fr: "request_frame i st st'" and other: "j \<noteq> i" and ok: "request_ok st j dr"
  shows "request_ok st' j dr \<and> rounds_of st' (request_windows dr) = rounds_of st (request_windows dr)"
proof (cases dr)
  case (Active d)
  with ok obtain base where id': "adr_id d = j" and g: "game st d base" by (auto simp: request_ok_def)
  from g have wok: "windows_ok st j (adr_resolution_windows d)" by (simp add: game_def id')
  note f = frame_other [OF fr other wok]
  have "game st' d base" using g f by (simp add: game_def id')
  then show ?thesis using f(3) by (auto simp: request_ok_def Active id' request_windows_def)
next
  case (Finalized d)
  with ok frame_other [OF fr other, of "fdr_resolution_windows d"] show ?thesis
    by (simp add: request_ok_def request_windows_def)
qed

text \<open>Every request but number \<open>i\<close> keeps its rounds.\<close>

definition others_kept :: "world \<Rightarrow> world \<Rightarrow> nat \<Rightarrow> bool" where
  "others_kept w t i \<longleftrightarrow> (\<forall>j < length (request_list w). j \<noteq> i \<longrightarrow>
     rounds_of (store t) (request_windows (request_list w ! j)) =
     rounds_of (store w) (request_windows (request_list w ! j)))"

section \<open>Updating one request\<close>

lemma request_list_cong:
  "st_requests (store t) = st_requests (store w) \<Longrightarrow> data_requests (self t) = data_requests (self w) \<Longrightarrow>
   request_list t = request_list w"
  by (simp add: request_list_def)

text \<open>An operation on request \<open>i\<close> that keeps the struct stored.\<close>

lemma contract_ok_in_place:
  assumes ok: "contract_ok w" and fr: "request_frame i (store w) (store t)" and self: "self t = self w"
    and i: "unat i < length (request_list w)" and new: "request_ok (store t) i (request_list w ! unat i)"
  shows "contract_ok t" "request_list t = request_list w" "config_list t = config_list w"
    "\<And>j. j < length (request_list w) \<Longrightarrow> j \<noteq> unat i \<Longrightarrow>
      rounds_of (store t) (request_windows (request_list w ! j)) =
      rounds_of (store w) (request_windows (request_list w ! j))"
proof -
  from fr have st: "st_requests (store t) = st_requests (store w)" "st_configs (store t) = st_configs (store w)"
    by (simp_all add: request_frame_def)
  show rl: "request_list t = request_list w" by (rule request_list_cong) (simp_all add: st self)
  show cl1: "config_list t = config_list w" by (rule configs_ok_cong; simp add: st self)
  have cl: "config_list t = config_list w" "configs_ok t = configs_ok w"
    by (rule configs_ok_cong; simp add: st self)+
  have each: "request_ok (store t) j (request_list w ! unat j)" if "unat j < length (request_list w)" for j
    using that ok new request_ok_frame [OF fr, of j]
    by (cases "j = i") (simp_all add: contract_ok_def)
  have blanks: "blank (store t) j r" if "length (request_list w) \<le> unat j" for j r
  proof -
    from that i have "j \<noteq> i" by auto
    from frame_blank [OF fr this] that ok show ?thesis by (simp add: contract_ok_def)
  qed
  show "contract_ok t"
    using ok each blanks by (simp add: contract_ok_def rl cl st self)
  fix j
  assume j: "j < length (request_list w)" "j \<noteq> unat i"
  have "length (request_list w) \<le> 2 ^ LENGTH(64)"
    using unat_bound [of "vec_len (data_requests (self w))"] by (simp add: request_list_def)
  with j have u: "unat (of_nat j :: u64) = j" by (intro unat_of_nat_fits) simp
  with j have ne: "of_nat j \<noteq> i" by auto
  from ok u j have "request_ok (store w) (of_nat j) (request_list w ! j)"
    unfolding contract_ok_def by metis
  from request_ok_frame [OF fr ne this]
  show "rounds_of (store t) (request_windows (request_list w ! j)) =
      rounds_of (store w) (request_windows (request_list w ! j))" by simp
qed

text \<open>An operation on request \<open>i\<close> that stores a new struct.\<close>

lemma contract_ok_replace:
  assumes ok: "contract_ok w" and fr: "request_frame i (store w) (store v)"
    and self: "self v = self w" "self t = self w"
    and rep: "vec_replace (st_requests (store v)) (data_requests (self v)) i dr = Inr r"
    and t: "store t = (store v)\<lparr>st_requests := r\<rparr>"
    and new: "request_ok (store v) i dr" and cfg: "unat (get_config_id dr) < length (config_list w)"
  shows "contract_ok t" "request_list t = (request_list w)[unat i := dr]" "unat i < length (request_list w)"
    "config_list t = config_list w"
    "\<And>j. j < length (request_list w) \<Longrightarrow> j \<noteq> unat i \<Longrightarrow>
      rounds_of (store t) (request_windows (request_list w ! j)) =
      rounds_of (store w) (request_windows (request_list w ! j))"
proof -
  from fr have st: "st_requests (store v) = st_requests (store w)" "st_configs (store v) = st_configs (store w)"
    by (simp_all add: request_frame_def)
  have vok: "vec_ok (st_requests (store v)) (data_requests (self v))"
    using ok by (simp add: contract_ok_def st self)
  from vec.replace_inv [OF rep vok] have i: "unat i < length (request_list w)"
    and vok': "vec_ok r (data_requests (self w))" and rl: "request_list t = (request_list w)[unat i := dr]"
    by (simp_all add: request_list_def st self t)
  show "request_list t = (request_list w)[unat i := dr]" "unat i < length (request_list w)" by fact+
  show cl1: "config_list t = config_list w" by (rule configs_ok_cong; simp add: st self t)
  have cl: "config_list t = config_list w" "configs_ok t = configs_ok w"
    by (rule configs_ok_cong; simp add: st self t)+
  have ss: "same_stakes (store v) (store t)" by (simp add: same_stakes_def t)
  note sv = same_stakes_views [OF ss]
  have each: "request_ok (store t) j (request_list t ! unat j) \<and>
      unat (get_config_id (request_list t ! unat j)) < length (config_list w)"
    if "unat j < length (request_list w)" for j
  proof (cases "j = i")
    case True
    then show ?thesis using new cfg i by (simp add: sv rl)
  next
    case False
    then have "unat i \<noteq> unat j" by (metis unat_eq_iff)
    then show ?thesis
      using that ok request_ok_frame [OF fr False] by (simp add: contract_ok_def sv rl)
  qed
  have blanks: "blank (store t) j r" if "length (request_list w) \<le> unat j" for j r
  proof -
    from that i have "j \<noteq> i" by auto
    from frame_blank [OF fr this] that ok show ?thesis by (simp add: contract_ok_def sv)
  qed
  have vr: "vec_ok (st_requests (store t)) (data_requests (self t))" using vok' by (simp add: t self)
  have lr: "length (request_list t) = length (request_list w)" by (simp add: rl)
  show "contract_ok t"
    using ok each blanks vr by (simp add: contract_ok_def cl lr)
  fix j
  assume j: "j < length (request_list w)" "j \<noteq> unat i"
  have "length (request_list w) \<le> 2 ^ LENGTH(64)"
    using unat_bound [of "vec_len (data_requests (self w))"] by (simp add: request_list_def)
  with j have u: "unat (of_nat j :: u64) = j" by (intro unat_of_nat_fits) simp
  with j have ne: "of_nat j \<noteq> i" by auto
  from ok u j have "request_ok (store w) (of_nat j) (request_list w ! j)"
    unfolding contract_ok_def by metis
  from request_ok_frame [OF fr ne this]
  show "rounds_of (store t) (request_windows (request_list w ! j)) =
      rounds_of (store w) (request_windows (request_list w ! j))" by (simp add: sv)
qed

text \<open>An operation that touches no request, stake or window; configurations may be added.\<close>

lemma contract_ok_elsewhere:
  assumes ok: "contract_ok w" and ss: "same_stakes (store w) (store t)"
    and rq: "st_requests (store t) = st_requests (store w)" "data_requests (self t) = data_requests (self w)"
    and cfg: "configs_ok t" "length (config_list w) \<le> length (config_list t)"
  shows "contract_ok t \<and> request_list t = request_list w \<and> rounds_of (store t) = rounds_of (store w)"
  using ok cfg request_list_cong [OF rq] same_stakes_views [OF ss]
  by (auto simp: contract_ok_def rq intro: less_le_trans)

section \<open>Looking requests up\<close>

lemma dr_get_expect_Inr [run]: "dr_get_expect i w = Inr (dr, t) \<longleftrightarrow>
    vec_get (st_requests (store w)) (data_requests (self w)) i = Inr (Some dr) \<and> t = w"
  by (auto simp: dr_get_expect_def run)

lemma dr_get_expect_active_Inr [run]: "dr_get_expect_active i w = Inr (d, t) \<longleftrightarrow>
    vec_get (st_requests (store w)) (data_requests (self w)) i = Inr (Some (Active d)) \<and> t = w"
  by (auto simp: dr_get_expect_active_def run split: data_request.split_asm)

lemma dr_get_expect_finalized_Inr [run]: "dr_get_expect_finalized i w = Inr (d, t) \<longleftrightarrow>
    vec_get (st_requests (store w)) (data_requests (self w)) i = Inr (Some (Finalized d)) \<and> t = w"
  by (auto simp: dr_get_expect_finalized_def run split: data_request.split_asm)

lemma config_at_Inr [run]: "config_at i w = Inr (c, t) \<longleftrightarrow>
    vec_get (st_configs (store w)) (configs (self w)) i = Inr (Some c) \<and> t = w"
  by (auto simp: config_at_def run)

lemma requests_len_Inr [run]: "requests_len w = Inr (n, t) \<longleftrightarrow> n = vec_len (data_requests (self w)) \<and> t = w"
  by (simp add: requests_len_def run)

lemma request_at:
  assumes "vec_get (st_requests (store w)) (data_requests (self w)) i = Inr (Some dr)" and "contract_ok w"
  shows "unat i < length (request_list w)" "request_list w ! unat i = dr" "request_ok (store w) i dr"
    "unat (get_config_id dr) < length (config_list w)"
  using vec.get_some [OF assms(1)] assms(2) by (auto simp: contract_ok_def request_list_def)

lemma config_at_list:
  assumes "vec_get (st_configs (store w)) (configs (self w)) i = Inr (Some c)" and "configs_ok w"
  shows "c = config_list w ! unat i"
  using vec.get_some [OF assms(1)] assms(2) by (auto simp: configs_ok_def config_list_def)

lemma get_config_id_simps [simp]:
  "get_config_id (Active d) = adr_global_config_id d" "get_config_id (Finalized f) = fdr_global_config_id f"
  by (simp_all add: get_config_id_def)

lemma request_windows_simps [simp]:
  "request_windows (Active d) = adr_resolution_windows d" "request_windows (Finalized f) = fdr_resolution_windows f"
  by (simp_all add: request_windows_def)

lemma assert_valid_outcome_state: "assert_valid_outcome d o' w = Inr (u, t) \<Longrightarrow> t = w"
  by (auto simp: assert_valid_outcome_def run split: option.splits outcome.splits answer_type.splits)

lemma assert_valid_outcome_type_state: "assert_valid_outcome_type d o' w = Inr (u, t) \<Longrightarrow> t = w"
  by (auto simp: assert_valid_outcome_type_def run
      split: outcome.splits answer_type.splits data_request_data_type.splits)

section \<open>Staking\<close>

text \<open>
  \<open>dr_stake\<close> by the stake token of the request's configuration: the stake is \<open>ladder_stake\<close> on
  the rounds of the request, what did not fit is the value returned, and every other request
  keeps its rounds.
\<close>

lemma dr_stake_effect:
  assumes call: "dr_stake E sender n p w = Inr (r, t)" and ok: "contract_ok w"
  defines "i \<equiv> unat (stake_id p)"
  shows "\<exists>d d' base unspent.
    i < length (request_list w) \<and> request_list w ! i = Active d \<and> request_list t = (request_list w)[i := Active d'] \<and>
    same_terms d d' \<and> game (store w) d base \<and> game (store t) d' base \<and>
    stake_spec d base (rounds (store w) d) sender (stake_outcome p) (unat n) =
      (rounds (store t) d', adr_final_arbitrator_triggered d') \<and>
    r = ValueOf unspent \<and>
    unat unspent = unat n - round_taken (current_round base (rounds (store w) d)) (stake_outcome p) (unat n) \<and>
    predecessor E = cfg_stake_token (config_list w ! unat (adr_global_config_id d)) \<and>
    \<not> paused (self w) \<and> contract_ok t \<and> self t = self w \<and> outbox t = outbox w \<and>
    config_list t = config_list w \<and> others_kept w t i"
proof -
  from call obtain d c x v rs where
    get: "vec_get (st_requests (store w)) (data_requests (self w)) (stake_id p) = Inr (Some (Active d))"
    and cfg: "vec_get (st_configs (store w)) (configs (self w)) (adr_global_config_id d) = Inr (Some c)"
    and tok: "predecessor E = cfg_stake_token c" and unp: "\<not> paused (self w)"
    and opn: "\<not> adr_final_arbitrator_triggered d"
    and fair: "assert_can_stake_on_outcome d (stake_outcome p) w = Inr ((), w)"
    and st: "adr_stake E d sender (stake_outcome p) n w = Inr (x, v)"
    and rep: "vec_replace (st_requests (store v)) (data_requests (self v)) (stake_id p) (Active (snd x)) = Inr rs"
    and t: "store t = (store v)\<lparr>st_requests := rs\<rparr>" "self t = self v" "outbox t = outbox v"
    and r: "r = ValueOf (fst x)"
  proof -
    from call obtain d c ta tb tc x v rs where
      get: "vec_get (st_requests (store w)) (data_requests (self w)) (stake_id p) = Inr (Some (Active d))"
      and cfg: "vec_get (st_configs (store w)) (configs (self w)) (adr_global_config_id d) = Inr (Some c)"
      and tok: "predecessor E = cfg_stake_token c" and unp: "\<not> paused (self w)"
      and opn: "\<not> adr_final_arbitrator_triggered d"
      and 1: "assert_can_stake_on_outcome d (stake_outcome p) w = Inr ((), ta)"
      and 2: "assert_valid_outcome d (stake_outcome p) ta = Inr ((), tb)"
      and 3: "assert_valid_outcome_type d (stake_outcome p) tb = Inr ((), tc)"
      and st: "adr_stake E d sender (stake_outcome p) n tc = Inr (x, v)"
      and rep: "vec_replace (st_requests (store v)) (data_requests (self v)) (stake_id p) (Active (snd x)) = Inr rs"
      and t: "store t = (store v)\<lparr>st_requests := rs\<rparr>" "self t = self v" "outbox t = outbox v"
      and r: "r = ValueOf (fst x)"
      unfolding dr_stake_def assert_final_arbitrator_not_invoked_def
      by (auto simp: run Let_def)
    have "ta = w"
      using assert_can_stake_challenged [OF 1] request_at(3) [OF get ok]
      by (auto simp: request_ok_def game_def)
    with 2 3 have same: "ta = w" "tc = w"
      by (auto dest: assert_valid_outcome_state assert_valid_outcome_type_state)
    from that [OF get cfg tok unp opn 1 [unfolded same] st [unfolded same] rep t r] show thesis .
  qed
  from request_at [OF get ok] have i: "i < length (request_list w)" "request_list w ! i = Active d"
    and rok: "request_ok (store w) (stake_id p) (Active d)"
    and ci: "unat (adr_global_config_id d) < length (config_list w)"
    by (simp_all add: i_def)
  from rok obtain base where id': "adr_id d = stake_id p" and g: "game (store w) d base"
    by (auto simp: request_ok_def)
  from g have wok: "windows_ok (store w) (adr_id d) (adr_resolution_windows d)" by (simp add: game_def)
  note ch = assert_can_stake_challenged [OF fair wok]
  have st': "adr_stake E d sender (stake_outcome p) n w = Inr ((fst x, snd x), v)" using st by simp
  note rounds = adr_stake_rounds [OF st' g opn]
  have g': "game (store v) (snd x) base" using adr_stake_game [OF st' g opn] ch by simp
  have terms: "same_terms d (snd x)" and fr: "request_frame (stake_id p) (store w) (store v)"
    and sv: "self v = self w" "outbox v = outbox w"
    using rounds by (simp_all add: id')
  have new: "request_ok (store v) (stake_id p) (Active (snd x))"
    using g' terms by (auto simp: request_ok_def same_terms_def id')
  have nc: "unat (get_config_id (Active (snd x))) < length (config_list w)"
    using ci terms by (simp add: same_terms_def)
  have st2: "self t = self w" using t(2) sv(1) by simp
  note cr = contract_ok_replace [OF ok fr sv(1) st2 rep t(1) new nc]
  have ss: "same_stakes (store v) (store t)" by (simp add: same_stakes_def t)
  note views = same_stakes_views [OF ss]
  have "game (store t) (snd x) base" using g' by (simp add: views)
  moreover have "rounds (store t) (snd x) = rounds (store v) (snd x)" by (simp add: rounds_def views)
  moreover have "c = config_list w ! unat (adr_global_config_id d)"
    using config_at_list [OF cfg] ok by (simp add: contract_ok_def)
  ultimately show ?thesis
    using i terms g rounds r tok unp cr st2 t(3) sv(2)
    by (intro exI [of _ d] exI [of _ "snd x"] exI [of _ base] exI [of _ "fst x"])
      (simp add: i_def others_kept_def)
qed

text \<open>No stake comes through once the final arbitrator is called.\<close>

lemma dr_stake_active_open:
  assumes call: "dr_stake E sender n p w = Inr (r, t)" and ok: "contract_ok w"
    and d: "request_list w ! unat (stake_id p) = Active d"
  shows "\<not> adr_final_arbitrator_triggered d"
proof -
  from call obtain d' where
    get: "vec_get (st_requests (store w)) (data_requests (self w)) (stake_id p) = Inr (Some (Active d'))"
    and opn: "\<not> adr_final_arbitrator_triggered d'"
    unfolding dr_stake_def assert_final_arbitrator_not_invoked_def by (auto simp: run Let_def)
  from request_at(2) [OF get ok] d opn show ?thesis by simp
qed

section \<open>Unstaking\<close>

lemma dr_unstake_effect:
  assumes call: "dr_unstake K E i rnd outc n w = Inr (u, t)" and ok: "contract_ok w"
  defines "a \<equiv> predecessor E"
  shows "\<exists>dr note. unat i < length (request_list w) \<and> request_list w ! unat i = dr \<and>
    request_list t = request_list w \<and> \<not> paused (self w) \<and>
    (let rs = rounds_of (store w) (request_windows dr); k = unat rnd in
      k < length rs \<and> unat n \<le> sr_stakes (rs ! k) outc a \<and> sr_bonded (rs ! k) \<noteq> Some outc \<and>
      rounds_of (store t) (request_windows dr) = ladder_unstake rs k a outc (unat n)) \<and>
    outbox t = outbox w @ note @
      [fungible_token_transfer K (cfg_stake_token (config_list w ! unat (get_config_id dr))) a n] \<and>
    (\<forall>p \<in> set note. \<exists>x. p = Transfer a x) \<and>
    contract_ok t \<and> self t = self w \<and> config_list t = config_list w \<and> others_kept w t (unat i)"
proof -
  from call obtain dr r v c where
    get: "vec_get (st_requests (store w)) (data_requests (self w)) i = Inr (Some dr)"
    and un: "dr_unstake_window E dr a rnd outc n w = Inr (r, v)"
    and cfg: "vec_get (st_configs (store v)) (configs (self v)) (get_config_id dr) = Inr (Some c)"
    and unp: "\<not> paused (self w)"
    and t: "store t = store v" "self t = self v"
      "outbox t = outbox v @ refund_note K E (storage_usage E (store w)) a (store v) @
         [fungible_token_transfer K (cfg_stake_token c) a r]"
    by (auto simp: dr_unstake_def run a_def)
  note at = request_at [OF get ok]
  have wok: "windows_ok (store w) i (request_windows dr)" and few: "unat (vec_len (request_windows dr)) < 128"
    using at(3) ladder_few_windows by (auto simp: request_ok_def game_def split: data_request.splits)
  then have few': "unat (vec_len (request_windows dr)) \<le> 2 ^ 16" by simp
  note r = dr_unstake_window_rounds [OF un wok few']
  have fr: "request_frame i (store w) (store t)" and st: "self t = self w" using r by (simp_all add: t)
  have "request_ok (store t) i dr"
  proof (cases dr)
    case (Active d)
    with at(3) obtain base where id': "adr_id d = i" and g: "game (store w) d base" by (auto simp: request_ok_def)
    have "ladder base (adr_final_arbitrator_triggered d)
        (ladder_unstake (rounds_of (store w) (adr_resolution_windows d)) (unat rnd) a outc (unat n))"
      using r g by (intro ladder_unstake_ladder) (simp_all add: game_def Active)
    then show ?thesis
      using r g by (auto simp: request_ok_def game_def Active id' t)
  next
    case (Finalized d)
    then show ?thesis using r at(3) by (simp add: request_ok_def t)
  qed
  then have new: "request_ok (store t) i (request_list w ! unat i)" by (simp add: at(2))
  note ip = contract_ok_in_place [OF ok fr st at(1) new]
  have "st_configs (store v) = st_configs (store w)" "configs (self v) = configs (self w)"
    using r by (simp_all add: request_frame_def)
  then have "c = config_list w ! unat (get_config_id dr)"
    using config_at_list [of w "get_config_id dr" c] cfg ok by (simp add: contract_ok_def)
  moreover have "\<forall>p \<in> set (refund_note K E (storage_usage E (store w)) a (store v)). \<exists>x. p = Transfer a x"
    by (auto simp: refund_note_def split: sum.splits)
  ultimately show ?thesis
    using at(1,2) r ip unp st
    by (intro exI [of _ dr] exI [of _ "refund_note K E (storage_usage E (store w)) a (store v)"])
      (auto simp: Let_def t others_kept_def)
qed

section \<open>Claims\<close>

lemma dr_claim_effect:
  assumes call: "dr_claim K E a i w = Inr (p, t)" and ok: "contract_ok w"
  shows "\<exists>d res note. unat i < length (request_list w) \<and> request_list w ! unat i = Finalized d \<and>
    request_list t = request_list w \<and> \<not> paused (self w) \<and>
    (let rs = rounds_of (store w) (fdr_resolution_windows d); f = fdr_finalized_outcome d in
      unat (stake_token_payout res) = ladder_payout f rs a \<and>
      unat (payment_token_payout res) =
        share (correct_stake f rs a) (unat (fdr_paid_fee d)) (correct_bonds f rs) \<and>
      rounds_of (store t) (fdr_resolution_windows d) = ladder_claim f rs a) \<and>
    claim_promise K (config_list w ! unat (fdr_global_config_id d)) a res = Inr p \<and>
    outbox t = outbox w @ note @ [p] \<and> (\<forall>q \<in> set note. \<exists>x. q = Transfer (predecessor E) x) \<and>
    contract_ok t \<and> self t = self w \<and> config_list t = config_list w \<and> others_kept w t (unat i)"
proof -
  from call obtain d res v c where
    get: "vec_get (st_requests (store w)) (data_requests (self w)) i = Inr (Some (Finalized d))"
    and cl: "fdr_claim E d a w = Inr (res, v)"
    and cfg: "vec_get (st_configs (store v)) (configs (self v)) (fdr_global_config_id d) = Inr (Some c)"
    and unp: "\<not> paused (self w)" and prom: "claim_promise K c a res = Inr p"
    and t: "store t = store v" "self t = self v"
      "outbox t = outbox v @ refund_note K E (storage_usage E (store w)) (predecessor E) (store v) @ [p]"
    by (auto simp: dr_claim_def run)
  note at = request_at [OF get ok]
  have wok: "windows_ok (store w) i (fdr_resolution_windows d)"
    and few: "unat (vec_len (fdr_resolution_windows d)) < 128"
    using at(3) by (auto simp: request_ok_def)
  then have few': "unat (vec_len (fdr_resolution_windows d)) \<le> 2 ^ 16" by simp
  note r = fdr_claim_rounds [OF cl wok few']
  have fr: "request_frame i (store w) (store t)" and st: "self t = self w" using r by (simp_all add: t)
  have new: "request_ok (store t) i (request_list w ! unat i)"
    using r at(3) by (simp add: at(2) request_ok_def t)
  note ip = contract_ok_in_place [OF ok fr st at(1) new]
  have "st_configs (store v) = st_configs (store w)" "configs (self v) = configs (self w)"
    using r by (simp_all add: request_frame_def)
  then have "c = config_list w ! unat (fdr_global_config_id d)"
    using config_at_list [of w "fdr_global_config_id d" c] cfg ok by (simp add: contract_ok_def)
  moreover have "\<forall>q \<in> set (refund_note K E (storage_usage E (store w)) (predecessor E) (store v)).
      \<exists>x. q = Transfer (predecessor E) x"
    by (auto simp: refund_note_def split: sum.splits)
  ultimately show ?thesis
    using at(1,2) r ip unp st prom
    by (intro exI [of _ d] exI [of _ res]
        exI [of _ "refund_note K E (storage_usage E (store w)) (predecessor E) (store v)"])
      (auto simp: Let_def t others_kept_def)
qed

section \<open>Finalization\<close>

text \<open>All three ways to finalize replace an active request by its trimmed form.\<close>

lemma trim_ok:
  assumes "request_ok st i (Active d)"
  shows "request_ok st i (Finalized (trim_dr d f))"
  using assms ladder_few_windows by (auto simp: request_ok_def trim_dr_def game_def)

definition finalized_as :: "world \<Rightarrow> world \<Rightarrow> u64 \<Rightarrow> active_data_request \<Rightarrow> outcome \<Rightarrow> bool" where
  "finalized_as w t i d f \<longleftrightarrow>
     unat i < length (request_list w) \<and> request_list w ! unat i = Active d \<and>
     request_list t = (request_list w)[unat i := Finalized (trim_dr d f)] \<and>
     rounds_of (store t) (adr_resolution_windows d) = rounds (store w) d \<and>
     contract_ok t \<and> self t = self w \<and> config_list t = config_list w \<and> others_kept w t (unat i)"

lemma finalized_as_intro:
  assumes ok: "contract_ok w"
    and get: "vec_get (st_requests (store w)) (data_requests (self w)) i = Inr (Some (Active d))"
    and rep: "vec_replace (st_requests (store w)) (data_requests (self w)) i (Finalized (trim_dr d f)) = Inr r"
    and t: "store t = (store w)\<lparr>st_requests := r\<rparr>" "self t = self w"
  shows "finalized_as w t i d f"
proof -
  note at = request_at [OF get ok]
  have cfg: "unat (get_config_id (Finalized (trim_dr d f))) < length (config_list w)"
    using at(4) by (simp add: trim_dr_def)
  note cr = contract_ok_replace [OF ok request_frame_refl refl t(2) rep t(1) trim_ok [OF at(3)] cfg]
  have "same_stakes (store w) (store t)" by (simp add: same_stakes_def t)
  from same_stakes_views(2) [OF this] at(1,2) cr t(2) show ?thesis
    by (simp add: finalized_as_def rounds_def others_kept_def)
qed

definition bond_promises :: "sdk \<Rightarrow> world \<Rightarrow> active_data_request \<Rightarrow> outcome \<Rightarrow> oracle_promise list" where
  "bond_promises K w d f =
     (case f of
        Invalid \<Rightarrow> []
      | Answer _ \<Rightarrow> [fungible_token_transfer K
          (cfg_payment_token (config_list w ! unat (adr_global_config_id d)))
          (account_id (adr_requester d)) (rc_validity_bond (adr_request_config d))])"

lemma schedule_pv_bond [run]:
  "schedule_pv (return_validity_bond K (trim_dr d f) (cfg_payment_token c) (account_id (adr_requester d))
      (rc_validity_bond (adr_request_config d))) w = Inr (u, t) \<longleftrightarrow>
   t = w\<lparr>outbox := outbox w @ (case f of Invalid \<Rightarrow> []
      | Answer _ \<Rightarrow> [fungible_token_transfer K (cfg_payment_token c) (account_id (adr_requester d))
          (rc_validity_bond (adr_request_config d))])\<rparr>"
  by (auto simp: schedule_pv_def return_validity_bond_def trim_dr_def run split: outcome.splits)

text \<open>The final outcome is the one the last but one window is bonded on.\<close>

lemma get_final_outcome_Inr:
  assumes call: "get_final_outcome d w = Inr (f, t)"
    and ok: "windows_ok (store w) (adr_id d) (adr_resolution_windows d)"
  shows "t = w \<and> 2 \<le> length (rounds (store w) d) \<and> challenged (rounds (store w) d) = Some f"
proof -
  let ?h = "adr_resolution_windows d"
  from call obtain win where le: "2 \<le> vec_len ?h" and t: "t = w"
    and get: "vec_get (st_windows (store w)) ?h (vec_len ?h - 2) = Inr (Some win)"
    and b: "rw_bonded_outcome win = Some f"
    by (auto simp: get_final_outcome_def Let_def run)
  from le have k: "unat (vec_len ?h - 2) = unat (vec_len ?h) - 2" and big: "2 \<le> unat (vec_len ?h)"
    by (simp_all add: exact unats)
  have "vec_ok (st_windows (store w)) ?h" using ok by (simp add: windows_ok_def')
  from vec.get_some [OF get this] have "win = windows_of (store w) ?h ! (unat (vec_len ?h) - 2)"
    by (simp add: windows_of_def k)
  then show ?thesis
    using big b t by (simp add: challenged_def rounds_def rounds_of_nth)
qed

lemma assert_can_finalize_Inr:
  assumes call: "assert_can_finalize E d w = Inr (u, t)"
    and ok: "windows_ok (store w) (adr_id d) (adr_resolution_windows d)"
  shows "t = w \<and> \<not> adr_final_arbitrator_triggered d \<and>
    rw_end_time (last (windows_of (store w) (adr_resolution_windows d))) \<le> block_timestamp E"
proof -
  let ?h = "adr_resolution_windows d"
  from call obtain win where ne: "vec_len ?h \<noteq> 0" and t: "t = w"
    and get: "vec_get (st_windows (store w)) ?h (vec_len ?h - 1) = Inr (Some win)"
    and c: "\<not> adr_final_arbitrator_triggered d" "rw_end_time win \<le> block_timestamp E"
    by (auto simp: assert_can_finalize_def Let_def run)
  have "vec_ok (st_windows (store w)) ?h" using ok by (simp add: windows_ok_def')
  from window_at_last [OF this ne get] c t show ?thesis by simp
qed

lemma dr_finalize_effect:
  assumes call: "dr_finalize K E i w = Inr (u, t)" and ok: "contract_ok w"
  shows "\<exists>d f note. finalized_as w t i d f \<and> \<not> paused (self w) \<and> \<not> adr_final_arbitrator_triggered d \<and>
    2 \<le> length (rounds (store w) d) \<and> challenged (rounds (store w) d) = Some f \<and>
    rw_end_time (last (windows_of (store w) (adr_resolution_windows d))) \<le> block_timestamp E \<and>
    outbox t = outbox w @ set_outcome K (adr_requester d) f (adr_tags d) # bond_promises K w d f @ note \<and>
    (\<forall>q \<in> set note. \<exists>x. q = Transfer (predecessor E) x)"
proof -
  from call obtain d f ta tb c r st where
    get: "vec_get (st_requests (store w)) (data_requests (self w)) i = Inr (Some (Active d))"
    and fin: "assert_can_finalize E d w = Inr ((), ta)" and out: "get_final_outcome d ta = Inr (f, tb)"
    and cfg: "vec_get (st_configs (store tb)) (configs (self tb)) (adr_global_config_id d) = Inr (Some c)"
    and unp: "\<not> paused (self w)"
    and rep: "vec_replace (st_requests (store tb)) (data_requests (self tb)) i (Finalized (trim_dr d f)) = Inr r"
    and t: "store t = (store tb)\<lparr>st_requests := r\<rparr>" "self t = self tb"
      "outbox t = outbox tb @ set_outcome K (adr_requester d) f (adr_tags d) #
        (case f of Invalid \<Rightarrow> [] | Answer _ \<Rightarrow> [fungible_token_transfer K (cfg_payment_token c)
          (account_id (adr_requester d)) (rc_validity_bond (adr_request_config d))]) @
        refund_note K E (storage_usage E (store w)) (predecessor E) (store tb)"
    by (auto simp: dr_finalize_def run Let_def)
  from request_at(3) [OF get ok] have wok: "windows_ok (store w) (adr_id d) (adr_resolution_windows d)"
    by (auto simp: request_ok_def game_def)
  note f1 = assert_can_finalize_Inr [OF fin wok]
  then have ta: "ta = w" by simp
  note f2 = get_final_outcome_Inr [OF out [unfolded ta] wok]
  then have tb: "tb = w" by simp
  from cfg config_at_list [of w "adr_global_config_id d" c] ok tb
  have c: "c = config_list w ! unat (adr_global_config_id d)" by (simp add: contract_ok_def)
  have "finalized_as w t i d f"
    using finalized_as_intro [OF ok get rep [unfolded tb]] t by (simp add: tb)
  moreover have "\<forall>q \<in> set (refund_note K E (storage_usage E (store w)) (predecessor E) (store w)).
      \<exists>x. q = Transfer (predecessor E) x"
    by (auto simp: refund_note_def split: sum.splits)
  ultimately show ?thesis
    using f1 f2 unp t
    by (intro exI [of _ d] exI [of _ f]
        exI [of _ "refund_note K E (storage_usage E (store w)) (predecessor E) (store w)"])
      (simp add: tb c bond_promises_def split: outcome.split)
qed

lemma dr_final_arbitrator_finalize_effect:
  assumes call: "dr_final_arbitrator_finalize K E i f w = Inr (p, t)" and ok: "contract_ok w"
  shows "\<exists>d note. finalized_as w t i d f \<and> \<not> paused (self w) \<and> adr_final_arbitrator_triggered d \<and>
    predecessor E = rc_final_arbitrator (adr_request_config d) \<and>
    outbox t = outbox w @ set_outcome K (adr_requester d) f (adr_tags d) # note @ bond_promises K w d f \<and>
    (\<forall>q \<in> set note. \<exists>x. q = Transfer (predecessor E) x)"
proof -
  from call obtain d ta c r where
    get: "vec_get (st_requests (store w)) (data_requests (self w)) i = Inr (Some (Active d))"
    and val: "assert_valid_outcome d f w = Inr ((), ta)"
    and cfg: "vec_get (st_configs (store ta)) (configs (self ta)) (adr_global_config_id d) = Inr (Some c)"
    and unp: "\<not> paused (self w)" and trig: "adr_final_arbitrator_triggered d"
    and arb: "rc_final_arbitrator (adr_request_config d) = predecessor E"
    and rep: "vec_replace (st_requests (store ta)) (data_requests (self ta)) i (Finalized (trim_dr d f)) = Inr r"
    and t: "store t = (store ta)\<lparr>st_requests := r\<rparr>" "self t = self ta"
      "outbox t = outbox ta @ set_outcome K (adr_requester d) f (adr_tags d) #
        refund_note K E (storage_usage E (store w)) (predecessor E) ((store ta)\<lparr>st_requests := r\<rparr>) @
        (case f of Invalid \<Rightarrow> [] | Answer _ \<Rightarrow> [fungible_token_transfer K (cfg_payment_token c)
          (account_id (adr_requester d)) (rc_validity_bond (adr_request_config d))])"
    by (auto simp: dr_final_arbitrator_finalize_def assert_final_arbitrator_def
        assert_final_arbitrator_invoked_def run Let_def)
  from assert_valid_outcome_state [OF val] have ta: "ta = w" .
  from cfg config_at_list [of w "adr_global_config_id d" c] ok ta
  have c: "c = config_list w ! unat (adr_global_config_id d)" by (simp add: contract_ok_def)
  have "finalized_as w t i d f"
    using finalized_as_intro [OF ok get rep [unfolded ta]] t by (simp add: ta)
  moreover have "\<forall>q \<in> set (refund_note K E (storage_usage E (store w)) (predecessor E)
      ((store w)\<lparr>st_requests := r\<rparr>)). \<exists>x. q = Transfer (predecessor E) x"
    by (auto simp: refund_note_def split: sum.splits)
  ultimately show ?thesis
    using unp trig arb t
    by (intro exI [of _ d]
        exI [of _ "refund_note K E (storage_usage E (store w)) (predecessor E) ((store w)\<lparr>st_requests := r\<rparr>)"])
      (simp add: ta c bond_promises_def split: outcome.split)
qed

lemma provider_check_Inr:
  "(case p of None \<Rightarrow> panic e' | Some x \<Rightarrow> ensure (x = a) e) w = Inr (u, t) \<longleftrightarrow> p = Some a \<and> t = w"
  by (auto simp: run split: option.split)

text \<open>Finalization by the provider returns no validity bond, whatever the outcome.\<close>

lemma dr_finalize_by_provider_effect:
  assumes call: "dr_finalize_by_provider K E i f w = Inr (u, t)" and ok: "contract_ok w"
  shows "\<exists>d note. finalized_as w t i d f \<and> \<not> paused (self w) \<and> adr_provider d = Some (predecessor E) \<and>
    outbox t = outbox w @ set_outcome K (adr_requester d) f (adr_tags d) # note \<and>
    (\<forall>q \<in> set note. \<exists>x. q = Transfer (predecessor E) x)"
proof -
  from call obtain d ta r where
    get: "vec_get (st_requests (store w)) (data_requests (self w)) i = Inr (Some (Active d))"
    and val: "assert_valid_outcome d f w = Inr ((), ta)"
    and prov: "adr_provider d = Some (predecessor E)" and unp: "\<not> paused (self w)"
    and rep: "vec_replace (st_requests (store ta)) (data_requests (self ta)) i (Finalized (trim_dr d f)) = Inr r"
    and t: "store t = (store ta)\<lparr>st_requests := r\<rparr>" "self t = self ta"
      "outbox t = outbox ta @ set_outcome K (adr_requester d) f (adr_tags d) #
        refund_note K E (storage_usage E (store w)) (predecessor E) ((store ta)\<lparr>st_requests := r\<rparr>)"
    by (auto simp: dr_finalize_by_provider_def run Let_def provider_check_Inr simp del: case_option_run)
  from assert_valid_outcome_state [OF val] have ta: "ta = w" .
  have "finalized_as w t i d f"
    using finalized_as_intro [OF ok get rep [unfolded ta]] t by (simp add: ta)
  moreover have "\<forall>q \<in> set (refund_note K E (storage_usage E (store w)) (predecessor E)
      ((store w)\<lparr>st_requests := r\<rparr>)). \<exists>x. q = Transfer (predecessor E) x"
    by (auto simp: refund_note_def split: sum.splits)
  ultimately show ?thesis
    using unp prov t
    by (intro exI [of _ d]
        exI [of _ "refund_note K E (storage_usage E (store w)) (predecessor E) ((store w)\<lparr>st_requests := r\<rparr>)"])
      (simp add: ta)
qed

section \<open>New requests\<close>

text \<open>A request whose bond is zero would be bonded by an empty stake; the invariant excludes it.\<close>

definition positive_bond :: "data_request \<Rightarrow> bool" where
  "positive_bond dr =
     (case dr of
        Active d \<Rightarrow> (case calc_resolution_bond d of Inr b \<Rightarrow> 0 < b | Inl _ \<Rightarrow> False)
      | Finalized _ \<Rightarrow> True)"

lemma adr_new_fields:
  assumes "adr_new r i g c fee p = Inr d"
  shows "adr_id d = i" "adr_resolution_windows d = vec_new (windows_prefix i)" "adr_global_config_id d = g"
    "\<not> adr_final_arbitrator_triggered d" "adr_requester d = r" "arg_sources p = Some (adr_sources d)"
    "rc_paid_fee (adr_request_config d) = fee" "rc_validity_bond (adr_request_config d) = cfg_validity_bond c"
    "rc_min_resolution_bond (adr_request_config d) = cfg_min_resolution_bond c"
    "rc_stake_multiplier (adr_request_config d) = stake_multiplier r"
    "rc_final_arbitrator (adr_request_config d) = cfg_final_arbitrator c" "adr_provider d = arg_provider p"
  using assms by (auto simp: adr_new_def split: option.splits)

lemma dr_new_effect:
  assumes call: "dr_new K E sender amount p w = Inr (r, t)" and ok: "contract_ok w"
  defines "c \<equiv> last (config_list w)"
  shows "r = 0 \<and> (\<exists>q d. admitted w sender = Some q \<and>
    adr_new q (vec_len (data_requests (self w))) (vec_len (configs (self w)) - 1) c
      (amount - cfg_validity_bond c) p = Inr d \<and>
    request_list t = request_list w @ [Active d] \<and> same_stakes (store w) (store t) \<and>
    predecessor E = cfg_payment_token c \<and> cfg_validity_bond c \<le> amount \<and>
    args_within K c (\<lambda>n. n mod 256) p \<and> \<not> paused (self w) \<and>
    config_list t = config_list w \<and> paused (self t) = paused (self w) \<and>
    outbox t = outbox w \<and> (positive_bond (Active d) \<longrightarrow> contract_ok t))"
proof -
  have cok: "configs_ok w" using ok by (simp add: contract_ok_def)
  from call obtain q d ta h' rs where r: "r = 0" and adm: "admitted w sender = Some q"
    and new: "adr_new q (vec_len (data_requests (self w))) (vec_len (configs (self w)) - 1) c
      (amount - cfg_validity_bond c) p = Inr d"
    and push: "vec_push (st_requests (store w)) (data_requests (self w)) (Active d) = Inr (rs, h')"
    and val: "dr_validate K p w = Inr ((), w)"
    and checks: "predecessor E = cfg_payment_token c" "cfg_validity_bond c \<le> amount" "\<not> paused (self w)"
    and t: "store t = (store w)\<lparr>st_requests := rs\<rparr>" "self t = (self w)\<lparr>data_requests := h'\<rparr>" "outbox t = outbox w"
  proof -
    from call obtain ta where val: "dr_validate K p w = Inr ((), ta)"
      by (auto simp: dr_new_def run Let_def current_config_ok [OF cok])
    with dr_validate_state [OF val] have val': "dr_validate K p w = Inr ((), w)" by simp
    from call val' that show thesis
      by (auto simp: dr_new_def run Let_def current_config_ok [OF cok] c_def)
  qed
  note fields = adr_new_fields [OF new]
  have vok: "vec_ok (st_requests (store w)) (data_requests (self w))" using ok by (simp add: contract_ok_def)
  from vec.push_items [OF push vok] have vok': "vec_ok (st_requests (store t)) (data_requests (self t))"
    and rl: "request_list t = request_list w @ [Active d]"
    by (simp_all add: request_list_def t)
  have ss: "same_stakes (store w) (store t)" by (simp add: same_stakes_def t)
  note sv = same_stakes_views [OF ss]
  have cl: "config_list t = config_list w" "configs_ok t = configs_ok w"
    by (rule configs_ok_cong; simp add: t)+
  have len: "unat (vec_len (data_requests (self w))) = length (request_list w)" by (simp add: request_list_def)
  have "contract_ok t" if pos: "positive_bond (Active d)"
  proof -
    from pos obtain b where b: "calc_resolution_bond d = Inr b" "0 < b"
      by (auto simp: positive_bond_def split: sum.splits)
    have "blank (store w) (vec_len (data_requests (self w))) r" for r
      using ok by (simp add: contract_ok_def len)
    then have "windows_ok (store w) (adr_id d) (adr_resolution_windows d)"
      by (simp add: windows_ok_def' fields) (simp add: vec_new_def)
    moreover have "windows_of (store w) (adr_resolution_windows d) = []"
      by (simp add: windows_of_def fields)
    ultimately have "game (store w) d (unat b)"
      using b fields(4) by (simp add: game_def windows_balanced_def rounds_of_def unat_gt_0 word_gt_0)
    then have rok: "request_ok (store t) (adr_id d) (Active d)"
      by (auto simp: request_ok_def sv)
    have "unat (vec_len (configs (self w)) - 1) < length (config_list w)"
    proof -
      have "vec_len (configs (self w)) \<noteq> 0"
        using cok by (auto simp: configs_ok_def config_list_def vec_elems_def)
      then show ?thesis
        by (simp add: config_list_def unat_minus_one unat_gt_0)
    qed
    then have cfg: "unat (adr_global_config_id d) < length (config_list w)" by (simp add: fields)
    have each: "request_ok (store t) i (request_list t ! unat i) \<and>
        unat (get_config_id (request_list t ! unat i)) < length (config_list w)"
      if "unat i < length (request_list t)" for i
    proof (cases "unat i = length (request_list w)")
      case True
      then have "i = adr_id d" by (metis fields(1) len unat_eq_iff)
      with True rok cfg show ?thesis by (simp add: rl)
    next
      case False
      with that have "unat i < length (request_list w)" by (simp add: rl)
      with ok show ?thesis by (simp add: contract_ok_def rl nth_append sv)
    qed
    have "blank (store t) i r" if "length (request_list t) \<le> unat i" for i r
      using that ok by (simp add: contract_ok_def sv rl)
    with each vok' cok show ?thesis by (simp add: contract_ok_def cl)
  qed
  moreover have "args_within K c (\<lambda>n. n mod 256) p"
    using val dr_validate_exact [OF cok] by (simp add: c_def)
  ultimately show ?thesis
    using r adm new rl ss checks cl t by auto
qed

section \<open>Methods that touch no request\<close>

lemma use_storage_frame:
  assumes "use_storage K E a i b w = Inr (u, t)"
  shows "\<exists>x. store t = (store w)\<lparr>st_accounts := x\<rparr> \<and> self t = self w \<and> outbox t = outbox w"
  using assms by (auto simp: use_storage_def run Let_def split: if_splits)

lemma storage_deposit_frame:
  assumes "storage_deposit E who w = Inr (b, t)"
  shows "\<exists>x. store t = (store w)\<lparr>st_accounts := x\<rparr> \<and> self t = self w"
  using assms by (auto simp: storage_deposit_def run Let_def)

lemma storage_withdraw_frame:
  assumes "storage_withdraw E n w = Inr (b, t)"
  shows "\<exists>x. store t = (store w)\<lparr>st_accounts := x\<rparr> \<and> self t = self w"
  using assms by (auto simp: storage_withdraw_def run Let_def)

lemma add_to_whitelist_frame:
  assumes "add_to_whitelist K E r w = Inr (u, t)"
  shows "\<exists>x. store t = (store w)\<lparr>st_whitelist := x\<rparr> \<and>
    data_requests (self t) = data_requests (self w) \<and> configs (self t) = configs (self w)"
  using assms
  by (cases "whitelist (self w)"; cases "stake_multiplier r")
    (auto simp: add_to_whitelist_def whitelist_handle_def run Let_def)

lemma remove_from_whitelist_frame:
  assumes "remove_from_whitelist K E r w = Inr (u, t)"
  shows "\<exists>x. store t = (store w)\<lparr>st_whitelist := x\<rparr> \<and> self t = self w"
  using assms
  by (cases "whitelist (self w)")
    (auto simp: remove_from_whitelist_def whitelist_handle_def run Let_def)

text \<open>
  All of them keep the requests, the stakes and, for every configuration, its two token
  contracts, and schedule no promise that moves tokens.
\<close>

definition tokens_kept :: "world \<Rightarrow> world \<Rightarrow> bool" where
  "tokens_kept w t \<longleftrightarrow> (\<forall>i < length (config_list w). i < length (config_list t) \<and>
     cfg_stake_token (config_list t ! i) = cfg_stake_token (config_list w ! i) \<and>
     cfg_payment_token (config_list t ! i) = cfg_payment_token (config_list w ! i))"

definition quiet :: "world \<Rightarrow> world \<Rightarrow> bool" where
  "quiet w t \<longleftrightarrow> same_stakes (store w) (store t) \<and> st_requests (store t) = st_requests (store w) \<and>
     data_requests (self t) = data_requests (self w) \<and> configs_ok t \<and> tokens_kept w t \<and> tokenless (outbox w) t"

lemma tokens_kept_same: "config_list t = config_list w \<Longrightarrow> tokens_kept w t"
  by (simp add: tokens_kept_def)

lemma tokens_kept_length: "tokens_kept w t \<Longrightarrow> length (config_list w) \<le> length (config_list t)"
  by (auto simp: tokens_kept_def not_less [symmetric])

lemma quiet_same_configs:
  assumes "configs_ok w" and "same_stakes (store w) (store t)" and "st_requests (store t) = st_requests (store w)"
    and "data_requests (self t) = data_requests (self w)"
    and "st_configs (store t) = st_configs (store w)" and "configs (self t) = configs (self w)"
    and "tokenless (outbox w) t"
  shows "quiet w t"
  using assms configs_ok_cong [of t w] by (simp add: quiet_def tokens_kept_same)

lemma quiet_keeps:
  assumes "quiet w t" and "contract_ok w"
  shows "contract_ok t" "request_list t = request_list w" "rounds_of (store t) = rounds_of (store w)"
  using contract_ok_elsewhere [OF assms(2), of t] assms(1) by (simp_all add: quiet_def tokens_kept_length)

text \<open>The promises of the methods that touch no request, action by action.\<close>

lemma keeps_tokenless [keep]:
  "keeps (tokenless ob) (emit ev)" "keeps (tokenless ob) (configs_push c)" "keeps (tokenless ob) (configs_replace i c)"
  "keeps (tokenless ob) (configs_get i)" "keeps (tokenless ob) (whitelist_insert h k r)"
  "keeps (tokenless ob) (whitelist_remove h k)" "keeps (tokenless ob) (accounts_get k)"
  "keeps (tokenless ob) (accounts_insert k v)" "keeps (tokenless ob) (schedule (Transfer a n))"
  "keeps (tokenless ob) (schedule (DeployAndCall a m d g))" "keeps (tokenless ob) (modifies (\<lambda>v. v\<lparr>self := f v\<rparr>))"
  "keeps (tokenless ob) (refund_storage K E i a)" "keeps (tokenless ob) (usage E)"
  by (auto simp: keeps_def run tokenless_def)

lemma keeps_tokenless_calls [keep]:
  "keeps (tokenless ob) configs_len" "keeps (tokenless ob) (assert_gov E)" "keeps (tokenless ob) get_config"
  "keeps (tokenless ob) whitelist_handle" "keeps (tokenless ob) (get_storage_account a)"
  "keeps (tokenless ob) (assert_one_yocto E)"
  by (auto simp: configs_len_def assert_gov_def get_config_def whitelist_handle_def get_storage_account_def
      assert_one_yocto_def intro!: keep)

lemma tokenless_calls:
  "set_config K E c w = Inr (u, t) \<Longrightarrow> tokenless (outbox w) t"
  "update_fee_config K E fc w = Inr (u, t) \<Longrightarrow> tokenless (outbox w) t"
  "toggle_pause E w = Inr (u, t) \<Longrightarrow> tokenless (outbox w) t"
  "add_to_whitelist K E r w = Inr (u, t) \<Longrightarrow> tokenless (outbox w) t"
  "remove_from_whitelist K E r w = Inr (u, t) \<Longrightarrow> tokenless (outbox w) t"
  "storage_deposit E who w = Inr (b, t) \<Longrightarrow> tokenless (outbox w) t"
  "storage_withdraw E n w = Inr (b, t) \<Longrightarrow> tokenless (outbox w) t"
  "upgrade E s w = Inr (u, t) \<Longrightarrow> tokenless (outbox w) t"
  "migrate s w = Inr (u, t) \<Longrightarrow> tokenless (outbox w) t"
  by (erule keepsD [rotated], rule tokenless_same [OF refl],
      auto simp: set_config_def update_fee_config_def toggle_pause_def add_to_whitelist_def remove_from_whitelist_def
        storage_deposit_def storage_withdraw_def upgrade_def migrate_def Let_def intro!: keep split: option.split)+

lemma set_config_quiet: "set_config K E c w = Inr (u, t) \<Longrightarrow> configs_ok w \<Longrightarrow> quiet w t"
  using set_config_Inr [of K E c w u t] tokenless_calls(1) [of K E c w u t]
  by (auto simp: quiet_def same_but_configs_def same_stakes_def tokens_kept_def nth_append)

lemma update_fee_config_quiet:
  assumes call: "update_fee_config K E f w = Inr (u, t)" and ok: "configs_ok w"
  shows "quiet w t"
proof -
  let ?cs = "config_list w"
  from update_fee_config_Inr [OF assms] have cl: "config_list t = butlast ?cs @ [(last ?cs)\<lparr>cfg_fee := f\<rparr>]"
    and t: "configs_ok t" "same_but_configs w t" by simp_all
  from ok have "?cs \<noteq> []" by (simp add: configs_ok_def)
  then have "config_list t = ?cs[length ?cs - 1 := (?cs ! (length ?cs - 1))\<lparr>cfg_fee := f\<rparr>]"
    by (simp add: cl list_update_last_Suc last_conv_nth)
  then have "tokens_kept w t" by (auto simp: tokens_kept_def nth_list_update)
  with t tokenless_calls(2) [OF call] show ?thesis
    by (auto simp: quiet_def same_but_configs_def same_stakes_def)
qed

lemma toggle_pause_quiet: "toggle_pause E w = Inr (u, t) \<Longrightarrow> configs_ok w \<Longrightarrow> quiet w t"
  using toggle_pause_Inr [of E w u t] by (auto intro!: quiet_same_configs simp: tokenless_same)

lemma add_to_whitelist_quiet: "add_to_whitelist K E r w = Inr (u, t) \<Longrightarrow> configs_ok w \<Longrightarrow> quiet w t"
  using add_to_whitelist_frame [of K E r w u t] tokenless_calls(4) [of K E r w u t]
  by (auto intro!: quiet_same_configs simp: same_stakes_def)

lemma remove_from_whitelist_quiet: "remove_from_whitelist K E r w = Inr (u, t) \<Longrightarrow> configs_ok w \<Longrightarrow> quiet w t"
  using remove_from_whitelist_frame [of K E r w u t] tokenless_calls(5) [of K E r w u t]
  by (auto intro!: quiet_same_configs simp: same_stakes_def)

lemma storage_deposit_quiet: "storage_deposit E who w = Inr (b, t) \<Longrightarrow> configs_ok w \<Longrightarrow> quiet w t"
  using storage_deposit_frame [of E who w b t] tokenless_calls(6) [of E who w b t]
  by (auto intro!: quiet_same_configs simp: same_stakes_def)

lemma storage_withdraw_quiet: "storage_withdraw E n w = Inr (b, t) \<Longrightarrow> configs_ok w \<Longrightarrow> quiet w t"
  using storage_withdraw_frame [of E n w b t] tokenless_calls(7) [of E n w b t]
  by (auto intro!: quiet_same_configs simp: same_stakes_def)

lemma use_storage_quiet: "use_storage K E a i n w = Inr (u, t) \<Longrightarrow> configs_ok w \<Longrightarrow> quiet w t"
  using use_storage_frame [of K E a i n w u t]
  by (auto intro!: quiet_same_configs tokenless_same simp: same_stakes_def)

lemma upgrade_quiet: "upgrade E (Some (self w)) w = Inr (u, t) \<Longrightarrow> configs_ok w \<Longrightarrow> quiet w t"
  using upgrade_Inr [of E w u t] tokenless_calls(8) [of E "Some (self w)" w u t]
  by (auto intro!: quiet_same_configs)

lemma migrate_quiet: "migrate (Some (self w)) w = Inr (u, t) \<Longrightarrow> configs_ok w \<Longrightarrow> quiet w t"
  by (auto simp: migrate_Inr intro!: quiet_same_configs tokenless_same)

text \<open>A token transfer into the contract is a new request or a stake, then the storage account.\<close>

lemma ft_on_transfer_Inr:
  assumes call: "ft_on_transfer parse K E a n msg w = Inr (r, t)" and ok: "configs_ok w"
  shows "\<exists>p v x y. parse msg = Some p \<and> use_storage K E a x y v = Inr ((), t) \<and>
    (case p of
       NewDataRequest q \<Rightarrow> \<exists>z. r = ValueOf z \<and> dr_new K E a n q w = Inr (z, v)
     | StakeDataRequest q \<Rightarrow> dr_stake E a n q w = Inr (r, v) \<and>
         predecessor E = cfg_stake_token (last (config_list w)))"
proof -
  let ?c = "last (config_list w)"
  from call obtain p v where p: "parse msg = Some p"
    and body: "(case p of
         NewDataRequest q \<Rightarrow>
           bindM (ensure (cfg_payment_token ?c = predecessor E) (Validation ErrWrongPaymentToken)) (\<lambda>_.
           ft_dr_new_callback K E a n q)
       | StakeDataRequest q \<Rightarrow>
           bindM (ensure (cfg_stake_token ?c = predecessor E) (Validation ErrWrongStakeToken)) (\<lambda>_.
           dr_stake E a n q)) w = Inr (r, v)"
    and use: "use_storage K E a (storage_usage E (store w)) (asb_available (deposit_of w a)) v = Inr ((), t)"
    by (auto simp: ft_on_transfer_def bindM_Inr usage_Inr get_storage_account_Inr expect_Inr get_config_Inr
        ret_Inr current_config_ok [OF ok])
  show ?thesis
  proof (cases p)
    case (NewDataRequest q)
    with body obtain z where "r = ValueOf z" "dr_new K E a n q w = Inr (z, v)"
      by (auto simp: ft_dr_new_callback_def run)
    with p use NewDataRequest show ?thesis by auto
  next
    case (StakeDataRequest q)
    with body have "dr_stake E a n q w = Inr (r, v)" "predecessor E = cfg_stake_token ?c"
      by (auto simp: run)
    with p use StakeDataRequest show ?thesis by auto
  qed
qed

end
