(* ===== verification/Conservation.thy ===== *)
theory Conservation
  imports Main
begin

text \<open>
  Runs of a labelled step relation, and the interface of a system that never pays out more than
  it has taken in: each step keeps an invariant and covers its outflow by what it owed before
  and its inflow, account by account. Conservation along a run is proved here once.
\<close>

fun path :: "('s \<Rightarrow> 'e \<Rightarrow> 's \<Rightarrow> bool) \<Rightarrow> 's \<Rightarrow> 'e list \<Rightarrow> 's \<Rightarrow> bool" where
  "path step w [] t \<longleftrightarrow> t = w"
| "path step w (f # fs) t \<longleftrightarrow> (\<exists>v. step w f v \<and> path step v fs t)"

lemma path_append: "path step w (fs @ gs) t \<longleftrightarrow> (\<exists>v. path step w fs v \<and> path step v gs t)"
  by (induction fs arbitrary: w) auto

text \<open>What every step keeps holds after any number of steps.\<close>

lemma path_keeps:
  assumes "path step w fs t" and "P w" and "\<And>v f u. step v f u \<Longrightarrow> P v \<Longrightarrow> P u"
  shows "P t"
  using assms(1,2) by (induction fs arbitrary: w) (auto intro: assms(3))

text \<open>A path of the steps whose labels satisfy a condition.\<close>

lemma path_restrict:
  "path step w fs t \<and> (\<forall>f \<in> set fs. good f) \<longleftrightarrow> path (\<lambda>w f t. step w f t \<and> good f) w fs t"
  by (induction fs arbitrary: w) auto

lemma path_snoc: "path step w fs v \<Longrightarrow> step v f t \<Longrightarrow> path step w (fs @ [f]) t"
  by (auto simp: path_append)

locale conserving =
  fixes step :: "'s \<Rightarrow> 'e \<Rightarrow> 's \<Rightarrow> bool"
    and inv :: "'s \<Rightarrow> bool"
    and owes :: "'s \<Rightarrow> 'i \<Rightarrow> nat"
    and inflow :: "'i \<Rightarrow> 'e \<Rightarrow> nat"
    and outflow :: "'i \<Rightarrow> 'e \<Rightarrow> nat"
  assumes step_inv: "step w f t \<Longrightarrow> inv w \<Longrightarrow> inv t"
    and step_covered: "step w f t \<Longrightarrow> inv w \<Longrightarrow> outflow i f + owes t i \<le> owes w i + inflow i f"
begin

lemma path_inv: "path step w fs t \<Longrightarrow> inv w \<Longrightarrow> inv t"
  by (induction fs arbitrary: w) (auto dest: step_inv)

lemma path_covered:
  "path step w fs t \<Longrightarrow> inv w \<Longrightarrow>
   sum_list (map (outflow i) fs) + owes t i \<le> owes w i + sum_list (map (inflow i) fs)"
proof (induction fs arbitrary: w)
  case (Cons f fs)
  then obtain v where v: "step w f v" "path step v fs t" by auto
  from Cons.IH [OF v(2) step_inv [OF v(1) Cons.prems(2)]] step_covered [OF v(1) Cons.prems(2), of i]
  show ?case by simp
qed simp

lemma path_solvent:
  assumes "path step w fs t" and "inv w" and "owes w i = 0"
  shows "sum_list (map (outflow i) fs) + owes t i \<le> sum_list (map (inflow i) fs)"
  using path_covered [OF assms(1,2), of i] assms(3) by simp

end

end
