(* ===== verification/Oracle_Runs.thy ===== *)
theory Oracle_Runs
  imports Oracle_Lifecycle Conservation
begin

text \<open>
  Runs of the oracle contract: a step is a call of one of its methods that returns. Its label
  says what went in and out: the request the call is about, the tokens that came with the call
  and were not returned, the request it files, and the promises it schedules, read off the
  outbox.
\<close>

section \<open>Labels\<close>

text \<open>
  A call with tokens is made by their token contract (\<open>ft_transfer_call\<close>), which takes back the
  amount that the call returns; \<open>received\<close> is what the oracle keeps.
\<close>

record token_flow =
  about :: "nat option"
  asset :: account
  received :: nat
  filed :: "data_request option"
  sent :: "oracle_promise list"

definition flow :: "nat option \<Rightarrow> account \<Rightarrow> nat \<Rightarrow> world \<Rightarrow> world \<Rightarrow> token_flow" where
  "flow i tok n w t =
     \<lparr>about = i, asset = tok, received = n,
      filed = (if length (request_list w) < length (request_list t)
               then Some (request_list t ! length (request_list w)) else None),
      sent = drop (length (outbox w)) (outbox t)\<rparr>"

lemma flow_simps [simp]:
  "about (flow i tok n w t) = i" "asset (flow i tok n w t) = tok" "received (flow i tok n w t) = n"
  by (simp_all add: flow_def)

text \<open>A step that files a request gives it a positive bond, or files none.\<close>

definition positive_filing :: "token_flow \<Rightarrow> bool" where
  "positive_filing f \<longleftrightarrow> (\<forall>dr. filed f = Some dr \<longrightarrow> positive_bond dr)"

text \<open>A bond is zero only when the minimum is zero or a multiplier below \<open>10000\<close> rounds it down.\<close>

lemma positive_bond_config:
  assumes bond: "calc_resolution_bond d = Inr b"
    and min: "0 < rc_min_resolution_bond (adr_request_config d)"
    and mult: "\<And>m. rc_stake_multiplier (adr_request_config d) = Some m \<Longrightarrow> 10000 \<le> unat m"
  shows "positive_bond (Active d)"
proof -
  let ?c = "adr_request_config d"
  define base where "base = (if rc_paid_fee ?c \<ge> rc_validity_bond ?c then rc_paid_fee ?c else rc_validity_bond ?c)"
  define r where "r = (if base < rc_min_resolution_bond ?c then rc_min_resolution_bond ?c else base)"
  have r: "0 < unat r" "multiply_stake r (rc_stake_multiplier ?c) = Inr b"
    using min bond by (auto simp: r_def base_def calc_resolution_bond_def Let_def unats)
  have "0 < unat b"
  proof (cases "rc_stake_multiplier (adr_request_config d)")
    case None
    with r show ?thesis by (simp add: multiply_stake_exact)
  next
    case (Some m)
    from r(1) mult [OF Some] have "10000 \<le> unat r * unat m"
      using mult_le_mono [of 1 "unat r" 10000 "unat m"] by simp
    with r Some show ?thesis by (simp add: multiply_stake_exact div_greater_zero_iff)
  qed
  with bond show ?thesis by (simp add: positive_bond_def unats)
qed

section \<open>Steps\<close>

text \<open>The methods that take no request and no tokens.\<close>

inductive other_call :: "sdk \<Rightarrow> world \<Rightarrow> world \<Rightarrow> bool" for K :: sdk where
  call_set_config: "set_config K E c w = Inr (u, t) \<Longrightarrow> other_call K w t"
| call_fee_config: "update_fee_config K E fc w = Inr (u, t) \<Longrightarrow> other_call K w t"
| call_pause: "toggle_pause E w = Inr (u, t) \<Longrightarrow> other_call K w t"
| call_whitelist: "add_to_whitelist K E q w = Inr (u, t) \<Longrightarrow> other_call K w t"
| call_unlist: "remove_from_whitelist K E q w = Inr (u, t) \<Longrightarrow> other_call K w t"
| call_deposit: "storage_deposit E who w = Inr (b, t) \<Longrightarrow> other_call K w t"
| call_withdraw: "storage_withdraw E n w = Inr (b, t) \<Longrightarrow> other_call K w t"
| call_upgrade: "upgrade E (Some (self w)) w = Inr (u, t) \<Longrightarrow> other_call K w t"
| call_migrate: "migrate (Some (self w)) w = Inr (u, t) \<Longrightarrow> other_call K w t"

inductive oracle_step ::
  "(string \<Rightarrow> payload option) \<Rightarrow> sdk \<Rightarrow> world \<Rightarrow> token_flow \<Rightarrow> world \<Rightarrow> bool"
  for parse :: "string \<Rightarrow> payload option" and K :: sdk where
  step_dr_new: "dr_new K E a n p w = Inr (x, t) \<Longrightarrow>
    oracle_step parse K w (flow (Some (length (request_list w))) (predecessor E) (unat n - unat x) w t) t"
| step_dr_stake: "dr_stake E a n p w = Inr (ValueOf x, t) \<Longrightarrow>
    oracle_step parse K w (flow (Some (unat (stake_id p))) (predecessor E) (unat n - unat x) w t) t"
| step_ft_new: "parse msg = Some (NewDataRequest p) \<Longrightarrow>
    ft_on_transfer parse K E a n msg w = Inr (ValueOf x, t) \<Longrightarrow>
    oracle_step parse K w (flow (Some (length (request_list w))) (predecessor E) (unat n - unat x) w t) t"
| step_ft_stake: "parse msg = Some (StakeDataRequest p) \<Longrightarrow>
    ft_on_transfer parse K E a n msg w = Inr (ValueOf x, t) \<Longrightarrow>
    oracle_step parse K w (flow (Some (unat (stake_id p))) (predecessor E) (unat n - unat x) w t) t"
| step_dr_unstake: "dr_unstake K E i rnd o' n w = Inr (u, t) \<Longrightarrow>
    oracle_step parse K w (flow (Some (unat i)) [] 0 w t) t"
| step_dr_claim: "dr_claim K E a i w = Inr (p, t) \<Longrightarrow>
    oracle_step parse K w (flow (Some (unat i)) [] 0 w t) t"
| step_dr_finalize: "dr_finalize K E i w = Inr (u, t) \<Longrightarrow>
    oracle_step parse K w (flow (Some (unat i)) [] 0 w t) t"
| step_provider: "dr_finalize_by_provider K E i o' w = Inr (u, t) \<Longrightarrow>
    oracle_step parse K w (flow (Some (unat i)) [] 0 w t) t"
| step_arbitrator: "dr_final_arbitrator_finalize K E i o' w = Inr (b, t) \<Longrightarrow>
    oracle_step parse K w (flow (Some (unat i)) [] 0 w t) t"
| step_other: "other_call K w t \<Longrightarrow> oracle_step parse K w (flow None [] 0 w t) t"

inductive oracle_run :: "(string \<Rightarrow> payload option) \<Rightarrow> sdk \<Rightarrow> world \<Rightarrow> token_flow list \<Rightarrow> bool"
  for parse :: "string \<Rightarrow> payload option" and K :: sdk where
  run_new: "contract_new K E wl c w = Inr (u, t) \<Longrightarrow> store w = empty_storage \<Longrightarrow> outbox w = [] \<Longrightarrow>
    oracle_run parse K t []"
| run_step: "oracle_run parse K w fs \<Longrightarrow> oracle_step parse K w f t \<Longrightarrow> oracle_run parse K t (fs @ [f])"

text \<open>The steps that file no request without a bond.\<close>

definition fair_step :: "(string \<Rightarrow> payload option) \<Rightarrow> sdk \<Rightarrow> world \<Rightarrow> token_flow \<Rightarrow> world \<Rightarrow> bool" where
  "fair_step parse K w f t \<longleftrightarrow> oracle_step parse K w f t \<and> positive_filing f"

lemma fair_path: "path (oracle_step parse K) w fs t \<Longrightarrow> (\<forall>f \<in> set fs. positive_filing f) \<Longrightarrow>
    path (fair_step parse K) w fs t"
  unfolding fair_step_def by (rule path_restrict [THEN iffD1]) blast

section \<open>The first state\<close>

lemma keeps_stakes [keep]:
  "keeps (\<lambda>v. same_stakes st (store v)) (emit ev)"
  "keeps (\<lambda>v. same_stakes st (store v)) (configs_push c)"
  "keeps (\<lambda>v. same_stakes st (store v)) (whitelist_insert h k r)"
  "keeps (\<lambda>v. same_stakes st (store v)) (modifies (\<lambda>v. v\<lparr>self := f v\<rparr>))"
  by (auto simp: keeps_def run same_stakes_def)

lemma keeps_outbox [keep]:
  "keeps (\<lambda>v. outbox v = ob) (emit ev)"
  "keeps (\<lambda>v. outbox v = ob) (configs_push c)"
  "keeps (\<lambda>v. outbox v = ob) (whitelist_insert h k r)"
  "keeps (\<lambda>v. outbox v = ob) (modifies (\<lambda>v. v\<lparr>self := f v\<rparr>))"
  by (auto simp: keeps_def run)

lemma contract_new_outbox:
  assumes call: "contract_new K E wl c w = Inr (u, t)"
  shows "outbox t = outbox w"
proof -
  have "keeps (\<lambda>v. outbox v = outbox w) (contract_new K E wl c)"
    by (cases wl) (simp_all add: contract_new_def whitelist_new_def Let_def keep)
  from keepsD [OF this call] show ?thesis by simp
qed

lemma contract_new_ok:
  assumes call: "contract_new K E wl c w = Inr (u, t)" and empty: "store w = empty_storage"
  shows "contract_ok t \<and> request_list t = []"
proof -
  note new = contract_new_Inr [OF call]
  have "keeps (\<lambda>v. same_stakes empty_storage (store v)) (contract_new K E wl c)"
    by (cases wl) (simp_all add: contract_new_def whitelist_new_def Let_def keep)
  from keepsD [OF this call] empty have "same_stakes empty_storage (store t)" by simp
  then have "blank (store t) i r" for i r
    by (simp add: same_stakes_def blank_def empty_storage_def)
  moreover have "request_list t = []"
    using new by (simp add: request_list_def vec_elems_def)
  ultimately show ?thesis
    using new by (simp add: contract_ok_def vec_ok_def)
qed

lemma oracle_run_path:
  "oracle_run parse K t fs \<Longrightarrow>
   \<exists>w. contract_ok w \<and> request_list w = [] \<and> outbox w = [] \<and> path (oracle_step parse K) w fs t"
proof (induction rule: oracle_run.induct)
  case (run_new E wl c w u t)
  from contract_new_ok [OF run_new(1,2)] contract_new_outbox [OF run_new(1)] run_new(3) show ?case by auto
next
  case (run_step w fs f t)
  then show ?case by (blast intro: path_snoc)
qed

section \<open>Calls that take no request\<close>

lemma other_call_quiet: "other_call K w t \<Longrightarrow> configs_ok w \<Longrightarrow> quiet w t"
  by (erule other_call.cases)
    (simp_all add: set_config_quiet update_fee_config_quiet toggle_pause_quiet add_to_whitelist_quiet
      remove_from_whitelist_quiet storage_deposit_quiet storage_withdraw_quiet upgrade_quiet migrate_quiet)

lemma contract_ok_configs: "contract_ok w \<Longrightarrow> configs_ok w"
  by (simp add: contract_ok_def)

lemma use_storage_requests:
  assumes "use_storage K E a x y v = Inr (u, t)"
  shows "request_list t = request_list v"
proof -
  from use_storage_frame [OF assms] obtain s where
    "store t = (store v)\<lparr>st_accounts := s\<rparr>" "self t = self v" by blast
  then show ?thesis by (intro request_list_cong) simp_all
qed

end
