(* ===== verification/Solvency.thy ===== *)
theory Solvency
  imports Oracle_Runs
begin

text \<open>
  What the oracle still owes for a request, in stake tokens and in payment tokens, and the
  proof that every step covers the tokens it promises by what was owed and what it takes in,
  request by request and token by token. Both instances of \<open>conserving\<close> are at the end: one for
  every request, one for the contract as a whole.
\<close>

section \<open>What is owed\<close>

text \<open>Stake tokens: the stakes of an active request; of a finalized one, what can be withdrawn or claimed.\<close>

definition owed :: "oracle_storage \<Rightarrow> data_request \<Rightarrow> nat" where
  "owed st dr =
     (case dr of
        Active d \<Rightarrow> staked (rounds st d)
      | Finalized d \<Rightarrow> debt (fdr_finalized_outcome d) (rounds_of st (fdr_resolution_windows d)))"

text \<open>Payment tokens: the validity bond and the fee; once finalized, the shares of the fee not yet claimed.\<close>

definition payment_owed :: "oracle_storage \<Rightarrow> data_request \<Rightarrow> nat" where
  "payment_owed st dr =
     (case dr of
        Active d \<Rightarrow> unat (rc_validity_bond (adr_request_config d)) + unat (rc_paid_fee (adr_request_config d))
      | Finalized d \<Rightarrow>
          fee_debt (unat (fdr_paid_fee d)) (fdr_finalized_outcome d) (rounds_of st (fdr_resolution_windows d)))"

text \<open>Both, for request \<open>i\<close>, in tokens of the contract \<open>tok\<close>, which may be either of the two or both.\<close>

definition due :: "world \<Rightarrow> account \<Rightarrow> nat \<Rightarrow> nat" where
  "due w tok i =
     (if i < length (request_list w) then
        (let dr = request_list w ! i; c = config_list w ! unat (get_config_id dr) in
         (if cfg_stake_token c = tok then owed (store w) dr else 0) +
         (if cfg_payment_token c = tok then payment_owed (store w) dr else 0))
      else 0)"

definition received_for :: "account \<Rightarrow> nat \<Rightarrow> token_flow \<Rightarrow> nat" where
  "received_for tok i f = (if about f = Some i \<and> asset f = tok then received f else 0)"

definition promised_for :: "account \<Rightarrow> nat \<Rightarrow> token_flow \<Rightarrow> nat" where
  "promised_for tok i f = (if about f = Some i then tokens_of tok (sent f) else 0)"

text \<open>
  A step is sound when it keeps the invariant, only appends to the outbox, is about an existing
  request or moves no tokens, and covers what it promises.
\<close>

definition sound :: "world \<Rightarrow> token_flow \<Rightarrow> world \<Rightarrow> bool" where
  "sound w f t \<longleftrightarrow> contract_ok t \<and> outbox t = outbox w @ sent f \<and>
     length (request_list w) \<le> length (request_list t) \<and>
     (case about f of
        None \<Rightarrow> received f = 0 \<and> (\<forall>tok. tokens_of tok (sent f) = 0)
      | Some i \<Rightarrow> i < length (request_list t)) \<and>
     (\<forall>tok i. promised_for tok i f + due t tok i \<le> due w tok i + received_for tok i f)"

lemma owed_cong:
  assumes "rounds_of st' (request_windows dr) = rounds_of st (request_windows dr)"
  shows "owed st' dr = owed st dr" "payment_owed st' dr = payment_owed st dr"
  using assms by (cases dr; simp add: owed_def payment_owed_def rounds_def)+

lemma covered_finalized:
  assumes "windows_ok st i h"
  shows "covered (rounds_of st h)"
proof -
  have "finite_table (win_user st win) \<and> (\<forall>p. total_of (win_user st win p) \<le> unat (rw_bond_size win))"
    if win: "win \<in> set (windows_of st h)" for win
  proof -
    from win obtain k where "k < unat (vec_len h)" "win = windows_of st h ! k"
      by (auto simp: in_set_conv_nth)
    with assms have "win_bounded st win" by (simp add: windows_ok_def')
    then have "finite_table (win_user st win)"
      and le: "\<And>p. total_of (win_user st win p) \<le> win_total st win p"
        "\<And>p. win_total st win p \<le> unat (rw_bond_size win)"
      by (simp_all add: win_bounded_def)
    with le_trans [OF le(1) le(2)] show ?thesis by simp
  qed
  then show ?thesis
    by (auto simp: covered_def rounds_of_def round_of_def sr_total_def)
qed

section \<open>Steps about one request\<close>

lemma due_other:
  assumes "others_kept w t i" and "j \<noteq> i" and "length (request_list t) = length (request_list w)"
    and "j < length (request_list w) \<Longrightarrow> request_list t ! j = request_list w ! j"
    and "config_list t = config_list w"
  shows "due t tok j = due w tok j"
  using assms owed_cong [of "store t" "request_list w ! j" "store w"]
  by (simp add: due_def others_kept_def Let_def)

text \<open>
  A call about request \<open>i\<close> that takes in \<open>s_in\<close> stake tokens and \<open>p_in\<close> payment tokens and
  promises \<open>s_out\<close> and \<open>p_out\<close> of them is sound if both balances of the request cover them.
\<close>

lemma sound_request:
  assumes t: "contract_ok t" "others_kept w t i" "config_list t = config_list w" "outbox t = outbox w @ ps"
    and i: "i < length (request_list w)" and rl: "request_list t = (request_list w)[i := dr]"
    and id': "get_config_id dr = get_config_id (request_list w ! i)"
    and stakes: "owed (store t) dr + s_out \<le> owed (store w) (request_list w ! i) + s_in"
    and payments: "payment_owed (store t) dr + p_out \<le> payment_owed (store w) (request_list w ! i) + p_in"
    and out: "\<And>tok. tokens_of tok ps =
      (if cfg_stake_token c = tok then s_out else 0) + (if cfg_payment_token c = tok then p_out else 0)"
    and into: "\<And>tok. (if cfg_stake_token c = tok then s_in else 0) + (if cfg_payment_token c = tok then p_in else 0)
      \<le> (if a = tok then n else 0)"
    and c: "c = config_list w ! unat (get_config_id (request_list w ! i))"
  shows "sound w (flow (Some i) a n w t) t"
proof -
  have sent: "sent (flow (Some i) a n w t) = ps" by (simp add: flow_def t(4))
  have "tokens_of tok ps + due t tok i \<le> due w tok i + (if a = tok then n else 0)" for tok
  proof -
    have dw: "due w tok i = (if cfg_stake_token c = tok then owed (store w) (request_list w ! i) else 0) +
        (if cfg_payment_token c = tok then payment_owed (store w) (request_list w ! i) else 0)"
      using i by (simp add: due_def c Let_def)
    have dt: "due t tok i = (if cfg_stake_token c = tok then owed (store t) dr else 0) +
        (if cfg_payment_token c = tok then payment_owed (store t) dr else 0)"
      using i by (simp add: due_def rl t(3) id' c Let_def)
    show ?thesis
      using stakes payments into [of tok] unfolding dw dt out by (auto split: if_splits)
  qed
  moreover have "received_for tok i (flow (Some i) a n w t) = (if a = tok then n else 0)" for tok
    by (simp add: received_for_def)
  ultimately have here: "tokens_of tok ps + due t tok i \<le> due w tok i + received_for tok i (flow (Some i) a n w t)" for tok
    by (simp only:)
  have there: "due t tok j = due w tok j" if "j \<noteq> i" for tok j
    using that by (intro due_other [OF t(2) that]) (simp_all add: rl t(3))
  have "promised_for tok j (flow (Some i) a n w t) + due t tok j \<le>
      due w tok j + received_for tok j (flow (Some i) a n w t)" for tok j
    using here [of tok] there [of j tok] by (cases "j = i") (simp_all add: promised_for_def sent)
  then show ?thesis
    using t i by (simp add: sound_def sent rl)
qed

text \<open>The rounds of a request that the invariant holds for.\<close>

lemma request_covered:
  assumes "contract_ok w" and "unat (i :: u64) < length (request_list w)"
  shows "covered (rounds_of (store w) (request_windows (request_list w ! unat i)))"
proof -
  from assms have "request_ok (store w) i (request_list w ! unat i)" by (simp add: contract_ok_def)
  then show ?thesis
    by (auto simp: request_ok_def game_def intro: covered_finalized split: data_request.splits)
qed

section \<open>Each method is sound\<close>

lemma dr_stake_sound:
  assumes call: "dr_stake E a n p w = Inr (ValueOf x, t)" and ok: "contract_ok w"
  shows "sound w (flow (Some (unat (stake_id p))) (predecessor E) (unat n - unat x) w t) t"
proof -
  let ?i = "unat (stake_id p)"
  from dr_stake_effect [OF call ok] obtain d d' base where
    i: "?i < length (request_list w)" "request_list w ! ?i = Active d"
    and rl: "request_list t = (request_list w)[?i := Active d']" and terms: "same_terms d d'"
    and g: "game (store w) d base" and opn: "stake_spec d base (rounds (store w) d) a (stake_outcome p) (unat n) =
      (rounds (store t) d', adr_final_arbitrator_triggered d')"
    and x: "unat x = unat n - round_taken (current_round base (rounds (store w) d)) (stake_outcome p) (unat n)"
    and tok: "predecessor E = cfg_stake_token (config_list w ! unat (adr_global_config_id d))"
    and t: "contract_ok t" "others_kept w t ?i" "config_list t = config_list w" "outbox t = outbox w"
    by auto
  from opn obtain b where ls: "ladder_stake base b (rounds (store w) d) a (stake_outcome p) (unat n) =
      (rounds (store t) d', adr_final_arbitrator_triggered d')"
    by (auto simp: stake_spec_def)
  from dr_stake_active_open [OF call ok i(2)] g have lad: "ladder base False (rounds (store w) d)" "0 < base"
    by (simp_all add: game_def rounds_def)
  from ladder_stake_staked [OF lad ls] x round_taken_le [of "current_round base (rounds (store w) d)"]
  have st: "staked (rounds (store t) d') = staked (rounds (store w) d) + (unat n - unat x)" by simp
  have t': "outbox t = outbox w @ []" by (simp add: t(4))
  show ?thesis
    by (rule sound_request [OF t(1-3) t' i(1) rl, where s_out = 0 and p_out = 0 and s_in = "unat n - unat x" and p_in = 0,
          OF _ _ _ _ _ refl])
      (use terms in \<open>simp_all add: i st tok owed_def payment_owed_def same_terms_def\<close>)
qed

lemma dr_unstake_sound:
  assumes call: "dr_unstake K E i rnd o' n w = Inr (u, t)" and ok: "contract_ok w"
  shows "sound w (flow (Some (unat i)) b 0 w t) t"
proof -
  from dr_unstake_effect [OF call ok] obtain dr rf where
    i: "unat i < length (request_list w)" "request_list w ! unat i = dr"
    and rl: "request_list t = request_list w"
    and k: "unat rnd < length (rounds_of (store w) (request_windows dr))"
    and le: "unat n \<le> sr_stakes (rounds_of (store w) (request_windows dr) ! unat rnd) o' (predecessor E)"
    and nb: "sr_bonded (rounds_of (store w) (request_windows dr) ! unat rnd) \<noteq> Some o'"
    and rs: "rounds_of (store t) (request_windows dr) =
      ladder_unstake (rounds_of (store w) (request_windows dr)) (unat rnd) (predecessor E) o' (unat n)"
    and out: "outbox t = outbox w @ rf @ [fungible_token_transfer K
      (cfg_stake_token (config_list w ! unat (get_config_id dr))) (predecessor E) n]"
      "\<forall>q \<in> set rf. \<exists>x. q = Transfer (predecessor E) x"
    and t: "contract_ok t" "others_kept w t (unat i)" "config_list t = config_list w"
    by (auto simp: Let_def)
  have rl': "request_list t = (request_list w)[unat i := dr]" using i rl by (metis list_update_id)
  let ?rs = "rounds_of (store w) (request_windows dr)"
  have cov: "covered ?rs" using request_covered [OF ok i(1)] by (simp add: i(2))
  then have fin: "finite_table (sr_stakes (?rs ! unat rnd))" using k by (simp add: covered_def)
  have stakes: "owed (store t) dr + unat n = owed (store w) dr"
  proof (cases dr)
    case (Active d)
    then show ?thesis
      using ladder_unstake_staked [OF fin k le] rs by (simp add: owed_def rounds_def)
  next
    case (Finalized d)
    then show ?thesis
      using debt_unstake [OF cov k nb le] rs by (simp add: owed_def)
  qed
  have fee: "payment_owed (store t) dr = payment_owed (store w) dr"
    using fee_debt_unstake [OF k nb] rs by (cases dr) (simp_all add: payment_owed_def)
  show ?thesis
    by (rule sound_request [OF t out(1) i(1) rl', where s_out = "unat n" and p_out = 0 and s_in = 0 and p_in = 0,
          OF _ _ _ _ _ refl])
      (simp_all add: i stakes fee tokens_of_transfers [OF out(2)])
qed

lemma dr_claim_sound:
  assumes call: "dr_claim K E a i w = Inr (p, t)" and ok: "contract_ok w"
  shows "sound w (flow (Some (unat i)) b 0 w t) t"
proof -
  from dr_claim_effect [OF call ok] obtain d res rf where
    i: "unat i < length (request_list w)" "request_list w ! unat i = Finalized d"
    and rl: "request_list t = request_list w"
    and pay: "unat (stake_token_payout res) =
        ladder_payout (fdr_finalized_outcome d) (rounds_of (store w) (fdr_resolution_windows d)) a"
      "unat (payment_token_payout res) = share (correct_stake (fdr_finalized_outcome d)
        (rounds_of (store w) (fdr_resolution_windows d)) a) (unat (fdr_paid_fee d))
        (correct_bonds (fdr_finalized_outcome d) (rounds_of (store w) (fdr_resolution_windows d)))"
    and rs: "rounds_of (store t) (fdr_resolution_windows d) =
      ladder_claim (fdr_finalized_outcome d) (rounds_of (store w) (fdr_resolution_windows d)) a"
    and prom: "claim_promise K (config_list w ! unat (fdr_global_config_id d)) a res = Inr p"
    and out: "outbox t = outbox w @ rf @ [p]" "\<forall>q \<in> set rf. \<exists>x. q = Transfer (predecessor E) x"
    and t: "contract_ok t" "others_kept w t (unat i)" "config_list t = config_list w"
    by (auto simp: Let_def)
  let ?c = "config_list w ! unat (fdr_global_config_id d)"
  have rl': "request_list t = (request_list w)[unat i := Finalized d]" using i rl by (metis list_update_id)
  from request_covered [OF ok i(1)]
  have cov: "covered (rounds_of (store w) (fdr_resolution_windows d))" by (simp add: i(2))
  from prom have p: "tokens_in tok p = (if cfg_stake_token ?c = tok then unat (stake_token_payout res) else 0) +
      (if cfg_payment_token ?c = tok then unat (payment_token_payout res) else 0)" for tok
    by (auto simp: claim_promise_def Let_def word_gt_0 split: if_splits)
  show ?thesis
    by (rule sound_request [OF t out(1) i(1) rl', where s_out = "unat (stake_token_payout res)"
          and p_out = "unat (payment_token_payout res)" and s_in = 0 and p_in = 0, OF _ _ _ _ _ refl])
      (simp_all add: i pay debt_claim [OF cov] fee_debt_claim [OF cov] owed_def payment_owed_def rs
        p tokens_of_transfers [OF out(2)])
qed

text \<open>Finalization promises at most the validity bond, in payment tokens.\<close>

lemma finalized_sound:
  assumes fin: "finalized_as w t i d f" and ok: "contract_ok w" and out: "outbox t = outbox w @ ps"
    and bond: "\<And>tok. tokens_of tok ps =
      (if cfg_payment_token (config_list w ! unat (adr_global_config_id d)) = tok then n else 0)"
    and n: "n \<le> unat (rc_validity_bond (adr_request_config d))"
  shows "sound w (flow (Some (unat i)) b 0 w t) t"
proof -
  from fin have i: "unat i < length (request_list w)" "request_list w ! unat i = Active d"
    and rl: "request_list t = (request_list w)[unat i := Finalized (trim_dr d f)]"
    and rs: "rounds_of (store t) (adr_resolution_windows d) = rounds (store w) d"
    and t: "contract_ok t" "others_kept w t (unat i)" "config_list t = config_list w"
    by (simp_all add: finalized_as_def)
  from ok i have "request_ok (store w) i (Active d)" by (auto simp: contract_ok_def)
  then obtain base where lad: "ladder base (adr_final_arbitrator_triggered d) (rounds (store w) d)"
    by (auto simp: request_ok_def game_def rounds_def)
  have stakes: "owed (store t) (Finalized (trim_dr d f)) \<le> owed (store w) (Active d)"
    using debt_start [OF lad, of f] by (simp add: owed_def trim_dr_def rs)
  have payments: "payment_owed (store t) (Finalized (trim_dr d f)) + n \<le> payment_owed (store w) (Active d)"
    using fee_debt_start [OF ladder_covered [OF lad], of "unat (rc_paid_fee (adr_request_config d))" f] n
    by (simp add: payment_owed_def trim_dr_def rs)
  show ?thesis
    by (rule sound_request [OF t out i(1) rl, where s_out = 0 and p_out = n and s_in = 0 and p_in = 0,
          OF _ _ _ _ _ refl])
      (use stakes payments in \<open>simp_all add: i bond trim_dr_def\<close>)
qed

lemma tokens_of_bond: "tokens_of tok (bond_promises K w d f) =
    (if cfg_payment_token (config_list w ! unat (adr_global_config_id d)) = tok
     then (case f of Invalid \<Rightarrow> 0 | Answer _ \<Rightarrow> unat (rc_validity_bond (adr_request_config d))) else 0)"
  by (simp add: bond_promises_def split: outcome.split)

lemma tokens_in_outcome [simp]: "tokens_in tok (set_outcome K r f ts) = 0"
  by (simp add: set_outcome_def)

lemma dr_finalize_sound:
  assumes call: "dr_finalize K E i w = Inr (u, t)" and ok: "contract_ok w"
  shows "sound w (flow (Some (unat i)) b 0 w t) t"
proof -
  from dr_finalize_effect [OF assms] obtain d f rf where fin: "finalized_as w t i d f"
    and out: "outbox t = outbox w @ set_outcome K (adr_requester d) f (adr_tags d) # bond_promises K w d f @ rf"
    and plain: "\<forall>q \<in> set rf. \<exists>x. q = Transfer (predecessor E) x"
    by blast
  show ?thesis
    by (rule finalized_sound [OF fin ok out,
          where n = "case f of Invalid \<Rightarrow> 0 | Answer _ \<Rightarrow> unat (rc_validity_bond (adr_request_config d))"])
      (simp_all add: tokens_of_bond tokens_of_transfers [OF plain] split: outcome.split)
qed

lemma dr_final_arbitrator_finalize_sound:
  assumes call: "dr_final_arbitrator_finalize K E i f w = Inr (p, t)" and ok: "contract_ok w"
  shows "sound w (flow (Some (unat i)) b 0 w t) t"
proof -
  from dr_final_arbitrator_finalize_effect [OF assms] obtain d rf where fin: "finalized_as w t i d f"
    and out: "outbox t = outbox w @ set_outcome K (adr_requester d) f (adr_tags d) # rf @ bond_promises K w d f"
    and plain: "\<forall>q \<in> set rf. \<exists>x. q = Transfer (predecessor E) x"
    by blast
  show ?thesis
    by (rule finalized_sound [OF fin ok out,
          where n = "case f of Invalid \<Rightarrow> 0 | Answer _ \<Rightarrow> unat (rc_validity_bond (adr_request_config d))"])
      (simp_all add: tokens_of_bond tokens_of_transfers [OF plain] split: outcome.split)
qed

lemma dr_finalize_by_provider_sound:
  assumes call: "dr_finalize_by_provider K E i f w = Inr (u, t)" and ok: "contract_ok w"
  shows "sound w (flow (Some (unat i)) b 0 w t) t"
proof -
  from dr_finalize_by_provider_effect [OF assms] obtain d rf where fin: "finalized_as w t i d f"
    and out: "outbox t = outbox w @ set_outcome K (adr_requester d) f (adr_tags d) # rf"
    and plain: "\<forall>q \<in> set rf. \<exists>x. q = Transfer (predecessor E) x"
    by blast
  show ?thesis
    by (rule finalized_sound [OF fin ok out, where n = 0]) (simp_all add: tokens_of_transfers [OF plain])
qed

text \<open>A new request owes what was paid for it: the validity bond and the fee.\<close>

lemma dr_new_sound:
  assumes call: "dr_new K E a n p w = Inr (x, t)" and ok: "contract_ok w"
    and pos: "positive_filing (flow i b m w t)"
  shows "sound w (flow (Some (length (request_list w))) (predecessor E) (unat n - unat x) w t) t"
proof -
  let ?c = "last (config_list w)"
  from dr_new_effect [OF call ok] obtain q d where x: "x = 0"
    and new: "adr_new q (vec_len (data_requests (self w))) (vec_len (configs (self w)) - 1) ?c
      (n - cfg_validity_bond ?c) p = Inr d"
    and rl: "request_list t = request_list w @ [Active d]" and ss: "same_stakes (store w) (store t)"
    and tok: "predecessor E = cfg_payment_token ?c" and le: "cfg_validity_bond ?c \<le> n"
    and cl: "config_list t = config_list w" and out: "outbox t = outbox w"
    and t: "positive_bond (Active d) \<longrightarrow> contract_ok t"
    by auto
  have cok: "contract_ok t" using t pos by (simp add: positive_filing_def flow_def rl)
  have rs: "rounds_of (store t) = rounds_of (store w)" by (rule same_stakes_views(2) [OF ss])
  have old: "owed (store t) dr = owed (store w) dr" "payment_owed (store t) dr = payment_owed (store w) dr" for dr
    by (rule owed_cong; simp add: rs)+
  have ne: "config_list w \<noteq> []" using ok by (simp add: contract_ok_def configs_ok_def)
  then have "vec_len (configs (self w)) \<noteq> 0" by (auto simp: config_list_def vec_elems_def)
  then have "unat (adr_global_config_id d) = length (config_list w) - 1"
    by (simp add: adr_new_fields [OF new] config_list_def unat_minus_one)
  then have c: "config_list w ! unat (adr_global_config_id d) = ?c" using ne by (simp add: last_conv_nth)
  have "owed (store t) (Active d) = 0"
    by (simp add: owed_def rounds_def adr_new_fields [OF new] rounds_of_def windows_of_def)
  moreover have "payment_owed (store t) (Active d) = unat n"
    using le by (simp add: payment_owed_def adr_new_fields [OF new] exact unats)
  ultimately have "due t b (length (request_list w)) = (if predecessor E = b then unat n else 0)" for b
    by (simp add: due_def rl Let_def cl c tok)
  moreover have "due t b j = due w b j" if "j \<noteq> length (request_list w)" for b j
    using that by (auto simp: due_def rl nth_append Let_def cl old)
  moreover have "due w b (length (request_list w)) = 0" for b by (simp add: due_def)
  ultimately have each: "due t b j = due w b j +
      received_for b j (flow (Some (length (request_list w))) (predecessor E) (unat n - unat x) w t)" for b j
    by (cases "j = length (request_list w)") (auto simp: received_for_def x)
  have "sent (flow (Some (length (request_list w))) (predecessor E) (unat n - unat x) w t) = []"
    by (simp add: flow_def out)
  then show ?thesis
    using cok rl out by (simp add: sound_def each promised_for_def)
qed

section \<open>Transfers into the contract and the other calls\<close>

lemma flow_then_quiet:
  "quiet v t \<Longrightarrow> contract_ok v \<Longrightarrow> outbox t = outbox v \<Longrightarrow> flow i a n w t = flow i a n w v"
  by (simp add: flow_def quiet_keeps)

lemma quiet_due:
  assumes "quiet w t" and "contract_ok w"
  shows "due t = due w"
proof (intro ext)
  fix tok i
  note k = quiet_keeps [OF assms]
  have "unat (get_config_id (request_list w ! i)) < length (config_list w)" if i: "i < length (request_list w)"
  proof -
    have "length (request_list w) \<le> 2 ^ LENGTH(64)"
      using unat_bound [of "vec_len (data_requests (self w))"] by (simp add: request_list_def)
    with i have "unat (of_nat i :: u64) = i" by (intro unat_of_nat_fits) simp
    with i assms(2) show ?thesis unfolding contract_ok_def by metis
  qed
  then show "due t tok i = due w tok i"
    using assms(1) k owed_cong [of "store t" "request_list w ! i" "store w"]
    by (auto simp: due_def Let_def quiet_def tokens_kept_def)
qed

lemma sound_then_quiet:
  assumes "sound w (flow i a n w v) v" and "quiet v t" and "outbox t = outbox v"
  shows "sound w (flow i a n w t) t"
proof -
  from assms(1) have v: "contract_ok v" by (simp add: sound_def)
  note k = quiet_keeps [OF assms(2) v] quiet_due [OF assms(2) v] flow_then_quiet [OF assms(2) v assms(3)]
  show ?thesis using assms(1,3) by (cases i) (auto simp: sound_def k)
qed

lemma quiet_sound:
  assumes "quiet w t" and "contract_ok w"
  shows "sound w (flow None a 0 w t) t"
proof -
  from assms(1) obtain ps where "outbox t = outbox w @ ps" "\<forall>tok. tokens_of tok ps = 0"
    by (auto simp: quiet_def tokenless_def)
  then show ?thesis
    using quiet_keeps [OF assms] quiet_due [OF assms]
    by (simp add: sound_def promised_for_def) (simp add: flow_def)
qed

lemma ft_new_sound:
  assumes p: "parse msg = Some (NewDataRequest p)" and call: "ft_on_transfer parse K E a n msg w = Inr (ValueOf x, t)"
    and ok: "contract_ok w" and pos: "positive_filing (flow i b m w t)"
  shows "sound w (flow (Some (length (request_list w))) (predecessor E) (unat n - unat x) w t) t"
proof -
  from ft_on_transfer_Inr [OF call contract_ok_configs [OF ok]] p obtain v y z where
    new: "dr_new K E a n p w = Inr (x, v)" and use: "use_storage K E a y z v = Inr ((), t)" by auto
  have out: "outbox t = outbox v" using use_storage_frame [OF use] by auto
  have "flow i b m w t = flow i b m w v" by (simp add: flow_def use_storage_requests [OF use] out)
  with dr_new_sound [OF new ok] pos
  have snd: "sound w (flow (Some (length (request_list w))) (predecessor E) (unat n - unat x) w v) v" by simp
  then have "configs_ok v" by (simp add: sound_def contract_ok_def)
  from sound_then_quiet [OF snd use_storage_quiet [OF use this] out] show ?thesis .
qed

lemma ft_stake_sound:
  assumes p: "parse msg = Some (StakeDataRequest p)" and call: "ft_on_transfer parse K E a n msg w = Inr (ValueOf x, t)"
    and ok: "contract_ok w"
  shows "sound w (flow (Some (unat (stake_id p))) (predecessor E) (unat n - unat x) w t) t"
proof -
  from ft_on_transfer_Inr [OF call contract_ok_configs [OF ok]] p obtain v y z where
    stake: "dr_stake E a n p w = Inr (ValueOf x, v)" and use: "use_storage K E a y z v = Inr ((), t)" by auto
  have out: "outbox t = outbox v" using use_storage_frame [OF use] by auto
  note snd = dr_stake_sound [OF stake ok]
  then have "configs_ok v" by (simp add: sound_def contract_ok_def)
  from sound_then_quiet [OF snd use_storage_quiet [OF use this] out] show ?thesis .
qed

lemma fair_step_sound:
  assumes "fair_step parse K w f t" and ok: "contract_ok w"
  shows "sound w f t"
proof -
  from assms(1) have "oracle_step parse K w f t" and pos: "positive_filing f" by (simp_all add: fair_step_def)
  from this(1) show ?thesis
  proof cases
    case (step_dr_new E a n p x)
    then show ?thesis using dr_new_sound [OF _ ok] pos by simp
  next
    case (step_ft_new msg p E a n x)
    then show ?thesis using ft_new_sound [OF _ _ ok] pos by simp
  next
    case step_other
    then show ?thesis using quiet_sound [OF other_call_quiet ok] contract_ok_configs [OF ok] by simp
  qed (simp_all add: ok dr_stake_sound ft_stake_sound dr_unstake_sound dr_claim_sound dr_finalize_sound
      dr_finalize_by_provider_sound dr_final_arbitrator_finalize_sound)
qed

section \<open>Runs\<close>

interpretation requests: conserving "fair_step parse K" contract_ok "\<lambda>w p. due w (fst p) (snd p)"
    "\<lambda>p. received_for (fst p) (snd p)" "\<lambda>p. promised_for (fst p) (snd p)" for parse K
  by unfold_locales (auto dest: fair_step_sound simp: sound_def)

text \<open>The contract as a whole: all that is due in one token, over all requests.\<close>

definition total_due :: "world \<Rightarrow> account \<Rightarrow> nat" where
  "total_due w tok = (\<Sum>i < length (request_list w). due w tok i)"

definition token_received :: "account \<Rightarrow> token_flow \<Rightarrow> nat" where
  "token_received tok f = (if asset f = tok then received f else 0)"

lemma sum_about:
  assumes "i < (n :: nat)"
  shows "(\<Sum>j<n. if Some i = Some j then x else 0) = (x :: nat)"
  using assms by simp

lemma sound_total:
  assumes "sound w f t"
  shows "tokens_of tok (sent f) + total_due t tok \<le> total_due w tok + token_received tok f"
proof -
  let ?n = "length (request_list t)"
  from assms have le: "length (request_list w) \<le> ?n"
    and each: "\<And>i. promised_for tok i f + due t tok i \<le> due w tok i + received_for tok i f"
    by (simp_all add: sound_def)
  have promised: "(\<Sum>i<?n. promised_for tok i f) = tokens_of tok (sent f)"
    and received: "(\<Sum>i<?n. received_for tok i f) = token_received tok f"
    using assms by (auto simp: sound_def promised_for_def received_for_def token_received_def split: option.splits)
  have "total_due w tok = (\<Sum>i<?n. due w tok i)"
    unfolding total_due_def using le by (intro sum.mono_neutral_left) (auto simp: due_def)
  moreover have "(\<Sum>i<?n. promised_for tok i f + due t tok i) \<le> (\<Sum>i<?n. due w tok i + received_for tok i f)"
    by (intro sum_mono each)
  ultimately show ?thesis
    by (simp add: sum.distrib promised received total_due_def)
qed

interpretation vault: conserving "fair_step parse K" contract_ok total_due token_received
    "\<lambda>tok f. tokens_of tok (sent f)" for parse K
  by unfold_locales (auto dest: fair_step_sound simp: sound_def intro: sound_total fair_step_sound)

lemma fair_path_outbox:
  "path (fair_step parse K) w fs t \<Longrightarrow> contract_ok w \<Longrightarrow> outbox t = outbox w @ concat (map sent fs)"
proof (induction fs arbitrary: w)
  case (Cons f fs)
  then obtain v where v: "fair_step parse K w f v" "path (fair_step parse K) v fs t" by auto
  from fair_step_sound [OF v(1) Cons.prems(2)] have "contract_ok v" "outbox v = outbox w @ sent f"
    by (simp_all add: sound_def)
  with Cons.IH [OF v(2)] show ?case by simp
qed simp

lemma tokens_of_concat: "tokens_of tok (concat pss) = (\<Sum>ps\<leftarrow>pss. tokens_of tok ps)"
  by (induction pss) simp_all

text \<open>Every run keeps the invariant, and its payments are covered, by request and in total.\<close>

lemma fair_run:
  assumes run: "oracle_run parse K w fs" and pos: "\<forall>f \<in> set fs. positive_filing f"
  shows "contract_ok w"
    and "sum_list (map (promised_for tok i) fs) + due w tok i \<le> sum_list (map (received_for tok i) fs)"
    and "outbox w = concat (map sent fs)"
    and "tokens_of tok (outbox w) + total_due w tok \<le> sum_list (map (token_received tok) fs)"
proof -
  from oracle_run_path [OF run] obtain v where
    v: "contract_ok v" "request_list v = []" "outbox v = []" "path (oracle_step parse K) v fs w" by blast
  from fair_path [OF v(4) pos] have p: "path (fair_step parse K) v fs w" .
  show "contract_ok w" by (rule vault.path_inv [OF p v(1)])
  show out: "outbox w = concat (map sent fs)" using fair_path_outbox [OF p v(1)] v(3) by simp
  from requests.path_solvent [OF p v(1), of "(tok, i)"] v(2)
  show "sum_list (map (promised_for tok i) fs) + due w tok i \<le> sum_list (map (received_for tok i) fs)"
    by (simp add: due_def)
  from vault.path_solvent [OF p v(1), of tok] v(2)
  show "tokens_of tok (outbox w) + total_due w tok \<le> sum_list (map (token_received tok) fs)"
    by (simp add: total_due_def out tokens_of_concat comp_def)
qed

end
