(* ===== verification/Scenario.thy ===== *)
theory Scenario
  imports Solvency Sample
begin

text \<open>
  A concrete life of the contract, step by step, in the states that the handlers produce: a
  new contract, a request filed by \<open>bob\<close>, a stake of \<open>alice\<close> that bonds the first round (or
  only part of it), finalization and a claim; and the same with a configuration that calls the
  final arbitrator at once. The states are given up to their log records. The properties of
  the handlers are applied to these steps.
\<close>

section \<open>States\<close>

definition at_self :: "u64 \<Rightarrow> contract" where
  "at_self n = \<lparr>whitelist = Some ''wl'', configs = \<lparr>vec_prefix = ''c'', vec_len = 1\<rparr>,
     data_requests = \<lparr>vec_prefix = ''dr'', vec_len = n\<rparr>, accounts = ''a'', paused = False\<rparr>"

definition at_store :: "u128 \<Rightarrow> oracle_storage" where
  "at_store c = empty_storage\<lparr>st_whitelist := [(''wl'', ''bob'') \<mapsto> sample_requester],
     st_configs := [(''c'', 0) \<mapsto> sample_config c]\<rparr>"

definition at_start :: "u128 \<Rightarrow> json list \<Rightarrow> world" where
  "at_start c ls = \<lparr>self = at_self 0, store = at_store c, logs = ls, outbox = []\<rparr>"

definition the_request :: "u128 \<Rightarrow> u64 \<Rightarrow> bool \<Rightarrow> active_data_request" where
  "the_request c n trig =
     \<lparr>adr_id = 0, adr_sources = [], adr_outcomes = Some [''a'', ''b''], adr_requester = sample_requester,
      adr_resolution_windows = \<lparr>vec_prefix = windows_prefix 0, vec_len = n\<rparr>,
      adr_global_config_id = 0,
      adr_request_config = \<lparr>rc_default_challenge_window_duration = 1000,
        rc_final_arbitrator_invoke_amount = c, rc_final_arbitrator = ''arb'', rc_validity_bond = 100,
        rc_stake_multiplier = None, rc_paid_fee = 50, rc_min_resolution_bond = 100\<rparr>,
      adr_initial_challenge_period = 1500, adr_final_arbitrator_triggered = trig,
      adr_description = Some ''d'', adr_tags = [''1''], adr_data_type = TString, adr_provider = Some ''pro''\<rparr>"

definition the_window :: "u16 \<Rightarrow> u64 \<Rightarrow> u128 \<Rightarrow> outcome option \<Rightarrow> resolution_window" where
  "the_window r end bond b =
     \<lparr>rw_dr_id = 0, rw_round = r, rw_start_time = 0, rw_end_time = end, rw_bond_size = bond,
      rw_outcome_to_stake = ots_prefix 0 r, rw_user_to_outcome_to_stake = utots_prefix 0 r,
      rw_bonded_outcome = b\<rparr>"

abbreviation out_a :: outcome where "out_a \<equiv> Answer (AString ''a'')"
abbreviation out_b :: outcome where "out_b \<equiv> Answer (AString ''b'')"

text \<open>After the request is filed: \<open>bob\<close> paid the validity bond of 100 and a fee of 50.\<close>

definition at_filed :: "u128 \<Rightarrow> json list \<Rightarrow> world" where
  "at_filed c ls = \<lparr>self = at_self 1,
     store = (at_store c)\<lparr>st_requests := [(''dr'', 0) \<mapsto> Active (the_request c 0 False)]\<rparr>,
     logs = ls, outbox = []\<rparr>"

text \<open>\<open>alice\<close> stakes on \<open>a\<close>: \<open>n\<close> tokens of the 200 that the bond of round 0 takes.\<close>

definition at_stakes :: "u128 \<Rightarrow> (outcome, u128) region" where
  "at_stakes n = [(ots_prefix 0 0, out_a) \<mapsto> n, (user_prefix 0 0 ''alice'', out_a) \<mapsto> n]"

definition at_users :: "(account, lookup_map_handle) region" where
  "at_users = [(utots_prefix 0 0, ''alice'') \<mapsto> user_prefix 0 0 ''alice'']"

definition at_open :: "u128 \<Rightarrow> json list \<Rightarrow> oracle_promise list \<Rightarrow> world" where
  "at_open n ls ps = \<lparr>self = at_self 1,
     store = (at_store 1000)\<lparr>st_requests := [(''dr'', 0) \<mapsto> Active (the_request 1000 1 False)],
       st_windows := [(windows_prefix 0, 0) \<mapsto> the_window 0 1500 200 None],
       st_stakes := at_stakes n, st_users := at_users\<rparr>,
     logs = ls, outbox = ps\<rparr>"

definition at_bonded :: "json list \<Rightarrow> world" where
  "at_bonded ls = \<lparr>self = at_self 1,
     store = (at_store 1000)\<lparr>st_requests := [(''dr'', 0) \<mapsto> Active (the_request 1000 2 False)],
       st_windows := [(windows_prefix 0, 0) \<mapsto> the_window 0 1500 200 (Some out_a),
         (windows_prefix 0, 1) \<mapsto> the_window 1 1500 400 None],
       st_stakes := at_stakes 200, st_users := at_users\<rparr>,
     logs = ls, outbox = []\<rparr>"

text \<open>With an invocation amount of 200 the bond of round 0 calls the final arbitrator.\<close>

definition at_triggered :: "json list \<Rightarrow> world" where
  "at_triggered ls = \<lparr>self = at_self 1,
     store = (at_store 200)\<lparr>st_requests := [(''dr'', 0) \<mapsto> Active (the_request 200 1 True)],
       st_windows := [(windows_prefix 0, 0) \<mapsto> the_window 0 1500 200 (Some out_a)],
       st_stakes := at_stakes 200, st_users := at_users\<rparr>,
     logs = ls, outbox = []\<rparr>"

definition at_final :: "json list \<Rightarrow> oracle_promise list \<Rightarrow> world" where
  "at_final ls ps = \<lparr>self = at_self 1,
     store = (at_store 1000)\<lparr>
       st_requests := [(''dr'', 0) \<mapsto> Finalized (trim_dr (the_request 1000 2 False) out_a)],
       st_windows := [(windows_prefix 0, 0) \<mapsto> the_window 0 1500 200 (Some out_a),
         (windows_prefix 0, 1) \<mapsto> the_window 1 1500 400 None],
       st_stakes := at_stakes 200, st_users := at_users\<rparr>,
     logs = ls, outbox = ps\<rparr>"

definition at_claimed :: "json list \<Rightarrow> oracle_promise list \<Rightarrow> world" where
  "at_claimed ls ps = (at_final ls ps)\<lparr>store := (store (at_final ls ps))\<lparr>
     st_stakes := [(ots_prefix 0 0, out_a) \<mapsto> 200]\<rparr>\<rparr>"

lemmas scenario = at_self_def at_store_def at_start_def the_request_def the_window_def at_filed_def
  at_stakes_def at_users_def at_open_def at_bonded_def at_triggered_def at_final_def at_claimed_def
  empty_storage_def

definition stake_on :: "outcome \<Rightarrow> stake_data_request_args" where
  "stake_on f = \<lparr>stake_id = 0, stake_outcome = f\<rparr>"

section \<open>Steps\<close>

lemma step_start: "\<exists>ls. contract_new sample_sdk (sample_env ''gov'' 0) (Some [sample_requester]) (sample_config c)
    blank_world = Inr ((), at_start c ls)"
  by (simp add: evaluate contract_new_def whitelist_new_def blank_world_def scenario sample_sdk_def
      sample_requester_def)

lemmas check_code = get_config_def assert_gov_def assert_unpaused_def assert_sender_def configs_len_def
  whitelist_handle_def wl_contains_def whitelist_contains_def assert_whitelisted_def whitelist_get_expect_def
  requests_len_def

lemma step_filed: "\<exists>ls'. dr_new sample_sdk (sample_env ''pay'' 0) ''bob'' 150 sample_args (at_start c ls) =
    Inr (0, at_filed c ls')"
  by (simp add: evaluate check_code dr_new_def dr_validate_def adr_new_def scenario sample_inputs)


lemmas stake_code = dr_stake_def dr_get_expect_active_def config_at_def assert_final_arbitrator_not_invoked_def
  assert_can_stake_on_outcome_def assert_valid_outcome_def assert_valid_outcome_type_def adr_stake_def
  current_window_def calc_resolution_bond_def multiply_stake_def rw_new_def rw_stake_def
  get_user_to_outcomes_def store_window_def open_next_window_def invoke_final_arbitrator_def window_at_def

lemma step_open: "\<exists>ls'. dr_stake (sample_env ''flx'' 0) ''alice'' 100 (stake_on out_a) (at_filed 1000 ls) =
    Inr (ValueOf 0, at_open 100 ls' [])"
  by (simp add: evaluate check_code stake_code scenario sample_inputs stake_on_def)

lemma step_bonded: "\<exists>ls'. dr_stake (sample_env ''flx'' 0) ''alice'' 250 (stake_on out_a) (at_filed 1000 ls) =
    Inr (ValueOf 50, at_bonded ls')"
  by (simp add: evaluate check_code stake_code scenario sample_inputs stake_on_def)

lemma step_triggered: "\<exists>ls'. dr_stake (sample_env ''flx'' 0) ''alice'' 250 (stake_on out_a) (at_filed 200 ls) =
    Inr (ValueOf 50, at_triggered ls')"
  by (simp add: evaluate check_code stake_code scenario sample_inputs stake_on_def)

lemmas unstake_code = dr_unstake_def dr_get_expect_def dr_unstake_window_def request_windows_def rw_unstake_def
  get_user_to_outcomes_def config_at_def get_config_id_def refund_storage_def refund_amount_def fungible_token_transfer_def

lemma step_unstaked: "\<exists>ls' ps. dr_unstake sample_sdk (sample_env ''alice'' 0) 0 0 out_a 40 (at_open 100 ls []) =
    Inr ((), at_open 60 ls' ps)"
  by (simp add: evaluate check_code unstake_code scenario sample_inputs)

lemmas finalize_code = dr_finalize_def dr_get_expect_active_def assert_can_finalize_def window_at_def
  get_final_outcome_def config_at_def return_validity_bond_def trim_dr_def refund_storage_def refund_amount_def
  dr_final_arbitrator_finalize_def assert_final_arbitrator_def assert_final_arbitrator_invoked_def
  dr_finalize_by_provider_def assert_valid_outcome_def

lemma step_final: "\<exists>ls' ps. dr_finalize sample_sdk (sample_env ''eve'' 1500) 0 (at_bonded ls) = Inr ((), at_final ls' ps) \<and>
    tokens_of ''pay'' ps = 100 \<and> tokens_of ''flx'' ps = 0"
  by (simp add: evaluate check_code finalize_code scenario sample_inputs)

lemma step_arbitrated: "\<exists>r t. dr_final_arbitrator_finalize sample_sdk (sample_env ''arb'' 0) 0 out_b (at_triggered ls) = Inr (r, t)"
  by (simp add: evaluate check_code finalize_code scenario sample_inputs)

lemma step_provided: "\<exists>t. dr_finalize_by_provider sample_sdk (sample_env ''pro'' 0) 0 out_b (at_filed 1000 ls) = Inr ((), t)"
  by (simp add: evaluate check_code finalize_code scenario sample_inputs)

lemmas claim_code = dr_claim_def dr_get_expect_finalized_def fdr_claim_def claim_round_def rw_claim_for_def
  count_stake_def calc_product_def as_u128_def claim_promise_def window_at_def config_at_def refund_storage_def refund_amount_def
  fungible_token_transfer_def trim_dr_def

lemma claimed_stakes [simp]: "(at_stakes 200)((user_prefix 0 0 ''alice'', out_a) := None) = [(ots_prefix 0 0, out_a) \<mapsto> 200]"
  by (auto simp: at_stakes_def fun_eq_iff)

lemma alice_staked [simp]: "at_stakes 200 (user_prefix 0 0 ''alice'', out_a) = Some 200"
  by (simp add: at_stakes_def)

lemma step_claimed: "\<exists>p ls' qs. dr_claim sample_sdk (sample_env ''eve'' 2000) ''alice'' 0 (at_final ls ps) =
    Inr (p, at_claimed ls' (ps @ qs)) \<and> tokens_of ''pay'' qs = 50 \<and> tokens_of ''flx'' qs = 200"
  by (simp add: evaluate check_code claim_code at_self_def at_store_def the_request_def the_window_def
      at_users_def at_final_def at_claimed_def empty_storage_def sample_inputs upt_rec [of 0] upt_rec [of "Suc 0"])


section \<open>The states satisfy the invariant\<close>

lemma contract_ok_same:
  assumes "self t = self w" and "store t = store w"
  shows "contract_ok t = contract_ok w"
proof -
  have "request_list t = request_list w" by (rule request_list_cong) (simp_all add: assms)
  moreover have "config_list t = config_list w" "configs_ok t = configs_ok w"
    by (rule configs_ok_cong; simp add: assms)+
  ultimately show ?thesis by (simp add: contract_ok_def assms)
qed

lemma start_ok: "contract_ok (at_start c ls)"
proof -
  from step_start [of c] obtain ls' where
    new: "contract_new sample_sdk (sample_env ''gov'' 0) (Some [sample_requester]) (sample_config c) blank_world =
      Inr ((), at_start c ls')" by blast
  have "contract_ok (at_start c ls')"
    using contract_new_ok [OF new] by (simp add: blank_world_def)
  then show ?thesis by (subst contract_ok_same [where w = "at_start c ls'"]) (simp_all add: at_start_def)
qed

lemma filed_list: "request_list (at_filed c ls) = [Active (the_request c 0 False)]"
  by (simp add: request_list_def at_filed_def at_self_def at_store_def vec_elems_def)

lemma positive_request: "positive_bond (Active (the_request c n b))"
  by (simp add: positive_bond_def calc_resolution_bond_def the_request_def multiply_stake_def)

lemma filed_ok: "contract_ok (at_filed c ls)"
proof -
  from step_filed [of c "[]"] obtain ls' where
    new: "dr_new sample_sdk (sample_env ''pay'' 0) ''bob'' 150 sample_args (at_start c []) = Inr (0, at_filed c ls')"
    by blast
  have "contract_ok (at_filed c ls')"
    using dr_new_effect [OF new start_ok] positive_request [of c 0 False] by (auto simp: filed_list start_ok)
  then show ?thesis by (subst contract_ok_same [where w = "at_filed c ls'"]) (simp_all add: at_filed_def)
qed

lemma open_ok: "contract_ok (at_open 100 ls ps)"
proof -
  from step_open [of "[]"] obtain ls' where
    call: "dr_stake (sample_env ''flx'' 0) ''alice'' 100 (stake_on out_a) (at_filed 1000 []) =
      Inr (ValueOf 0, at_open 100 ls' [])" by blast
  from dr_stake_effect [OF call filed_ok] have "contract_ok (at_open 100 ls' [])" by blast
  then show ?thesis by (subst contract_ok_same [where w = "at_open 100 ls' []"]) (simp_all add: at_open_def)
qed

lemma bonded_ok: "contract_ok (at_bonded ls)"
proof -
  from step_bonded [of "[]"] obtain ls' where
    call: "dr_stake (sample_env ''flx'' 0) ''alice'' 250 (stake_on out_a) (at_filed 1000 []) =
      Inr (ValueOf 50, at_bonded ls')" by blast
  from dr_stake_effect [OF call filed_ok] have "contract_ok (at_bonded ls')" by blast
  then show ?thesis by (subst contract_ok_same [where w = "at_bonded ls'"]) (simp_all add: at_bonded_def)
qed

lemma triggered_ok: "contract_ok (at_triggered ls)"
proof -
  from step_triggered [of "[]"] obtain ls' where
    call: "dr_stake (sample_env ''flx'' 0) ''alice'' 250 (stake_on out_a) (at_filed 200 []) =
      Inr (ValueOf 50, at_triggered ls')" by blast
  from dr_stake_effect [OF call filed_ok] have "contract_ok (at_triggered ls')" by blast
  then show ?thesis by (subst contract_ok_same [where w = "at_triggered ls'"]) (simp_all add: at_triggered_def)
qed

lemma final_ok: "contract_ok (at_final ls ps)"
proof -
  from step_final [of "[]"] obtain ls' ps' where
    call: "dr_finalize sample_sdk (sample_env ''eve'' 1500) 0 (at_bonded []) = Inr ((), at_final ls' ps')" by blast
  from dr_finalize_effect [OF call bonded_ok] have "contract_ok (at_final ls' ps')" by (auto simp: finalized_as_def)
  then show ?thesis by (subst contract_ok_same [where w = "at_final ls' ps'"]) (simp_all add: at_final_def)
qed

lemma final_list: "request_list (at_final ls ps) = [Finalized (trim_dr (the_request 1000 2 False) out_a)]"
  by (simp add: request_list_def at_final_def at_self_def at_store_def vec_elems_def)

section \<open>A run\<close>

lemma scenario_lists:
  "request_list (at_start c ls) = []" "request_list (at_bonded ls) = [Active (the_request 1000 2 False)]"
  "request_list (at_claimed ls ps) = [Finalized (trim_dr (the_request 1000 2 False) out_a)]"
  by (simp_all add: request_list_def vec_elems_def at_start_def at_bonded_def at_claimed_def at_final_def at_self_def at_store_def)

text \<open>The run so far has the positive bonds that the theorems on runs ask for.\<close>

definition fair_run_of :: "(string \<Rightarrow> payload option) \<Rightarrow> world \<Rightarrow> token_flow list \<Rightarrow> bool" where
  "fair_run_of parse w fs \<longleftrightarrow> oracle_run parse sample_sdk w fs \<and> (\<forall>f \<in> set fs. positive_filing f)"

lemma fair_run_step:
  assumes "fair_run_of parse w fs" and "oracle_step parse sample_sdk w f t" and "positive_filing f"
  shows "fair_run_of parse t (fs @ [f])"
  using assms run_step by (auto simp: fair_run_of_def)

lemma run_start: "\<exists>ls. fair_run_of parse (at_start c ls) []"
proof -
  from step_start [of c] obtain ls where
    new: "contract_new sample_sdk (sample_env ''gov'' 0) (Some [sample_requester]) (sample_config c) blank_world =
      Inr ((), at_start c ls)" by blast
  from run_new [OF new] show ?thesis by (auto simp: blank_world_def fair_run_of_def)
qed

lemma run_filed: "\<exists>ls fs. fair_run_of parse (at_filed c ls) fs \<and> map received fs = [150]"
proof -
  from run_start [of parse c] obtain ls where run1: "fair_run_of parse (at_start c ls) []" by blast
  from step_filed [of c ls] obtain ls' where
    new: "dr_new sample_sdk (sample_env ''pay'' 0) ''bob'' 150 sample_args (at_start c ls) = Inr (0, at_filed c ls')"
    by blast
  have "positive_filing (flow i a n (at_start c ls) (at_filed c ls'))" for i a n
    by (simp add: positive_filing_def flow_def scenario_lists filed_list positive_request)
  from fair_run_step [OF run1 step_dr_new [OF new] this] show ?thesis by fastforce
qed

lemma run_bonded: "\<exists>ls fs. fair_run_of parse (at_bonded ls) fs \<and> map received fs = [150, 200]"
proof -
  from run_filed [of parse 1000] obtain ls fs where
    run1: "fair_run_of parse (at_filed 1000 ls) fs" "map received fs = [150]" by metis
  from step_bonded [of ls] obtain ls' where
    call: "dr_stake (sample_env ''flx'' 0) ''alice'' 250 (stake_on out_a) (at_filed 1000 ls) =
      Inr (ValueOf 50, at_bonded ls')" by blast
  have "positive_filing (flow i a n (at_filed 1000 ls) (at_bonded ls'))" for i a n
    by (simp add: positive_filing_def flow_def scenario_lists filed_list)
  from fair_run_step [OF run1(1) step_dr_stake [OF call] this] run1(2) show ?thesis by fastforce
qed

lemma run_final: "\<exists>ls ps fs. fair_run_of parse (at_final ls ps) fs \<and> map received fs = [150, 200, 0] \<and>
    tokens_of ''pay'' ps = 100 \<and> tokens_of ''flx'' ps = 0"
proof -
  from run_bonded [of parse] obtain ls fs where
    run1: "fair_run_of parse (at_bonded ls) fs" "map received fs = [150, 200]" by metis
  from step_final [of ls] obtain ls' ps where
    call: "dr_finalize sample_sdk (sample_env ''eve'' 1500) 0 (at_bonded ls) = Inr ((), at_final ls' ps)"
    and ps: "tokens_of ''pay'' ps = 100" "tokens_of ''flx'' ps = 0" by blast
  have "positive_filing (flow i a n (at_bonded ls) (at_final ls' ps))" for i a n
    by (simp add: positive_filing_def flow_def scenario_lists final_list)
  from fair_run_step [OF run1(1) step_dr_finalize [OF call] this] run1(2) ps show ?thesis by fastforce
qed

lemma run_claimed: "\<exists>ls ps fs. fair_run_of parse (at_claimed ls ps) fs \<and> map received fs = [150, 200, 0, 0] \<and>
    tokens_of ''pay'' ps = 150 \<and> tokens_of ''flx'' ps = 200"
proof -
  from run_final [of parse] obtain ls ps fs where
    run1: "fair_run_of parse (at_final ls ps) fs" "map received fs = [150, 200, 0]"
    and ps: "tokens_of ''pay'' ps = 100" "tokens_of ''flx'' ps = 0" by metis
  from step_claimed [of ls ps] obtain p ls' qs where
    call: "dr_claim sample_sdk (sample_env ''eve'' 2000) ''alice'' 0 (at_final ls ps) = Inr (p, at_claimed ls' (ps @ qs))"
    and qs: "tokens_of ''pay'' qs = 50" "tokens_of ''flx'' qs = 200" by blast
  have "positive_filing (flow i a n (at_final ls ps) (at_claimed ls' (ps @ qs)))" for i a n
    by (simp add: positive_filing_def flow_def scenario_lists final_list)
  from fair_run_step [OF run1(1) step_dr_claim [OF call] this] run1(2) ps qs show ?thesis by fastforce
qed

end
