(* ===== verification/Liveness.thy ===== *)
theory Liveness
  imports Solvency
begin

text \<open>
  When the handlers return: claims, finalization, unstaking and staking do not panic once their
  checks hold and the sums and times involved fit their words.
\<close>

section \<open>Claims\<close>

lemma rw_claim_for_returns: "\<exists>res t. rw_claim_for win a f w = Inr (res, t)"
proof (cases "rw_bonded_outcome win = Some f")
  case True
  then show ?thesis
    by (cases "lm_get (st_users (store w)) (rw_user_to_outcome_to_stake win) a")
      (simp_all add: rw_claim_for_def actions primitives)
next
  case False
  then show ?thesis
    by (cases "rw_bonded_outcome win") (simp_all add: rw_claim_for_def actions)
qed

text \<open>The three metrics stay within 128 bits while the rounds \<open>rs\<close> are added.\<close>

definition metrics_fit :: "outcome \<Rightarrow> account \<Rightarrow> stake_round list \<Rightarrow> claim_totals \<Rightarrow> bool" where
  "metrics_fit f a rs m \<longleftrightarrow> unat (total_correct_staked m) + correct_bonds f rs < 2 ^ 128 \<and>
     unat (total_incorrect_staked m) + incorrect_bonds f rs < 2 ^ 128 \<and>
     unat (user_correct_stake m) + correct_stake f rs a < 2 ^ 128"

lemma metrics_fit_Cons:
  assumes "metrics_fit f a (r # rs) m"
  shows "metrics_fit f a [r] m" "adds_up f a [r] m m' \<Longrightarrow> metrics_fit f a rs m'"
  using assms by (auto simp: metrics_fit_def adds_up_def correct_bonds_def incorrect_bonds_def)

lemma claim_round_returns:
  assumes ok: "windows_ok (store w) i (fdr_resolution_windows d)"
    and k: "k < unat (vec_len (fdr_resolution_windows d))"
    and few: "unat (vec_len (fdr_resolution_windows d)) \<le> 2 ^ 16"
    and fit: "metrics_fit (fdr_finalized_outcome d) a [rounds_of (store w) (fdr_resolution_windows d) ! k] m"
  shows "\<exists>m' t. claim_round d a (of_nat k) m w = Inr (m', t)"
proof -
  let ?h = "fdr_resolution_windows d" and ?f = "fdr_finalized_outcome d"
  have "k < 2 ^ LENGTH(64)" using k few by simp
  then have u: "unat (of_nat k :: u64) = k" by (rule unat_of_nat_fits)
  from ok have vok: "vec_ok (st_windows (store w)) ?h" by (simp add: windows_ok_def')
  let ?win = "windows_of (store w) ?h ! k"
  from vec.get_items [OF vok, of "of_nat k"] k
  have get: "vec_get (st_windows (store w)) ?h (of_nat k) = Inr (Some ?win)" by (simp add: u windows_of_def)
  from ok k have bd: "win_bounded (store w) ?win" and key: "window_key ?win = (i, of_nat k)"
    by (simp_all add: windows_ok_def')
  obtain res v where cl: "rw_claim_for ?win a ?f w = Inr (res, v)" using rw_claim_for_returns by blast
  note cr = rw_claim_round [OF cl bd]
  have rnd: "rounds_of (store w) ?h ! k = round_of (store w) ?win" by (simp add: rounds_of_nth [OF k])
  have "\<exists>m'. count_stake m res = Inr m'"
    using cr fit unfolding rnd
    by (cases "rw_bonded_outcome ?win")
      (auto simp: count_stake_def run metrics_fit_def correct_bonds_def incorrect_bonds_def bindR_def
        checked_add_def split: if_splits)
  then obtain m' where cnt: "count_stake m res = Inr m'" ..
  have "st_windows (store v) = st_windows (store w)" using cr by (simp add: window_frame_def)
  with vok k u have "\<exists>r. vec_replace (st_windows (store v)) ?h (of_nat k) ?win = Inr r"
    using vec.replace_items [of "st_windows (store v)" ?h "of_nat k" ?win] by auto
  then show ?thesis using get cl cnt by (simp add: claim_round_def run)
qed

lemma claim_rounds_return:
  assumes "windows_ok (store w) i (fdr_resolution_windows d)"
    and few: "unat (vec_len (fdr_resolution_windows d)) \<le> 2 ^ 16"
    and "k \<le> unat (vec_len (fdr_resolution_windows d))"
    and "metrics_fit (fdr_finalized_outcome d) a (drop k (rounds_of (store w) (fdr_resolution_windows d))) m"
  shows "\<exists>m' t. claim_rounds d a [k..<unat (vec_len (fdr_resolution_windows d))] m w = Inr (m', t)"
  using assms(1,3,4)
proof (induction "unat (vec_len (fdr_resolution_windows d)) - k" arbitrary: k m w)
  case 0
  then show ?case by (simp add: run)
next
  case (Suc x)
  let ?h = "fdr_resolution_windows d" and ?f = "fdr_finalized_outcome d"
  from Suc.hyps(2) have k: "k < unat (vec_len ?h)" by simp
  have d: "drop k (rounds_of (store w) ?h) = rounds_of (store w) ?h ! k # drop (Suc k) (rounds_of (store w) ?h)"
    using k by (simp add: Cons_nth_drop_Suc)
  note fit = metrics_fit_Cons [OF Suc.prems(3) [unfolded d]]
  from claim_round_returns [OF Suc.prems(1) k few fit(1)] obtain m1 v where
    one: "claim_round d a (of_nat k) m w = Inr (m1, v)" by blast
  note r = claim_round_rounds [OF one Suc.prems(1) k few]
  have "drop (Suc k) (rounds_of (store v) ?h) = drop (Suc k) (rounds_of (store w) ?h)" using r by simp
  then have fit': "metrics_fit ?f a (drop (Suc k) (rounds_of (store v) ?h)) m1" using fit(2) r by simp
  have "x = unat (vec_len ?h) - Suc k" using Suc.hyps(2) by simp
  from Suc.hyps(1) [OF this _ _ fit'] r k one show ?case
    by (simp add: upt_conv_Cons [OF k] run)
qed

text \<open>A claim returns when all the bonds of the request together fit 128 bits.\<close>

lemma fdr_claim_returns:
  assumes ok: "windows_ok (store w) i (fdr_resolution_windows d)"
    and few: "unat (vec_len (fdr_resolution_windows d)) \<le> 2 ^ 16"
    and fits: "correct_bonds (fdr_finalized_outcome d) (rounds_of (store w) (fdr_resolution_windows d)) +
      incorrect_bonds (fdr_finalized_outcome d) (rounds_of (store w) (fdr_resolution_windows d)) < 2 ^ 128"
  shows "\<exists>res t. fdr_claim E d a w = Inr (res, t)"
proof -
  let ?z = "\<lparr>total_correct_staked = 0, total_incorrect_staked = 0, user_correct_stake = 0\<rparr>"
  define rs where "rs = rounds_of (store w) (fdr_resolution_windows d)"
  define f where "f = fdr_finalized_outcome d"
  have le: "correct_stake f rs a \<le> correct_bonds f rs"
    unfolding rs_def by (rule correct_stake_le) (rule covered_finalized [OF ok])
  have "metrics_fit f a rs ?z" using le fits by (simp add: metrics_fit_def f_def rs_def)
  with claim_rounds_return [OF ok few, of 0 a ?z] obtain m v where
    rounds: "claim_rounds d a [0..<unat (vec_len (fdr_resolution_windows d))] ?z w = Inr (m, v)"
    by (auto simp: rs_def f_def)
  note c = claim_rounds_from [OF rounds ok _ few, folded rs_def f_def, simplified]
  from c have tot: "unat (total_correct_staked m) = correct_bonds f rs"
    "unat (total_incorrect_staked m) = incorrect_bonds f rs"
    "unat (user_correct_stake m) = correct_stake f rs a"
    by (simp_all add: adds_up_def)
  have sub: "unat (user_correct_stake m) \<le> unat (total_correct_staked m)" using le by (simp add: tot)
  obtain sp where sp: "(if total_correct_staked m = 0 then Inr 0
       else calc_product (user_correct_stake m) (total_incorrect_staked m) (total_correct_staked m)) = Inr sp"
    and sp_le: "unat sp \<le> incorrect_bonds f rs"
  proof (cases "total_correct_staked m = 0")
    case False
    from calc_product_total [OF False sub, of "total_incorrect_staked m"] obtain q where
      q: "calc_product (user_correct_stake m) (total_incorrect_staked m) (total_correct_staked m) = Inr q"
      "unat q = correct_stake f rs a * incorrect_bonds f rs div correct_bonds f rs"
      by (auto simp: tot)
    have "correct_stake f rs a * incorrect_bonds f rs div correct_bonds f rs \<le>
        correct_bonds f rs * incorrect_bonds f rs div correct_bonds f rs"
      using le by (intro div_le_mono mult_le_mono1)
    also have "\<dots> \<le> incorrect_bonds f rs" by simp
    finally show thesis using that False q by simp
  qed (use that in simp)
  obtain fp where fp: "(if total_correct_staked m = 0 then Inr 0
       else calc_product (user_correct_stake m) (fdr_paid_fee d) (total_correct_staked m)) = Inr fp"
    using calc_product_total [OF _ sub, of "fdr_paid_fee d"] by (cases "total_correct_staked m = 0") auto
  have "unat (user_correct_stake m) + unat sp < 2 ^ 128"
    using fits le sp_le unfolding f_def [symmetric] rs_def [symmetric] tot by linarith
  then have "checked_add (user_correct_stake m) sp = Inr (user_correct_stake m + sp)"
    by (simp add: checked_add_def)
  then show ?thesis
    unfolding fdr_claim_def
    by (simp add: bindM_step [of "claim_rounds d a _ _"] rounds bindM_def lift_def sp fp emits_def modifies_def ret_def)
qed

text \<open>
  A claim only removes entries of stakes, and the host counts no more bytes after entries are
  removed: \<open>env::storage_usage\<close> is a sum over the entries stored.
\<close>

definition shrinks :: "oracle_storage \<Rightarrow> oracle_storage \<Rightarrow> bool" where
  "shrinks st st' \<longleftrightarrow> (\<exists>s. s \<subseteq>\<^sub>m st_stakes st \<and> st' = st\<lparr>st_stakes := s\<rparr>)"

definition removing_frees :: "oenv \<Rightarrow> bool" where
  "removing_frees E \<longleftrightarrow> (\<forall>st st'. shrinks st st' \<longrightarrow> storage_usage E st' \<le> storage_usage E st)"

lemma shrinks_refl [simp]: "shrinks st st"
  by (auto simp: shrinks_def intro!: exI [of _ "st_stakes st"])

lemma shrinks_trans: "shrinks st st' \<Longrightarrow> shrinks st' st'' \<Longrightarrow> shrinks st st''"
  by (auto simp: shrinks_def) (metis map_le_trans)

lemma rw_claim_for_shrinks:
  assumes "rw_claim_for win a f w = Inr (res, t)"
  shows "shrinks (store w) (store t) \<and> self t = self w"
proof -
  have "lm_remove r h k \<subseteq>\<^sub>m r" for r :: "(outcome, u128) region" and h k
    by (auto simp: lm_remove_def map_le_def)
  then have "shrinks st (st\<lparr>st_stakes := lm_remove (st_stakes st) h k\<rparr>)" for st h k
    by (auto simp: shrinks_def)
  with assms show ?thesis
    by (auto simp: rw_claim_for_def run split: option.split_asm if_splits)
qed

text \<open>A claim stores every window back as it read it.\<close>

lemma claim_round_shrinks:
  assumes "claim_round d a i m w = Inr (m', t)"
  shows "shrinks (store w) (store t)"
proof -
  let ?h = "fdr_resolution_windows d"
  from assms obtain win res v r where get: "vec_get (st_windows (store w)) ?h i = Inr (Some win)"
    and cl: "rw_claim_for win a (fdr_finalized_outcome d) w = Inr (res, v)"
    and rep: "vec_replace (st_windows (store v)) ?h i win = Inr r" and t: "store t = (store v)\<lparr>st_windows := r\<rparr>"
    by (auto simp: claim_round_def run)
  from rw_claim_for_shrinks [OF cl] have sh: "shrinks (store w) (store v)" ..
  then have "st_windows (store v) = st_windows (store w)" by (auto simp: shrinks_def)
  with get rep have "r = st_windows (store v)"
    by (auto simp: vec_get_def vec_replace_def fun_upd_idem_iff split: if_splits option.splits)
  with sh show ?thesis by (simp add: t)
qed

lemma claim_rounds_shrinks: "claim_rounds d a is m w = Inr (m', t) \<Longrightarrow> shrinks (store w) (store t)"
proof (induction "is" arbitrary: m w)
  case (Cons i "is")
  then obtain m1 v where "claim_round d a (of_nat i) m w = Inr (m1, v)" "claim_rounds d a is m1 v = Inr (m', t)"
    by (auto simp: run)
  with Cons.IH claim_round_shrinks shrinks_trans show ?case by blast
qed (simp add: run)

lemma fdr_claim_shrinks: "fdr_claim E d a w = Inr (res, t) \<Longrightarrow> shrinks (store w) (store t)"
  by (auto simp: fdr_claim_def run dest: claim_rounds_shrinks)

text \<open>The index of an existing request reads it, and its configuration exists.\<close>

lemma request_stored:
  assumes "contract_ok w" and "unat i < length (request_list w)"
  shows "vec_get (st_requests (store w)) (data_requests (self w)) i = Inr (Some (request_list w ! unat i))"
    and "\<exists>c. vec_get (st_configs (store w)) (configs (self w)) (get_config_id (request_list w ! unat i)) = Inr (Some c)"
  using assms vec.get_items [of "st_requests (store w)" "data_requests (self w)" i]
    vec.get_items [of "st_configs (store w)" "configs (self w)" "get_config_id (request_list w ! unat i)"]
  by (auto simp: contract_ok_def request_list_def config_list_def configs_ok_def)

lemma config_stored_frame:
  "st_configs (store t) = st_configs (store w) \<Longrightarrow> self t = self w \<Longrightarrow>
   vec_get (st_configs (store t)) (configs (self t)) i = vec_get (st_configs (store w)) (configs (self w)) i"
  by simp

lemma dr_claim_returns:
  assumes ok: "contract_ok w" and unp: "\<not> paused (self w)"
    and i: "unat i < length (request_list w)" and d: "request_list w ! unat i = Finalized d"
    and frees: "removing_frees E"
    and room: "unat (attached_deposit E) + unat (storage_usage E (store w)) * unat (storage_price_per_byte K) < 2 ^ 128"
    and gas: "used_gas E \<le> prepaid_gas E" "gas_base_transfer K \<le> prepaid_gas E - used_gas E"
  defines "rs \<equiv> rounds_of (store w) (fdr_resolution_windows d)" and "f \<equiv> fdr_finalized_outcome d"
  assumes fits: "correct_bonds f rs + incorrect_bonds f rs < 2 ^ 128"
    and due: "0 < ladder_payout f rs a \<or> 0 < share (correct_stake f rs a) (unat (fdr_paid_fee d)) (correct_bonds f rs)"
  shows "\<exists>p t. dr_claim K E a i w = Inr (p, t)"
proof -
  from ok i d have rok: "request_ok (store w) i (Finalized d)" by (auto simp: contract_ok_def)
  then have wok: "windows_ok (store w) i (fdr_resolution_windows d)"
    and few: "unat (vec_len (fdr_resolution_windows d)) \<le> 2 ^ 16" by (simp_all add: request_ok_def)
  from fdr_claim_returns [OF wok few, of E a] fits obtain res v where cl: "fdr_claim E d a w = Inr (res, v)"
    by (auto simp: rs_def f_def)
  note r = fdr_claim_rounds [OF cl wok few]
  from request_stored [OF ok i] d obtain c where
    get: "vec_get (st_requests (store w)) (data_requests (self w)) i = Inr (Some (Finalized d))"
    and cfg: "vec_get (st_configs (store w)) (configs (self w)) (fdr_global_config_id d) = Inr (Some c)"
    by auto
  have "st_configs (store v) = st_configs (store w)" using r by (simp add: request_frame_def)
  with r cfg have cfg': "vec_get (st_configs (store v)) (configs (self v)) (fdr_global_config_id d) = Inr (Some c)"
    by simp
  have "stake_token_payout res > 0 \<or> payment_token_payout res > 0"
    using due r by (auto simp: rs_def f_def word_gt_0 simp flip: unat_eq_0)
  then have "\<exists>p. claim_promise K c a res = Inr p"
    by (auto simp: claim_promise_def Let_def)
  then obtain p where p: "claim_promise K c a res = Inr p" ..
  from frees fdr_claim_shrinks [OF cl] have "storage_usage E (store v) \<le> storage_usage E (store w)"
    by (simp add: removing_frees_def)
  from refundable_released [OF this room] obtain n where
    n: "refund_amount K E (storage_usage E (store w)) (storage_usage E (store v)) = Inr n"
    by (auto simp: refundable_iff [symmetric])
  show ?thesis
    using unp get cl cfg' n gas p by (simp add: dr_claim_def run)
qed


section \<open>Staking\<close>

lemma rw_stake_returns:
  assumes bal: "win_balanced (store w) win"
  shows "\<exists>unspent win' t. rw_stake E win a outc n w = Inr ((unspent, win'), t)"
proof -
  define s where "s = unwrap_or (lm_get (st_stakes (store w)) (rw_outcome_to_stake win) outc) 0"
  define u where "u = unwrap_or (lm_get (st_stakes (store w)) (user_handle (store w) win a) outc) 0"
  define k where "k = min n (rw_bond_size win - s)"
  have "win_user (store w) win outc a \<le> win_total (store w) win outc"
    using bal total_member_le [OF finite_table_row, of "win_user (store w) win" outc a]
    by (simp add: win_balanced_def)
  then have ule: "unat u \<le> unat s" by (simp add: win_total_def win_user_def s_def u_def)
  have le: "unat s \<le> unat (rw_bond_size win)"
    using bal by (simp add: win_balanced_def win_total_def s_def)
  have "unat k \<le> unat (rw_bond_size win) - unat s"
    using le by (auto simp: k_def min_def unats exact)
  then have fits: "unat s + unat k < 2 ^ 128" "unat u + unat k < 2 ^ 128"
    using le ule unat_bound [of "rw_bond_size win"] by simp_all
  have room: "unat (rw_bond_size win - s) = unat (rw_bond_size win) - unat s" using le by (simp add: exact unats)
  show ?thesis
  proof (cases "rw_bond_size win - s < n")
    case True
    then have "k = rw_bond_size win - s" by (auto simp: k_def min_def)
    moreover have "unat (n - (rw_bond_size win - s)) \<le> unat n" using True by (simp add: exact unats)
    ultimately show ?thesis
      using fits le True by (auto simp: rw_stake_def run Let_def unats simp flip: s_def u_def)
  next
    case False
    then have "k = n" by (auto simp: k_def min_def)
    with fits le False show ?thesis
      by (cases "s + n = rw_bond_size win") (auto simp: rw_stake_def run Let_def unats simp flip: s_def u_def)
  qed
qed

lemma current_window_returns:
  assumes g: "game (store w) d base"
    and fits: "base * 2 < 2 ^ 128" "unat (block_timestamp E) + unat (adr_initial_challenge_period d) < 2 ^ 64"
  shows "\<exists>win t. current_window E d w = Inr (win, t)"
proof (cases "vec_len (adr_resolution_windows d) = 0")
  case True
  with g fits show ?thesis by (auto simp: game_def current_window_def Let_def run)
next
  case False
  from g have vok: "vec_ok (st_windows (store w)) (adr_resolution_windows d)"
    by (simp add: game_def windows_ok_def')
  have "windows_of (store w) (adr_resolution_windows d) \<noteq> []"
    using False by (metis length_0_conv length_windows_of unat_eq_0)
  with vec.get_last [OF vok] False show ?thesis
    by (auto simp: current_window_def Let_def run windows_of_def)
qed

lemma vec_push_returns: "unat (vec_len h) < 128 \<Longrightarrow> \<exists>ws h'. vec_push r h x = Inr (ws, h')"
  by (simp add: vec_push_def bindR_def checked_add_def)

lemma store_window_returns:
  assumes vok: "vec_ok (st_windows (store w)) (adr_resolution_windows d)"
  shows "\<exists>d' t. store_window d win w = Inr (d', t)"
proof (cases "vec_len (adr_resolution_windows d) = 0")
  case True
  then show ?thesis
    using vec_push_returns [of "adr_resolution_windows d" "st_windows (store w)" win]
    by (auto simp: store_window_def Let_def run)
next
  case False
  have "vec_elems (st_windows (store w)) (adr_resolution_windows d) \<noteq> []"
    using False by (metis length_0_conv length_vec_elems unat_eq_0)
  with vec.replace_last [OF vok, of win] vec.get_last [OF vok] False show ?thesis
    by (auto simp: store_window_def Let_def run)
qed

lemma open_next_window_returns:
  assumes "unat (vec_len (adr_resolution_windows d)) < 128" and "unat (rw_bond_size win) * 2 < 2 ^ 128"
    and "unat (block_timestamp E) + unat (adr_initial_challenge_period d) < 2 ^ 64"
    and "unat (block_timestamp E) + unat (rc_default_challenge_window_duration (adr_request_config d)) < 2 ^ 64"
  shows "\<exists>d' t. open_next_window E d win w = Inr (d', t)"
proof -
  have "\<exists>n ws. vec_push (st_windows (store w)) (adr_resolution_windows d) x = Inr (ws, n)" for x
    using vec_push_returns [OF assms(1), of "st_windows (store w)" x] by auto
  then show ?thesis using assms by (simp add: open_next_window_def Let_def run)
qed

text \<open>
  The four word conditions under which a stake does not overflow: two doublings of the bond of
  the current round and the end of the two windows that may open.
\<close>

definition stake_fits :: "oenv \<Rightarrow> active_data_request \<Rightarrow> nat \<Rightarrow> stake_round list \<Rightarrow> bool" where
  "stake_fits E d base rs \<longleftrightarrow> 2 * sr_bond (current_round base rs) < 2 ^ 128 \<and>
     unat (block_timestamp E) + unat (adr_initial_challenge_period d) < 2 ^ 64 \<and>
     unat (block_timestamp E) + unat (rc_default_challenge_window_duration (adr_request_config d)) < 2 ^ 64"

lemma adr_stake_returns:
  assumes g: "game (store w) d base" and opn: "\<not> adr_final_arbitrator_triggered d"
    and fits: "stake_fits E d base (rounds (store w) d)"
  shows "\<exists>x t. adr_stake E d a outc n w = Inr (x, t)"
proof -
  let ?h = "adr_resolution_windows d" and ?r = "current_round base (rounds (store w) d)"
  let ?k = "unat (vec_len (adr_resolution_windows d)) - 1"
  from g have ok: "windows_ok (store w) (adr_id d) ?h" and bal: "windows_balanced (store w) ?h"
    and few: "unat (vec_len ?h) < 128"
    by (auto simp: game_def intro: ladder_few_windows)
  from g opn have lad: "ladder base False (rounds (store w) d)" "0 < base" by (simp_all add: game_def rounds_def)
  have "base * 2 \<le> sr_bond ?r" using ladder_current [OF lad] by simp
  with fits have f1: "base * 2 < 2 ^ 128"
    and f2: "unat (block_timestamp E) + unat (adr_initial_challenge_period d) < 2 ^ 64"
    and f3: "unat (block_timestamp E) + unat (rc_default_challenge_window_duration (adr_request_config d)) < 2 ^ 64"
    and f4: "sr_bond ?r * 2 < 2 ^ 128"
    unfolding stake_fits_def by linarith+
  from current_window_returns [OF g f1 f2] obtain win w1 where cur: "current_window E d w = Inr (win, w1)" by blast
  note cw = current_window_round [OF cur g]
  have b1: "win_balanced (store w1) win" using cw(1,5) by simp
  from rw_stake_returns [OF b1] obtain unspent win' w2 where st: "rw_stake E win a outc n w1 = Inr ((unspent, win'), w2)"
    by blast
  note rs = rw_stake_round [OF st b1]
  have fr: "window_frame (adr_id d, of_nat ?k) (store w) (store w2)" using rs(7) cw(1,6) by simp
  have key: "window_key win' = (adr_id d, of_nat ?k)" using rs(5) cw(6) by simp
  have old: "win_balanced (store w2) (windows_of (store w) ?h ! ?k)" if "vec_len ?h \<noteq> 0"
    using rs(4) cw(7) [OF that] by simp
  have "st_windows (store w2) = st_windows (store w)" using fr by (simp add: window_frame_def)
  with ok have "vec_ok (st_windows (store w2)) ?h" by (simp add: windows_ok_def')
  from store_window_returns [OF this] obtain d1 w3 where sw: "store_window d win' w2 = Inr (d1, w3)" by blast
  from store_window_rounds [OF sw ok bal few fr key rs(3) old] obtain h1 where
    d1: "d1 = d\<lparr>adr_resolution_windows := h1\<rparr>" and len1: "unat (vec_len h1) = max 1 (unat (vec_len ?h))" by blast
  have "sr_bond ?r = unat (rw_bond_size win')" using rs(6) cw(4) by (metis sr_bond_round_of)
  with f4 have bond: "unat (rw_bond_size win') * 2 < 2 ^ 128" by simp
  define d2 where "d2 = snd (invoke_final_arbitrator d1 (rw_bond_size win'))"
  have "unat (vec_len (adr_resolution_windows d2)) < 128" "adr_initial_challenge_period d2 = adr_initial_challenge_period d"
      "adr_request_config d2 = adr_request_config d"
    using len1 few by (simp_all add: d2_def d1 invoke_final_arbitrator_def Let_def)
  with open_next_window_returns [of d2 win' E w3] bond f2 f3 obtain d3 w4 where
    nw: "open_next_window E d2 win' w3 = Inr (d3, w4)" by auto
  show ?thesis
    unfolding adr_stake_def
    by (simp add: bindM_def cur st sw Let_def nw [unfolded d2_def] ret_def)
qed

lemma assert_can_stake_exact:
  assumes g: "game (store w) d base"
  shows "assert_can_stake_on_outcome d outc w =
    (if challenged (rounds (store w) d) = Some outc then Inl (Request ErrIncompatibleRound) else Inr ((), w))"
proof (cases "vec_len (adr_resolution_windows d) > 1")
  case True
  let ?h = "adr_resolution_windows d"
  let ?n = "unat (vec_len ?h)"
  from True have n: "2 \<le> ?n" "2 \<le> vec_len ?h" by (simp_all add: unats)
  then have k: "unat (vec_len ?h - 2) = ?n - 2" by (simp add: exact)
  from g have vok: "vec_ok (st_windows (store w)) ?h" and lad: "ladder base (adr_final_arbitrator_triggered d) (rounds (store w) d)"
    by (simp_all add: game_def windows_ok_def' rounds_def)
  from vec.get_items [OF vok, of "vec_len ?h - 2"] n
  have get: "vec_get (st_windows (store w)) ?h (vec_len ?h - 2) = Inr (Some (windows_of (store w) ?h ! (?n - 2)))"
    by (simp add: k windows_of_def)
  have len: "length (rounds (store w) d) = ?n" by (simp add: rounds_def)
  have b: "sr_bonded (rounds (store w) d ! (?n - 2)) = rw_bonded_outcome (windows_of (store w) ?h ! (?n - 2))"
    using n by (simp add: rounds_def rounds_of_nth)
  have "sr_bonded (rounds (store w) d ! (?n - 2)) \<noteq> None"
    using lad n by (auto simp: ladder_def len)
  then obtain q where q: "rw_bonded_outcome (windows_of (store w) ?h ! (?n - 2)) = Some q" by (auto simp: b)
  with n have "challenged (rounds (store w) d) = Some q" by (simp add: challenged_def len b)
  with True n get q show ?thesis
    by (simp add: assert_can_stake_on_outcome_def Let_def window_at_def actions primitives checked_sub_def)
next
  case False
  then have "challenged (rounds (store w) d) = None" by (simp add: challenged_def rounds_def unats)
  with False show ?thesis by (simp add: assert_can_stake_on_outcome_def Let_def ret_def)
qed

lemma assert_can_stake_returns:
  "game (store w) d base \<Longrightarrow> challenged (rounds (store w) d) \<noteq> Some outc \<Longrightarrow>
   assert_can_stake_on_outcome d outc w = Inr ((), w)"
  by (simp add: assert_can_stake_exact)

lemma assert_can_stake_refuses:
  "game (store w) d base \<Longrightarrow> challenged (rounds (store w) d) = Some outc \<Longrightarrow>
   assert_can_stake_on_outcome d outc w = Inl (Request ErrIncompatibleRound)"
  by (simp add: assert_can_stake_exact)

lemma dr_stake_returns:
  assumes ok: "contract_ok w" and unp: "\<not> paused (self w)"
    and i: "unat (stake_id p) < length (request_list w)" and d: "request_list w ! unat (stake_id p) = Active d"
    and opn: "\<not> adr_final_arbitrator_triggered d"
    and tok: "predecessor E = cfg_stake_token (config_list w ! unat (adr_global_config_id d))"
    and valid: "assert_valid_outcome d (stake_outcome p) w = Inr ((), w)"
      "assert_valid_outcome_type d (stake_outcome p) w = Inr ((), w)"
    and fair: "challenged (rounds (store w) d) \<noteq> Some (stake_outcome p)"
    and base: "calc_resolution_bond d = Inr b" and fits: "stake_fits E d (unat b) (rounds (store w) d)"
  shows "\<exists>r t. dr_stake E a n p w = Inr (r, t)"
proof -
  from ok i d have rok: "request_ok (store w) (stake_id p) (Active d)" by (auto simp: contract_ok_def)
  with base have g: "game (store w) d (unat b)" by (auto simp: request_ok_def game_def)
  then have wok: "windows_ok (store w) (adr_id d) (adr_resolution_windows d)" by (simp add: game_def)
  from request_stored [OF ok i] d obtain c where
    get: "vec_get (st_requests (store w)) (data_requests (self w)) (stake_id p) = Inr (Some (Active d))"
    and cfg: "vec_get (st_configs (store w)) (configs (self w)) (adr_global_config_id d) = Inr (Some c)"
    by auto
  from config_at_list [OF cfg] ok have c: "c = config_list w ! unat (adr_global_config_id d)"
    by (simp add: contract_ok_def)
  from adr_stake_returns [OF g opn fits, of a "stake_outcome p" n] obtain x v where
    st: "adr_stake E d a (stake_outcome p) n w = Inr (x, v)" by blast
  have "adr_stake E d a (stake_outcome p) n w = Inr ((fst x, snd x), v)" using st by simp
  note r = adr_stake_rounds [OF this g opn]
  have stored: "vec_get (st_requests (store v)) (data_requests (self v)) (stake_id p) = Inr (Some (Active d))"
    using r get by (simp add: request_frame_def)
  have "\<exists>rs. vec_replace (st_requests (store v)) (data_requests (self v)) (stake_id p) (Active (snd x)) = Inr rs"
    using stored by (auto simp: vec_get_def vec_replace_def split: if_splits option.splits)
  then obtain rs where rep: "vec_replace (st_requests (store v)) (data_requests (self v)) (stake_id p) (Active (snd x)) = Inr rs" ..
  have can: "assert_can_stake_on_outcome d (stake_outcome p) w = Inr ((), w)"
    using assert_can_stake_returns [OF g fair] by simp
  show ?thesis
    unfolding dr_stake_def
    using unp get cfg tok c opn rep
    by (cases x) (simp add: run bindM_Inr valid can st assert_final_arbitrator_not_invoked_def Let_def)
qed

section \<open>Unstaking\<close>

lemma rw_unstake_returns:
  assumes bd: "win_bounded (store w) win" and free: "rw_bonded_outcome win \<noteq> Some outc"
    and le: "unat n \<le> win_user (store w) win outc a"
  shows "\<exists>r t. rw_unstake E win a outc n w = Inr (r, t)"
proof -
  have "win_user (store w) win outc a \<le> total_of (win_user (store w) win outc)"
    using bd by (intro total_member_le finite_table_row) (simp add: win_bounded_def)
  with bd le have "unat n \<le> win_total (store w) win outc"
    by (auto simp: win_bounded_def intro: le_trans)
  with free le show ?thesis
    by (simp add: rw_unstake_def run Let_def win_user_def win_total_def unats)
qed

text \<open>The storage after \<open>n\<close> tokens of \<open>a\<close> are taken out of a window.\<close>

definition unstaked_store :: "oracle_storage \<Rightarrow> resolution_window \<Rightarrow> account \<Rightarrow> outcome \<Rightarrow> nat \<Rightarrow> oracle_storage" where
  "unstaked_store st win a outc n =
     put_stake st win a outc (of_nat (win_total st win outc - n)) (of_nat (win_user st win outc a - n))"

lemma of_nat_unat_minus: "y \<le> x \<Longrightarrow> of_nat (unat x - unat y) = x - y" for x y :: "'a::len word"
  by (simp add: unat_le_iff of_nat_diff)

lemma rw_unstake_store:
  assumes "rw_unstake E win a outc n w = Inr (r, t)"
  shows "store t = unstaked_store (store w) win a outc (unat n)"
  using rw_unstake_Inr [OF assms] by (simp add: unstaked_store_def win_total_def win_user_def of_nat_unat_minus)

text \<open>What a call to \<open>dr_unstake\<close> comes to once the request, the round and the stake are there.\<close>

lemma dr_unstake_outcome:
  fixes rnd :: u16
  assumes ok: "contract_ok w" and unp: "\<not> paused (self w)" and i: "unat i < length (request_list w)"
  defines "h \<equiv> request_windows (request_list w ! unat i)"
  defines "rs \<equiv> rounds_of (store w) h" and "win \<equiv> windows_of (store w) h ! unat rnd"
  assumes k: "unat rnd < length rs" and free: "sr_bonded (rs ! unat rnd) \<noteq> Some outc"
    and le: "unat n \<le> sr_stakes (rs ! unat rnd) outc (predecessor E)"
  shows "(\<exists>t. dr_unstake K E i rnd outc n w = Inr ((), t)) \<longleftrightarrow>
    refundable K E (storage_usage E (store w))
      (storage_usage E (unstaked_store (store w) win (predecessor E) outc (unat n)))"
proof -
  let ?dr = "request_list w ! unat i"
  have rok: "request_ok (store w) i ?dr" using ok i by (auto simp: contract_ok_def)
  then have wok: "windows_ok (store w) i h"
    by (auto simp: h_def request_ok_def game_def split: data_request.splits)
  from wok have vok: "vec_ok (st_windows (store w)) h" by (simp add: windows_ok_def')
  have u: "unat (ucast rnd :: u64) = unat rnd" by (rule unat_ucast_up) simp
  have k': "unat rnd < unat (vec_len h)" using k by (simp add: rs_def)
  with vec.get_items [OF vok, of "ucast rnd"]
  have win: "vec_get (st_windows (store w)) h (ucast rnd) = Inr (Some win)" by (simp add: u windows_of_def win_def)
  have bd: "win_bounded (store w) win" using wok k' by (simp add: windows_ok_def' win_def)
  have r: "rs ! unat rnd = round_of (store w) win" using k' by (simp add: rs_def rounds_of_nth win_def)
  from free le have "rw_bonded_outcome win \<noteq> Some outc" "unat n \<le> win_user (store w) win outc (predecessor E)"
    by (simp_all add: r) (simp add: round_of_def)
  from rw_unstake_returns [OF bd this] obtain x v where
    un: "rw_unstake E win (predecessor E) outc n w = Inr (x, v)" by blast
  have un': "dr_unstake_window E ?dr (predecessor E) rnd outc n w = Inr (x, v)"
    using win un by (simp add: dr_unstake_window_def run h_def)
  from rw_unstake_bounded [OF un bd] have "st_configs (store v) = st_configs (store w)" "self v = self w"
    by (simp_all add: window_frame_def request_frame_def)
  with request_stored [OF ok i] obtain c where
    get: "vec_get (st_requests (store w)) (data_requests (self w)) i = Inr (Some ?dr)"
    and cfg: "vec_get (st_configs (store v)) (configs (self v)) (get_config_id ?dr) = Inr (Some c)"
    by auto
  have "(\<exists>t. dr_unstake K E i rnd outc n w = Inr ((), t)) \<longleftrightarrow>
      (\<exists>m. refund_amount K E (storage_usage E (store w)) (storage_usage E (store v)) = Inr m)"
    using unp get cfg un' by (simp add: dr_unstake_def run)
  then show ?thesis by (simp add: refundable_iff rw_unstake_store [OF un])
qed

section \<open>Finalization\<close>

lemma dr_finalize_returns:
  assumes ok: "contract_ok w" and unp: "\<not> paused (self w)"
    and i: "unat i < length (request_list w)" and d: "request_list w ! unat i = Active d"
    and opn: "\<not> adr_final_arbitrator_triggered d" and two: "2 \<le> length (rounds (store w) d)"
    and time: "rw_end_time (last (windows_of (store w) (adr_resolution_windows d))) \<le> block_timestamp E"
  shows "\<exists>t. dr_finalize K E i w = Inr ((), t)"
proof -
  let ?h = "adr_resolution_windows d"
  let ?n = "unat (vec_len (adr_resolution_windows d))"
  from ok i d have rok: "request_ok (store w) i (Active d)" by (auto simp: contract_ok_def)
  then obtain base where g: "game (store w) d base" by (auto simp: request_ok_def)
  from g have vok: "vec_ok (st_windows (store w)) ?h"
    and lad: "ladder base (adr_final_arbitrator_triggered d) (rounds (store w) d)"
    by (simp_all add: game_def windows_ok_def' rounds_def)
  have n: "2 \<le> ?n" "2 \<le> vec_len ?h" using two by (simp_all add: rounds_def unats)
  then have k: "unat (vec_len ?h - 2) = ?n - 2" by (simp add: exact)
  have ne: "windows_of (store w) ?h \<noteq> []" using n by (metis length_0_conv length_windows_of not_numeral_le_zero)
  then have ne': "vec_elems (st_windows (store w)) ?h \<noteq> []" by (simp add: windows_of_def)
  from vec.get_last [OF vok ne'] have l: "checked_sub (vec_len ?h) 1 = Inr (vec_len ?h - 1)"
    "vec_get (st_windows (store w)) ?h (vec_len ?h - 1) = Inr (Some (last (windows_of (store w) ?h)))"
    by (simp_all add: windows_of_def)
  have pos: "vec_len ?h > 0" using n(1) by (metis not_numeral_le_zero unat_0 word_gt_0)
  have fin: "assert_can_finalize E d w = Inr ((), w)"
    using opn time pos l by (simp add: assert_can_finalize_def Let_def window_at_def actions primitives)
  from vec.get_items [OF vok, of "vec_len ?h - 2"] n
  have get2: "vec_get (st_windows (store w)) ?h (vec_len ?h - 2) = Inr (Some (windows_of (store w) ?h ! (?n - 2)))"
    by (simp add: k windows_of_def)
  have "sr_bonded (rounds (store w) d ! (?n - 2)) \<noteq> None" using lad n by (auto simp: ladder_def rounds_def)
  then obtain f where f: "rw_bonded_outcome (windows_of (store w) ?h ! (?n - 2)) = Some f"
    using n by (auto simp: rounds_def rounds_of_nth)
  have out: "get_final_outcome d w = Inr (f, w)"
    using n get2 f by (simp add: get_final_outcome_def Let_def window_at_def actions primitives checked_sub_def)
  from request_stored [OF ok i] d obtain c where
    get: "vec_get (st_requests (store w)) (data_requests (self w)) i = Inr (Some (Active d))"
    and cfg: "vec_get (st_configs (store w)) (configs (self w)) (adr_global_config_id d) = Inr (Some c)"
    by auto
  from get have "\<exists>r. vec_replace (st_requests (store w)) (data_requests (self w)) i (Finalized (trim_dr d f)) = Inr r"
    by (auto simp: vec_get_def vec_replace_def split: if_splits option.splits)
  then obtain r where rep: "vec_replace (st_requests (store w)) (data_requests (self w)) i (Finalized (trim_dr d f)) = Inr r" ..
  obtain m where "refund_amount K E (storage_usage E (store w)) (storage_usage E (store w)) = Inr m"
    using refundable_refl refundable_iff by blast
  with unp get cfg rep show ?thesis
    by (simp add: dr_finalize_def bindM_Inr run fin out Let_def)
qed

end
