(* ===== verification/Finality.thy ===== *)
theory Finality
  imports Solvency
begin

text \<open>
  What later calls cannot undo: a finalized request stays as it is, and the stake an account
  can claim on it never grows. Both hold for one step and so along every later run.
\<close>

section \<open>One step\<close>

text \<open>
  Request \<open>i\<close> is finalized as \<open>d\<close>, and the stakes on the final outcome are at most \<open>s\<close>.
\<close>

definition settled :: "nat \<Rightarrow> finalized_data_request \<Rightarrow> (account \<Rightarrow> nat) \<Rightarrow> world \<Rightarrow> bool" where
  "settled i d s w \<longleftrightarrow> i < length (request_list w) \<and> request_list w ! i = Finalized d \<and>
     (\<forall>a. correct_stake (fdr_finalized_outcome d) (rounds_of (store w) (fdr_resolution_windows d)) a \<le> s a)"

lemma settled_rounds:
  assumes "settled i d s w" and "i < length (request_list t)" and "request_list t ! i = Finalized d"
    and "rounds_of (store t) (fdr_resolution_windows d) = rounds_of (store w) (fdr_resolution_windows d)"
  shows "settled i d s t"
  using assms by (simp add: settled_def)

lemma settled_quiet: "settled i d s w \<Longrightarrow> quiet w t \<Longrightarrow> contract_ok w \<Longrightarrow> settled i d s t"
  by (simp add: settled_def quiet_keeps)

text \<open>Calls on another request.\<close>

lemma settled_other:
  assumes "settled i d s w" and "others_kept w t j" and "i \<noteq> j"
    and "request_list t = (request_list w)[j := dr]"
  shows "settled i d s t"
proof -
  from assms(1) have i: "i < length (request_list w)" "request_list w ! i = Finalized d" by (simp_all add: settled_def)
  with assms(2,3) have "rounds_of (store t) (request_windows (Finalized d)) = rounds_of (store w) (request_windows (Finalized d))"
    unfolding others_kept_def by metis
  with assms i show ?thesis by (intro settled_rounds [OF assms(1)]) simp_all
qed

lemma settled_active: "settled i d s w \<Longrightarrow> request_list w ! j = Active d' \<Longrightarrow> i \<noteq> j"
  by (auto simp: settled_def)

lemma settled_dr_new:
  assumes s: "settled i d s w" and call: "dr_new K E a n p w = Inr (x, t)" and ok: "contract_ok w"
  shows "settled i d s t"
proof -
  from dr_new_effect [OF call ok] obtain d' where
    "request_list t = request_list w @ [Active d']" "same_stakes (store w) (store t)" by blast
  with s show ?thesis by (simp add: settled_def nth_append same_stakes_views)
qed

lemma settled_dr_stake:
  assumes s: "settled i d s w" and call: "dr_stake E a n p w = Inr (x, t)" and ok: "contract_ok w"
  shows "settled i d s t"
proof -
  from dr_stake_effect [OF call ok] obtain d1 d2 where
    e: "request_list w ! unat (stake_id p) = Active d1" "others_kept w t (unat (stake_id p))"
      "request_list t = (request_list w)[unat (stake_id p) := Active d2]" by blast
  show ?thesis by (rule settled_other [OF s e(2) settled_active [OF s e(1)] e(3)])
qed

lemma settled_finalized: "settled i d s w \<Longrightarrow> finalized_as w t j d' f \<Longrightarrow> settled i d s t"
  unfolding finalized_as_def by (elim conjE) (rule settled_other, assumption+, rule settled_active)

text \<open>Unstaking takes nothing from the bonded outcomes, and a claim only removes stakes.\<close>

lemma settled_dr_unstake:
  assumes s: "settled i d s w" and call: "dr_unstake K E j rnd o' n w = Inr (u, t)" and ok: "contract_ok w"
  shows "settled i d s t"
proof -
  from dr_unstake_effect [OF call ok] obtain dr where
    j: "request_list w ! unat j = dr" and rl: "request_list t = request_list w"
    and k: "unat rnd < length (rounds_of (store w) (request_windows dr))"
    and nb: "sr_bonded (rounds_of (store w) (request_windows dr) ! unat rnd) \<noteq> Some o'"
    and rs: "rounds_of (store t) (request_windows dr) =
      ladder_unstake (rounds_of (store w) (request_windows dr)) (unat rnd) (predecessor E) o' (unat n)"
    and t: "others_kept w t (unat j)"
    by (auto simp: Let_def)
  show ?thesis
  proof (cases "i = unat j")
    case True
    with s j have "dr = Finalized d" by (simp add: settled_def)
    with s True rl k nb rs show ?thesis by (simp add: settled_def claims_unstake)
  next
    case False
    then show ?thesis by (rule settled_other [OF s t _, of "request_list w ! unat j"]) (simp add: rl)
  qed
qed

lemma settled_dr_claim:
  assumes s: "settled i d s w" and call: "dr_claim K E a j w = Inr (p, t)" and ok: "contract_ok w"
  shows "settled i d s t \<and> (unat j = i \<longrightarrow> settled i d (s(a := 0)) t)"
proof -
  from dr_claim_effect [OF call ok] obtain d' where
    j: "request_list w ! unat j = Finalized d'" and rl: "request_list t = request_list w"
    and rs: "rounds_of (store t) (fdr_resolution_windows d') =
      ladder_claim (fdr_finalized_outcome d') (rounds_of (store w) (fdr_resolution_windows d')) a"
    and t: "others_kept w t (unat j)"
    by (auto simp: Let_def)
  show ?thesis
  proof (cases "i = unat j")
    case True
    with s j have "d' = d" by (simp add: settled_def)
    with s True rl rs show ?thesis by (simp add: settled_def correct_stake_claim)
  next
    case False
    then show ?thesis using settled_other [OF s t False, of "request_list w ! unat j"] by (simp add: rl)
  qed
qed

lemma fair_step_settled:
  assumes step: "fair_step parse K w f t" and ok: "contract_ok w" and s: "settled i d s w"
  shows "settled i d s t"
proof -
  from step have "oracle_step parse K w f t" by (simp add: fair_step_def)
  moreover from fair_step_sound [OF step ok] have ok': "contract_ok t" by (simp add: sound_def)
  have ft: "settled i d s t" if "settled i d s v" "contract_ok v" "use_storage K E a x y v = Inr ((), t)" for v E a x y
    using settled_quiet [OF that(1) use_storage_quiet [OF that(3)] that(2)] contract_ok_configs [OF that(2)] by simp
  ultimately show ?thesis
  proof cases
    case (step_ft_new msg p E a n x)
    from ft_on_transfer_Inr [OF step_ft_new(3) contract_ok_configs [OF ok]] step_ft_new(2) obtain v y z where
      new: "dr_new K E a n p w = Inr (x, v)" and use: "use_storage K E a y z v = Inr ((), t)" by auto
    have "positive_filing (flow None [] 0 w v)"
      using step step_ft_new(1) by (simp add: fair_step_def positive_filing_def flow_def use_storage_requests [OF use])
    then have "contract_ok v" using dr_new_sound [OF new ok] by (simp add: sound_def)
    from ft [OF settled_dr_new [OF s new ok] this use] show ?thesis .
  next
    case (step_ft_stake msg p E a n x)
    from ft_on_transfer_Inr [OF step_ft_stake(3) contract_ok_configs [OF ok]] step_ft_stake(2) obtain v y z where
      stake: "dr_stake E a n p w = Inr (ValueOf x, v)" and use: "use_storage K E a y z v = Inr ((), t)" by auto
    have "contract_ok v" using dr_stake_sound [OF stake ok] by (simp add: sound_def)
    from ft [OF settled_dr_stake [OF s stake ok] this use] show ?thesis .
  next
    case (step_dr_finalize E j u)
    from dr_finalize_effect [OF step_dr_finalize(2) ok] settled_finalized [OF s] show ?thesis by blast
  next
    case (step_provider E j o' u)
    from dr_finalize_by_provider_effect [OF step_provider(2) ok] settled_finalized [OF s] show ?thesis by blast
  next
    case (step_arbitrator E j o' b)
    from dr_final_arbitrator_finalize_effect [OF step_arbitrator(2) ok] settled_finalized [OF s] show ?thesis by blast
  next
    case step_other
    then show ?thesis using settled_quiet [OF s other_call_quiet ok] contract_ok_configs [OF ok] by simp
  next
    case (step_dr_new E a n p x)
    then show ?thesis using settled_dr_new [OF s _ ok] by simp
  next
    case (step_dr_stake E a n p x)
    then show ?thesis using settled_dr_stake [OF s _ ok] by simp
  next
    case (step_dr_unstake E j rnd o' n u)
    then show ?thesis using settled_dr_unstake [OF s _ ok] by simp
  next
    case (step_dr_claim E a j p)
    then show ?thesis using settled_dr_claim [OF s _ ok] by simp
  qed
qed

section \<open>Later runs\<close>

lemma fair_path_settled:
  assumes "path (fair_step parse K) w fs t" and "contract_ok w" and "settled i d s w"
  shows "contract_ok t \<and> settled i d s t"
  using assms(1)
proof (rule path_keeps [where P = "\<lambda>v. contract_ok v \<and> settled i d s v"])
  show "contract_ok w \<and> settled i d s w" using assms(2,3) by simp
  show "contract_ok u \<and> settled i d s u" if "fair_step parse K v f u" "contract_ok v \<and> settled i d s v" for v f u
    using fair_step_settled [OF that(1)] fair_step_sound [OF that(1)] that(2) by (simp add: sound_def)
qed

text \<open>An account without stake on the final outcome cannot claim: there is nothing to pay.\<close>

lemma dr_claim_nothing:
  assumes s: "settled (unat i) d s w" and none: "s a = 0" and ok: "contract_ok w"
  shows "dr_claim K E a i w \<noteq> Inr (p, t)"
proof
  assume call: "dr_claim K E a i w = Inr (p, t)"
  let ?rs = "rounds_of (store w) (fdr_resolution_windows d)" and ?f = "fdr_finalized_outcome d"
  from s none have no: "correct_stake ?f ?rs a = 0" by (metis le_zero_eq settled_def)
  from dr_claim_effect [OF call ok] s obtain res where
    r: "unat (stake_token_payout res) = ladder_payout ?f ?rs a"
      "unat (payment_token_payout res) = share (correct_stake ?f ?rs a) (unat (fdr_paid_fee d)) (correct_bonds ?f ?rs)"
    and prom: "claim_promise K (config_list w ! unat (fdr_global_config_id d)) a res = Inr p"
    by (auto simp: Let_def settled_def)
  have "stake_token_payout res = 0" "payment_token_payout res = 0"
    using r by (simp_all add: no ladder_payout_def share_def unat_eq_0 split: if_splits)
  with prom show False by (auto simp: claim_promise_def Let_def)
qed

lemma dr_claim_settles:
  assumes call: "dr_claim K E a i w = Inr (p, t)" and ok: "contract_ok w"
  shows "contract_ok t \<and> (\<exists>d s. s a = 0 \<and> settled (unat i) d s t)"
proof -
  from dr_claim_effect [OF call ok] obtain d where
    d: "unat i < length (request_list w)" "request_list w ! unat i = Finalized d" and t: "contract_ok t" by blast
  let ?s = "correct_stake (fdr_finalized_outcome d) (rounds_of (store w) (fdr_resolution_windows d))"
  have "settled (unat i) d ?s w" using d by (simp add: settled_def)
  from settled_dr_claim [OF this call ok] have "settled (unat i) d (?s(a := 0)) t" by simp
  then show ?thesis using t by (intro conjI exI [of _ d] exI [of _ "?s(a := 0)"]) simp_all
qed

end
