(* ===== verification/Request_Properties.thy ===== *)
theory Request_Properties
  imports Scenario Liveness Finality
begin

text \<open>
  What each handler of \<open>data_request.rs\<close> does to the contract, over the invariant
  \<open>contract_ok\<close>: staking, unstaking, claiming and the three finalizations act on the rounds of
  one request as the operations of the abstract game do, leave every other request alone, and
  schedule exactly the promises listed.
\<close>

section \<open>Filing a request\<close>

text \<open>C16: a filed request is appended to the list with the number of requests as its id, the
  newest configuration, the paid amount less the validity bond as its fee and no window; the
  filer is admitted by the whitelist, the caller is the payment token, and the arguments are
  within the limits as the code reads them: every list length is cast to 8 bits, so it is the
  length modulo 256 that is within them.\<close>

theorem dr_new_files:
  assumes "dr_new K E sender amount p w = Inr (r, t)" and "contract_ok w"
  defines "c \<equiv> last (config_list w)"
  shows "r = 0 \<and> \<not> paused (self w) \<and> predecessor E = cfg_payment_token c \<and>
    args_within K c (\<lambda>n. n mod 256) p \<and>
    (\<exists>q d. admitted w sender = Some q \<and> request_list t = request_list w @ [Active d] \<and>
      unat (adr_id d) = length (request_list w) \<and> adr_requester d = q \<and>
      unat (rc_paid_fee (adr_request_config d)) + unat (rc_validity_bond (adr_request_config d)) = unat amount \<and>
      rc_validity_bond (adr_request_config d) = cfg_validity_bond c \<and>
      Suc (unat (adr_global_config_id d)) = length (config_list w) \<and>
      rounds (store t) d = [] \<and> outbox t = outbox w \<and>
      (positive_bond (Active d) \<longrightarrow> contract_ok t))"
proof -
  from dr_new_effect [OF assms(1,2)] obtain q d where
    e: "r = 0" "admitted w sender = Some q"
    and new: "adr_new q (vec_len (data_requests (self w))) (vec_len (configs (self w)) - 1) c
      (amount - cfg_validity_bond c) p = Inr d"
    and more: "request_list t = request_list w @ [Active d]" "predecessor E = cfg_payment_token c"
      "cfg_validity_bond c \<le> amount" "args_within K c (\<lambda>n. n mod 256) p" "\<not> paused (self w)"
      "outbox t = outbox w" "positive_bond (Active d) \<longrightarrow> contract_ok t"
    unfolding c_def by auto
  note f = adr_new_fields [OF new]
  have "vec_len (configs (self w)) \<noteq> 0"
    using assms(2) by (auto simp: contract_ok_def configs_ok_def config_list_def vec_elems_def)
  then have "Suc (unat (vec_len (configs (self w)) - 1)) = length (config_list w)"
    by (simp add: config_list_def unat_minus_one unat_gt_0)
  moreover have "unat (amount - cfg_validity_bond c) + unat (cfg_validity_bond c) = unat amount"
    using more(3) by (simp add: exact unats)
  moreover have "rounds (store t) d = []" by (simp add: rounds_def f rounds_of_def windows_of_def)
  moreover have "unat (vec_len (data_requests (self w))) = length (request_list w)" by (simp add: request_list_def)
  ultimately show ?thesis using e more by (auto simp: f)
qed

lemma dr_new_files_witness: "\<exists>r t. dr_new sample_sdk (sample_env ''pay'' 0) ''bob'' 150 sample_args (at_start 1000 []) = Inr (r, t)
  \<and> length (request_list t) = Suc (length (request_list (at_start 1000 [])))"
proof -
  from step_filed [of 1000 "[]"] obtain ls where
    call: "dr_new sample_sdk (sample_env ''pay'' 0) ''bob'' 150 sample_args (at_start 1000 []) = Inr (0, at_filed 1000 ls)"
    by blast
  from dr_new_files [OF call start_ok] call show ?thesis by auto
qed

section \<open>Staking\<close>

text \<open>C4: a stake on an active request is the abstract stake on its rounds. It takes what still
  fits into the bond of the current round and returns the rest; a full bond calls the final
  arbitrator or opens a round with twice the bond. The staker's outcome is not the one the
  previous round is bonded on, and no other request changes.\<close>

theorem dr_stake_refines:
  assumes "dr_stake E sender n p w = Inr (r, t)" and "contract_ok w"
  defines "i \<equiv> unat (stake_id p)"
  shows "\<exists>d d' base unspent. request_list w ! i = Active d \<and> request_list t = (request_list w)[i := Active d'] \<and>
    i < length (request_list w) \<and> same_terms d d' \<and>
    calc_resolution_bond d = Inr (of_nat base) \<and> \<not> adr_final_arbitrator_triggered d \<and>
    ladder base False (rounds (store w) d) \<and>
    ladder_stake base (unat (rc_final_arbitrator_invoke_amount (adr_request_config d)))
        (rounds (store w) d) sender (stake_outcome p) (unat n) =
      (rounds (store t) d', adr_final_arbitrator_triggered d') \<and>
    ladder base (adr_final_arbitrator_triggered d') (rounds (store t) d') \<and>
    r = ValueOf unspent \<and>
    unat n = unat unspent + round_taken (current_round base (rounds (store w) d)) (stake_outcome p) (unat n) \<and>
    predecessor E = cfg_stake_token (config_list w ! unat (adr_global_config_id d)) \<and>
    \<not> paused (self w) \<and> contract_ok t \<and> self t = self w \<and> outbox t = outbox w \<and> others_kept w t i"
proof -
  from dr_stake_effect [OF assms(1,2)] obtain d d' base unspent where
    e: "i < length (request_list w)" "request_list w ! i = Active d" "request_list t = (request_list w)[i := Active d']"
      "same_terms d d'" "stake_spec d base (rounds (store w) d) sender (stake_outcome p) (unat n) =
        (rounds (store t) d', adr_final_arbitrator_triggered d')"
      "r = ValueOf unspent"
      "unat unspent = unat n - round_taken (current_round base (rounds (store w) d)) (stake_outcome p) (unat n)"
      "predecessor E = cfg_stake_token (config_list w ! unat (adr_global_config_id d))"
      "\<not> paused (self w)" "contract_ok t" "self t = self w" "outbox t = outbox w" "others_kept w t i"
    and g: "game (store w) d base" "game (store t) d' base"
    unfolding i_def by auto
  have opn: "\<not> adr_final_arbitrator_triggered d" using dr_stake_active_open [OF assms(1,2)] e(2) by (simp add: i_def)
  from g opn have l: "ladder base False (rounds (store w) d)"
      "ladder base (adr_final_arbitrator_triggered d') (rounds (store t) d')" "calc_resolution_bond d = Inr (of_nat base)"
    by (auto simp: game_def rounds_def)
  show ?thesis
    using e opn l round_taken_le [of "current_round base (rounds (store w) d)" "stake_outcome p" "unat n"]
    by (intro exI [of _ d] exI [of _ d'] exI [of _ base] exI [of _ unspent]) (simp add: stake_spec_def)
qed

lemma dr_stake_refines_witness: "\<exists>t. dr_stake (sample_env ''flx'' 0) ''alice'' 250 (stake_on out_a) (at_filed 1000 []) =
    Inr (ValueOf 50, t) \<and> contract_ok t"
proof -
  from step_bonded [of "[]"] obtain ls where
    call: "dr_stake (sample_env ''flx'' 0) ''alice'' 250 (stake_on out_a) (at_filed 1000 []) =
      Inr (ValueOf 50, at_bonded ls)" by blast
  from dr_stake_refines [OF call filed_ok] call show ?thesis by blast
qed

text \<open>C8: on an active request that has not called the final arbitrator, a stake by the stake
  token on a valid outcome that does not repeat the last bonded one always returns, provided
  the doubled bonds and the ends of the windows fit their words.\<close>

theorem dr_stake_total:
  assumes "contract_ok w" and "\<not> paused (self w)"
    and "unat (stake_id p) < length (request_list w)" and "request_list w ! unat (stake_id p) = Active d"
    and "\<not> adr_final_arbitrator_triggered d"
    and "predecessor E = cfg_stake_token (config_list w ! unat (adr_global_config_id d))"
    and "assert_valid_outcome d (stake_outcome p) w = Inr ((), w)"
    and "assert_valid_outcome_type d (stake_outcome p) w = Inr ((), w)"
    and "challenged (rounds (store w) d) \<noteq> Some (stake_outcome p)"
    and "calc_resolution_bond d = Inr b" and "stake_fits E d (unat b) (rounds (store w) d)"
  shows "\<exists>unspent t. dr_stake E sender n p w = Inr (ValueOf unspent, t)"
proof -
  from dr_stake_returns [OF assms] obtain r t where call: "dr_stake E sender n p w = Inr (r, t)" by blast
  with dr_stake_effect [OF call assms(1)] show ?thesis by blast
qed

lemma filed_configs: "config_list (at_filed c ls) = [sample_config c]"
  by (simp add: config_list_def at_filed_def at_self_def at_store_def vec_elems_def)

lemma filed_rounds: "rounds (store (at_filed c ls)) (the_request c 0 False) = []"
  by (simp add: rounds_def rounds_of_def windows_of_def vec_elems_def the_request_def)

lemma dr_stake_total_witness:
  "\<exists>unspent t. dr_stake (sample_env ''flx'' 0) ''carol'' 70 (stake_on out_b) (at_filed 1000 []) = Inr (ValueOf unspent, t)"
proof -
  have bond: "calc_resolution_bond (the_request 1000 0 False) = Inr 100"
    by (simp add: calc_resolution_bond_def the_request_def multiply_stake_def)
  have fits: "stake_fits (sample_env ''flx'' 0) (the_request 1000 0 False) 100 []"
    by (simp add: stake_fits_def current_round_def fresh_round_def sample_env_def the_request_def)
  show ?thesis
    by (rule dr_stake_total [OF filed_ok, where d = "the_request 1000 0 False" and b = 100])
      (simp_all add: filed_list filed_configs filed_rounds bond fits stake_on_def challenged_def,
       simp_all add: the_request_def sample_env_def sample_config_def at_filed_def at_self_def
         assert_valid_outcome_def assert_valid_outcome_type_def actions)
qed

section \<open>Unstaking\<close>

text \<open>C9: \<open>dr_unstake\<close> returns exactly when the contract is not paused, the request and its round
  exist, the round's bonded outcome is not the one named, the caller's stake covers the amount,
  and the attached deposit pays for the bytes that the new stakes take in storage (or the bytes
  released can be added to it).\<close>

theorem dr_unstake_returns_iff:
  fixes rnd :: u16 and i :: u64 and E :: oenv
  assumes "contract_ok w"
  defines "h \<equiv> request_windows (request_list w ! unat i)" and "a \<equiv> predecessor E"
  shows "(\<exists>t. dr_unstake K E i rnd outc n w = Inr ((), t)) \<longleftrightarrow>
    \<not> paused (self w) \<and> unat i < length (request_list w) \<and>
    (let rs = rounds_of (store w) h; win = windows_of (store w) h ! unat rnd in
      unat rnd < length rs \<and> sr_bonded (rs ! unat rnd) \<noteq> Some outc \<and>
      unat n \<le> sr_stakes (rs ! unat rnd) outc a \<and>
      refundable K E (storage_usage E (store w))
        (storage_usage E (unstaked_store (store w) win a outc (unat n))))"
    (is "?l \<longleftrightarrow> ?r")
proof
  assume ?l
  then obtain t where call: "dr_unstake K E i rnd outc n w = Inr ((), t)" ..
  from dr_unstake_effect [OF call assms(1)] have pre: "\<not> paused (self w)" "unat i < length (request_list w)"
      "unat rnd < length (rounds_of (store w) h)" "sr_bonded (rounds_of (store w) h ! unat rnd) \<noteq> Some outc"
      "unat n \<le> sr_stakes (rounds_of (store w) h ! unat rnd) outc a"
    by (auto simp: Let_def h_def a_def)
  with dr_unstake_outcome [OF assms(1) pre [unfolded h_def a_def], of K] \<open>?l\<close> show ?r
    by (simp add: Let_def h_def a_def)
next
  assume ?r
  with dr_unstake_outcome [OF assms(1), of i rnd outc n E K] show ?l by (simp add: Let_def h_def a_def)
qed

lemma open_list: "request_list (at_open n ls ps) = [Active (the_request 1000 1 False)]"
  by (simp add: request_list_def at_open_def at_self_def at_store_def vec_elems_def)

lemma dr_unstake_returns_iff_witness:
  "let rs = rounds_of (store (at_open 100 [] [])) (request_windows (request_list (at_open 100 [] []) ! 0)) in
     rs \<noteq> [] \<and> sr_bonded (rs ! 0) \<noteq> Some out_a \<and> 40 \<le> sr_stakes (rs ! 0) out_a ''alice''"
proof -
  from step_unstaked [of "[]"] have
    "\<exists>t. dr_unstake sample_sdk (sample_env ''alice'' 0) 0 0 out_a 40 (at_open 100 [] []) = Inr ((), t)" by blast
  from iffD1 [OF dr_unstake_returns_iff [OF open_ok] this] show ?thesis
    by (simp add: Let_def) (simp add: sample_env_def)
qed

text \<open>C10: unstaking moves the amount out of the caller's stake on that outcome in that round and
  nothing else, and promises the caller that amount of stake tokens, after an optional refund
  of storage.\<close>

theorem dr_unstake_refines:
  assumes "dr_unstake K E i rnd outc n w = Inr (u, t)" and "contract_ok w"
  defines "dr \<equiv> request_list w ! unat i"
  defines "rs \<equiv> rounds_of (store w) (request_windows dr)" and "a \<equiv> predecessor E"
  shows "rounds_of (store t) (request_windows dr) = ladder_unstake rs (unat rnd) a outc (unat n) \<and>
    request_list t = request_list w \<and> contract_ok t \<and> self t = self w \<and> others_kept w t (unat i) \<and>
    (\<exists>note. outbox t = outbox w @ note @
        [fungible_token_transfer K (cfg_stake_token (config_list w ! unat (get_config_id dr))) a n] \<and>
      (\<forall>p \<in> set note. \<exists>x. p = Transfer a x))"
  using dr_unstake_effect [OF assms(1,2)] by (auto simp: Let_def rs_def a_def dr_def)

lemma dr_unstake_refines_witness:
  "\<exists>t. dr_unstake sample_sdk (sample_env ''alice'' 0) 0 0 out_a 40 (at_open 100 [] []) = Inr ((), t) \<and> contract_ok t"
proof -
  from step_unstaked [of "[]"] obtain t where
    call: "dr_unstake sample_sdk (sample_env ''alice'' 0) 0 0 out_a 40 (at_open 100 [] []) = Inr ((), t)" by blast
  from dr_unstake_refines [OF call open_ok] call show ?thesis by blast
qed

section \<open>Claims\<close>

text \<open>C5: a claim pays its account, once and for all, the stake it has on the final outcome in
  the rounds bonded on it plus its share of the bonds of the other outcomes, in stake tokens,
  and its share of the fee, in payment tokens; it panics rather than promise nothing. The
  account's stakes on that outcome are gone afterwards.\<close>

theorem dr_claim_pays:
  assumes "dr_claim K E a i w = Inr (p, t)" and "contract_ok w"
  shows "\<exists>d stake fee. request_list w ! unat i = Finalized d \<and> unat i < length (request_list w) \<and>
    (let rs = rounds_of (store w) (fdr_resolution_windows d); f = fdr_finalized_outcome d in
      unat stake = ladder_payout f rs a \<and>
      unat fee = share (correct_stake f rs a) (unat (fdr_paid_fee d)) (correct_bonds f rs) \<and>
      rounds_of (store t) (fdr_resolution_windows d) = ladder_claim f rs a) \<and>
    (let c = config_list w ! unat (fdr_global_config_id d);
         pay = fungible_token_transfer K (cfg_payment_token c) a fee;
         back = fungible_token_transfer K (cfg_stake_token c) a stake in
      p = (if stake = 0 then pay else if fee = 0 then back else AndThen back pay)) \<and>
    (stake \<noteq> 0 \<or> fee \<noteq> 0) \<and>
    request_list t = request_list w \<and> contract_ok t \<and> self t = self w \<and> others_kept w t (unat i) \<and>
    (\<exists>note. outbox t = outbox w @ note @ [p] \<and> (\<forall>q \<in> set note. \<exists>x. q = Transfer (predecessor E) x))"
proof -
  from dr_claim_effect [OF assms] obtain d res rf where
    e: "unat i < length (request_list w)" "request_list w ! unat i = Finalized d" "request_list t = request_list w"
    and pay: "let rs = rounds_of (store w) (fdr_resolution_windows d); f = fdr_finalized_outcome d in
      unat (stake_token_payout res) = ladder_payout f rs a \<and>
      unat (payment_token_payout res) = share (correct_stake f rs a) (unat (fdr_paid_fee d)) (correct_bonds f rs) \<and>
      rounds_of (store t) (fdr_resolution_windows d) = ladder_claim f rs a"
    and prom: "claim_promise K (config_list w ! unat (fdr_global_config_id d)) a res = Inr p"
    and o: "outbox t = outbox w @ rf @ [p]" "\<forall>q \<in> set rf. \<exists>x. q = Transfer (predecessor E) x"
    and t: "contract_ok t" "self t = self w" "others_kept w t (unat i)"
    by auto
  show ?thesis
    using e pay prom o t
    by (intro exI [of _ d] exI [of _ "stake_token_payout res"] exI [of _ "payment_token_payout res"])
      (auto simp: claim_promise_def Let_def word_gt_0 split: if_splits)
qed

lemma dr_claim_pays_witness:
  "\<exists>p t. dr_claim sample_sdk (sample_env ''eve'' 2000) ''alice'' 0 (at_final [] []) = Inr (p, t) \<and> contract_ok t"
proof -
  from step_claimed [of "[]" "[]"] obtain p t where
    call: "dr_claim sample_sdk (sample_env ''eve'' 2000) ''alice'' 0 (at_final [] []) = Inr (p, t)" by blast
  from dr_claim_pays [OF call final_ok] call show ?thesis by blast
qed

text \<open>C7: once an account has claimed on a request, it never claims on it again: after any later
  calls, in any order and by anyone, that return (those that file requests filing them with a
  positive bond), a claim for that account on that request panics, whoever makes it.\<close>

theorem dr_claim_once:
  assumes "dr_claim K E a i w = Inr (p, t)" and "contract_ok w"
    and "path (oracle_step parse K) t fs t'" and "\<forall>f \<in> set fs. positive_filing f"
  shows "dr_claim K' E' a i t' \<noteq> Inr r"
proof -
  from dr_claim_settles [OF assms(1,2)] obtain d s where
    t: "contract_ok t" and s: "s a = 0" "settled (unat i) d s t" by blast
  from fair_path_settled [OF fair_path [OF assms(3,4)] t s(2)] have
    "contract_ok t'" "settled (unat i) d s t'" by simp_all
  then show ?thesis using dr_claim_nothing [of i d s t' a K' E'] s(1) by (cases r) simp
qed

text \<open>Between the two claims governance pauses the contract and resumes it.\<close>

definition pause_set :: "bool \<Rightarrow> world \<Rightarrow> world" where
  "pause_set b w = w\<lparr>self := (self w)\<lparr>paused := b\<rparr>\<rparr>"

lemma claimed_ok: "contract_ok (at_claimed ls ps)"
proof -
  from step_claimed [of "[]" "[]"] obtain p ls' qs where
    call: "dr_claim sample_sdk (sample_env ''eve'' 2000) ''alice'' 0 (at_final [] []) = Inr (p, at_claimed ls' ([] @ qs))"
    by blast
  from dr_claim_effect [OF call final_ok] have "contract_ok (at_claimed ls' qs)" by auto
  then show ?thesis
    by (subst contract_ok_same [where w = "at_claimed ls' qs"]) (simp_all add: at_claimed_def at_final_def)
qed

lemma claimed_pauses:
  "toggle_pause (sample_env ''gov'' 0) (at_claimed ls ps) = Inr ((), pause_set True (at_claimed ls ps))"
  "toggle_pause (sample_env ''gov'' 0) (pause_set True (at_claimed ls ps)) = Inr ((), at_claimed ls ps)"
  by (simp_all add: toggle_pause_def pause_set_def evaluate check_code scenario sample_inputs)

lemma pause_path: "\<exists>fs. path (oracle_step parse K) (at_claimed ls ps) fs (at_claimed ls ps) \<and> length fs = 2 \<and>
    (\<forall>f \<in> set fs. positive_filing f)"
proof -
  let ?w = "at_claimed ls ps"
  let ?fs = "[flow None [] 0 ?w (pause_set True ?w), flow None [] 0 (pause_set True ?w) ?w]"
  have "path (oracle_step parse K) ?w ?fs ?w"
    using step_other [OF call_pause [OF claimed_pauses(1)]] step_other [OF call_pause [OF claimed_pauses(2)]]
    unfolding path.simps by blast
  moreover have "request_list (pause_set True ?w) = request_list ?w"
    by (rule request_list_cong) (simp_all add: pause_set_def)
  then have "\<forall>f \<in> set ?fs. positive_filing f" by (simp add: positive_filing_def flow_def)
  ultimately show ?thesis by (intro exI [of _ ?fs]) simp
qed

lemma dr_claim_once_witness:
  "\<exists>ls qs r. dr_claim sample_sdk (sample_env ''eve'' 2000) ''alice'' 0 (at_final [] []) = Inr (r, at_claimed ls qs) \<and>
    (\<forall>r'. dr_claim sample_sdk (sample_env ''eve'' 2000) ''alice'' 0 (at_claimed ls qs) \<noteq> Inr r')"
proof -
  from step_claimed [of "[]" "[]"] obtain p ls qs where
    call: "dr_claim sample_sdk (sample_env ''eve'' 2000) ''alice'' 0 (at_final [] []) = Inr (p, at_claimed ls qs)" by auto
  from pause_path [of "\<lambda>_. None" sample_sdk ls qs] obtain fs where
    "path (oracle_step (\<lambda>_. None) sample_sdk) (at_claimed ls qs) fs (at_claimed ls qs)"
    "\<forall>f \<in> set fs. positive_filing f" by blast
  from dr_claim_once [OF call final_ok this] call show ?thesis by blast
qed

text \<open>C6: a claim of an account with stake on the final outcome returns, as long as the contract is
  not paused, the bonds of the request together fit 128 bits, enough gas is left, the host does
  not count more bytes after stakes are removed, and the attached deposit and the price of all
  bytes in use together fit 128 bits.\<close>

theorem dr_claim_total:
  assumes "contract_ok w" and "\<not> paused (self w)"
    and "unat i < length (request_list w)" and "request_list w ! unat i = Finalized d"
    and "removing_frees E"
    and "unat (attached_deposit E) + unat (storage_usage E (store w)) * unat (storage_price_per_byte K) < 2 ^ 128"
    and "used_gas E \<le> prepaid_gas E" and "gas_base_transfer K \<le> prepaid_gas E - used_gas E"
  defines "rs \<equiv> rounds_of (store w) (fdr_resolution_windows d)" and "f \<equiv> fdr_finalized_outcome d"
  assumes "correct_bonds f rs + incorrect_bonds f rs < 2 ^ 128" and "0 < correct_stake f rs a"
  shows "\<exists>p t. dr_claim K E a i w = Inr (p, t)"
  using dr_claim_returns [OF assms(1-8), folded rs_def f_def] assms(11,12)
  by (simp add: ladder_payout_def)

text \<open>The rounds of the finalized request of the scenario.\<close>

lemma final_windows: "windows_of (store (at_final ls ps)) \<lparr>vec_prefix = windows_prefix 0, vec_len = 2\<rparr> =
    [the_window 0 1500 200 (Some out_a), the_window 1 1500 400 None]"
  by (simp add: windows_of_def vec_elems_def at_final_def upt_rec [of 0] upt_rec [of "Suc 0"])

lemma final_rounds: "rounds_of (store (at_final ls ps)) \<lparr>vec_prefix = windows_prefix 0, vec_len = 2\<rparr> =
    [round_of (store (at_final ls ps)) (the_window 0 1500 200 (Some out_a)),
     round_of (store (at_final ls ps)) (the_window 1 1500 400 None)]"
  by (simp add: rounds_of_def final_windows)

lemma alice_stake: "win_user (store (at_final ls ps)) (the_window 0 1500 200 (Some out_a)) out_a ''alice'' = 200"
  by (simp add: win_user_def user_handle_def the_window_def at_final_def at_users_def lm_get_def)

text \<open>A host that counts 60 bytes for the entry of \<open>alice\<close>, which the claim removes, and 500 for the rest.\<close>

definition counting_env :: oenv where
  "counting_env = (sample_env ''eve'' 2000)\<lparr>storage_usage :=
     \<lambda>st. if st_stakes st (user_prefix 0 0 ''alice'', out_a) = None then 500 else 560\<rparr>"

lemma counting_frees: "removing_frees counting_env"
proof -
  have "storage_usage counting_env st' \<le> storage_usage counting_env st" if "shrinks st st'" for st st'
  proof -
    from that obtain s where "s \<subseteq>\<^sub>m st_stakes st" "st_stakes st' = s" by (auto simp: shrinks_def)
    then show ?thesis by (auto simp: counting_env_def map_le_def dom_def split: if_splits)
  qed
  then show ?thesis by (simp add: removing_frees_def)
qed

lemma dr_claim_total_witness:
  "\<exists>p t. dr_claim sample_sdk counting_env ''alice'' 0 (at_final [] []) = Inr (p, t)"
proof -
  let ?rs = "rounds_of (store (at_final [] [])) \<lparr>vec_prefix = windows_prefix 0, vec_len = 2\<rparr>"
  have "correct_bonds out_a ?rs + incorrect_bonds out_a ?rs < 2 ^ 128" and "0 < correct_stake out_a ?rs ''alice''"
    by (simp_all add: final_rounds correct_bonds_def incorrect_bonds_def correct_stake_def round_of_def alice_stake)
      (simp_all add: the_window_def)
  then show ?thesis
    by (intro dr_claim_total [OF final_ok, where d = "trim_dr (the_request 1000 2 False) out_a"])
      (simp_all add: final_list counting_frees trim_dr_def the_request_def,
       simp_all add: at_final_def at_self_def sample_sdk_def counting_env_def sample_env_def)
qed

section \<open>Finalization\<close>

text \<open>C11: anyone can finalize, whatever bytes the host counts, exactly when the contract is not
  paused, the request exists, is active and has not called the final arbitrator, a bonded window
  precedes the last one, and the last one has ended.\<close>

theorem dr_finalize_iff:
  assumes "contract_ok w"
  shows "(\<exists>t. dr_finalize K E i w = Inr ((), t)) \<longleftrightarrow>
    \<not> paused (self w) \<and> unat i < length (request_list w) \<and>
    (\<exists>d. request_list w ! unat i = Active d \<and> \<not> adr_final_arbitrator_triggered d \<and>
      2 \<le> length (rounds (store w) d) \<and>
      rw_end_time (last (windows_of (store w) (adr_resolution_windows d))) \<le> block_timestamp E)"
    (is "?l \<longleftrightarrow> ?r")
proof
  assume ?l
  then obtain t where call: "dr_finalize K E i w = Inr ((), t)" ..
  from dr_finalize_effect [OF call assms] show ?r by (auto simp: finalized_as_def)
next
  assume ?r
  then show ?l using dr_finalize_returns [OF assms] by blast
qed

lemma dr_finalize_iff_witness: "\<exists>d. request_list (at_bonded []) ! unat (0::u64) = Active d \<and>
    2 \<le> length (rounds (store (at_bonded [])) d)"
proof -
  from step_final [of "[]"] have "\<exists>t. dr_finalize sample_sdk (sample_env ''eve'' 1500) 0 (at_bonded []) = Inr ((), t)" by blast
  then show ?thesis using dr_finalize_iff [OF bonded_ok, of sample_sdk "sample_env ''eve'' 1500" 0] by blast
qed

text \<open>C12: finalization stores the request with the outcome that the last but one window is bonded
  on, keeps the stakes, tells the requester the outcome, and returns the validity bond to the
  requester if the outcome is not \<open>Invalid\<close>.\<close>

theorem dr_finalize_decides:
  assumes "dr_finalize K E i w = Inr (u, t)" and "contract_ok w"
  shows "\<exists>d f note. finalized_as w t i d f \<and>
    sr_bonded (rounds (store w) d ! (length (rounds (store w) d) - 2)) = Some f \<and>
    outbox t = outbox w @ set_outcome K (adr_requester d) f (adr_tags d) #
      (if f = Invalid then []
       else [fungible_token_transfer K (cfg_payment_token (config_list w ! unat (adr_global_config_id d)))
          (account_id (adr_requester d)) (rc_validity_bond (adr_request_config d))]) @ note \<and>
    (\<forall>q \<in> set note. \<exists>x. q = Transfer (predecessor E) x)"
proof -
  from dr_finalize_effect [OF assms] obtain d f n where
    e: "finalized_as w t i d f" "2 \<le> length (rounds (store w) d)" "challenged (rounds (store w) d) = Some f"
      "outbox t = outbox w @ set_outcome K (adr_requester d) f (adr_tags d) # bond_promises K w d f @ n"
      "\<forall>q \<in> set n. \<exists>x. q = Transfer (predecessor E) x"
    by auto
  then show ?thesis
    by (intro exI [of _ d] exI [of _ f] exI [of _ n])
      (auto simp: challenged_def bond_promises_def split: outcome.splits)
qed

lemma dr_finalize_decides_witness:
  "\<exists>t d f. dr_finalize sample_sdk (sample_env ''eve'' 1500) 0 (at_bonded []) = Inr ((), t) \<and> finalized_as (at_bonded []) t 0 d f"
proof -
  from step_final [of "[]"] obtain t where
    call: "dr_finalize sample_sdk (sample_env ''eve'' 1500) 0 (at_bonded []) = Inr ((), t)" by blast
  from dr_finalize_decides [OF call bonded_ok] call show ?thesis by blast
qed

text \<open>C13: only the final arbitrator named in the request, and only once it has been called, can
  finalize out of turn; it may choose any outcome, and the requester gets the outcome and, for
  a valid one, the validity bond.\<close>

theorem dr_final_arbitrator_decides:
  assumes "dr_final_arbitrator_finalize K E i f w = Inr (p, t)" and "contract_ok w"
  shows "\<exists>d note. finalized_as w t i d f \<and> adr_final_arbitrator_triggered d \<and>
    predecessor E = rc_final_arbitrator (adr_request_config d) \<and> \<not> paused (self w) \<and>
    outbox t = outbox w @ set_outcome K (adr_requester d) f (adr_tags d) # note @
      (if f = Invalid then []
       else [fungible_token_transfer K (cfg_payment_token (config_list w ! unat (adr_global_config_id d)))
          (account_id (adr_requester d)) (rc_validity_bond (adr_request_config d))]) \<and>
    (\<forall>q \<in> set note. \<exists>x. q = Transfer (predecessor E) x)"
proof -
  from dr_final_arbitrator_finalize_effect [OF assms] obtain d n where
    e: "finalized_as w t i d f" "adr_final_arbitrator_triggered d" "\<not> paused (self w)"
      "predecessor E = rc_final_arbitrator (adr_request_config d)"
      "outbox t = outbox w @ set_outcome K (adr_requester d) f (adr_tags d) # n @ bond_promises K w d f"
      "\<forall>q \<in> set n. \<exists>x. q = Transfer (predecessor E) x"
    by auto
  then show ?thesis
    by (intro exI [of _ d] exI [of _ n]) (auto simp: bond_promises_def split: outcome.splits)
qed

lemma dr_final_arbitrator_decides_witness:
  "\<exists>r t d. dr_final_arbitrator_finalize sample_sdk (sample_env ''arb'' 0) 0 out_b (at_triggered []) = Inr (r, t) \<and>
    finalized_as (at_triggered []) t 0 d out_b"
proof -
  from step_arbitrated [of "[]"] obtain r t where
    call: "dr_final_arbitrator_finalize sample_sdk (sample_env ''arb'' 0) 0 out_b (at_triggered []) = Inr (r, t)" by blast
  from dr_final_arbitrator_decides [OF call triggered_ok] call show ?thesis by blast
qed

text \<open>C14: the provider named in a request can finalize it at any time; the requester gets the
  outcome, but no promise returns the validity bond, whatever the outcome.\<close>

theorem dr_provider_decides:
  assumes "dr_finalize_by_provider K E i f w = Inr (u, t)" and "contract_ok w"
  shows "\<exists>d note. finalized_as w t i d f \<and> adr_provider d = Some (predecessor E) \<and> \<not> paused (self w) \<and>
    outbox t = outbox w @ set_outcome K (adr_requester d) f (adr_tags d) # note \<and>
    (\<forall>q \<in> set note. \<exists>x. q = Transfer (predecessor E) x)"
  using dr_finalize_by_provider_effect [OF assms] by blast

lemma dr_provider_decides_witness:
  "\<exists>t d. dr_finalize_by_provider sample_sdk (sample_env ''pro'' 0) 0 out_b (at_filed 1000 []) = Inr ((), t) \<and>
    finalized_as (at_filed 1000 []) t 0 d out_b"
proof -
  from step_provided [of "[]"] obtain t where
    call: "dr_finalize_by_provider sample_sdk (sample_env ''pro'' 0) 0 out_b (at_filed 1000 []) = Inr ((), t)" by blast
  from dr_provider_decides [OF call filed_ok] call show ?thesis by blast
qed

text \<open>C15: a finalized request is final: after any later calls that return (those that file requests
  filing them with a positive bond) it is stored unchanged, \<open>get_outcome\<close> answers the same
  outcome, no account can claim more than before, and no call stakes on it or finalizes it again.\<close>

theorem outcome_is_final:
  assumes "contract_ok w" and "unat i < length (request_list w)" and "request_list w ! unat i = Finalized d"
    and "path (oracle_step parse K) w fs t" and "\<forall>f \<in> set fs. positive_filing f"
  defines "f \<equiv> fdr_finalized_outcome d" and "h \<equiv> fdr_resolution_windows d"
  shows "unat i < length (request_list t) \<and> request_list t ! unat i = Finalized d \<and>
    get_outcome i t = Inr (f, t) \<and>
    (\<forall>a. correct_stake f (rounds_of (store t) h) a \<le> correct_stake f (rounds_of (store w) h) a) \<and>
    dr_stake E a n \<lparr>stake_id = i, stake_outcome = f'\<rparr> t \<noteq> Inr r1 \<and> dr_finalize K E i t \<noteq> Inr r2 \<and>
    dr_finalize_by_provider K E i f' t \<noteq> Inr r3 \<and> dr_final_arbitrator_finalize K E i f' t \<noteq> Inr r4"
proof -
  have "settled (unat i) d (correct_stake f (rounds_of (store w) h)) w"
    using assms(2,3) by (simp add: settled_def f_def h_def)
  from fair_path_settled [OF fair_path [OF assms(4,5)] assms(1) this]
  have t: "contract_ok t" and st: "unat i < length (request_list t)" "request_list t ! unat i = Finalized d"
      "\<forall>a. correct_stake f (rounds_of (store t) h) a \<le> correct_stake f (rounds_of (store w) h) a"
    by (simp_all add: settled_def f_def h_def)
  from request_stored(1) [OF t st(1)] st(2) have "get_outcome i t = Inr (f, t)"
    by (simp add: get_outcome_def dr_get_expect_finalized_def actions primitives f_def)
  moreover have "dr_stake E a n \<lparr>stake_id = i, stake_outcome = f'\<rparr> t \<noteq> Inr r1"
    using dr_stake_effect [OF _ t, of E a n "\<lparr>stake_id = i, stake_outcome = f'\<rparr>"] st(2) by (cases r1) fastforce
  moreover have "dr_finalize K E i t \<noteq> Inr r2"
    using dr_finalize_effect [OF _ t, of K E i] st(2) by (cases r2) (fastforce simp: finalized_as_def)
  moreover have "dr_finalize_by_provider K E i f' t \<noteq> Inr r3"
    using dr_finalize_by_provider_effect [OF _ t, of K E i f'] st(2) by (cases r3) (fastforce simp: finalized_as_def)
  moreover have "dr_final_arbitrator_finalize K E i f' t \<noteq> Inr r4"
    using dr_final_arbitrator_finalize_effect [OF _ t, of K E i f'] st(2) by (cases r4) (fastforce simp: finalized_as_def)
  ultimately show ?thesis using st by blast
qed

lemma outcome_is_final_witness:
  "get_outcome 0 (at_claimed [] []) = Inr (out_a, at_claimed [] [])"
proof -
  have d: "unat (0::u64) < length (request_list (at_claimed [] []))"
    "request_list (at_claimed [] []) ! unat (0::u64) = Finalized (trim_dr (the_request 1000 2 False) out_a)"
    by (simp_all add: scenario_lists)
  from pause_path [of "\<lambda>_. None" sample_sdk "[]" "[]"] obtain fs where
    "path (oracle_step (\<lambda>_. None) sample_sdk) (at_claimed [] []) fs (at_claimed [] [])"
    "\<forall>f \<in> set fs. positive_filing f" by blast
  from outcome_is_final [OF claimed_ok d this] show ?thesis by (simp add: trim_dr_def)
qed

section \<open>Calls that are refused\<close>

text \<open>C18: while the contract is paused, every call that files, stakes, unstakes, claims or
  finalizes panics with the pause error, before it looks at anything else.\<close>

theorem paused_refuses:
  assumes "paused (self w)"
  shows "dr_new K E a n nargs w = Inl (Access ErrPaused) \<and> dr_stake E a n sargs w = Inl (Access ErrPaused) \<and>
    dr_unstake K E i rnd f n w = Inl (Access ErrPaused) \<and> dr_claim K E a i w = Inl (Access ErrPaused) \<and>
    dr_finalize K E i w = Inl (Access ErrPaused) \<and>
    dr_finalize_by_provider K E i f w = Inl (Access ErrPaused) \<and>
    dr_final_arbitrator_finalize K E i f w = Inl (Access ErrPaused)"
proof -
  have p: "assert_unpaused w = Inl (Access ErrPaused)"
    using assms by (simp add: assert_unpaused_def actions)
  show ?thesis
    by (simp add: dr_new_def dr_stake_def dr_unstake_def dr_claim_def dr_finalize_def
        dr_finalize_by_provider_def dr_final_arbitrator_finalize_def bindM_def p)
qed

lemma paused_refuses_witness:
  "dr_finalize sample_sdk (sample_env ''eve'' 0) 0
     ((sample_world (sample_config 1000))\<lparr>self := (self (sample_world (sample_config 1000)))\<lparr>paused := True\<rparr>\<rparr>) =
   Inl (Access ErrPaused)"
  by (rule paused_refuses [THEN conjunct2, THEN conjunct2, THEN conjunct2, THEN conjunct2, THEN conjunct1]) simp

text \<open>The checks of \<open>dr_stake\<close> before the staking itself, on an existing request.\<close>

lemma dr_stake_checks:
  assumes "contract_ok w" and "\<not> paused (self w)"
    and "unat (stake_id p) < length (request_list w)" and "request_list w ! unat (stake_id p) = Active d"
    and "predecessor E = cfg_stake_token (config_list w ! unat (adr_global_config_id d))"
  shows "dr_stake E sender n p w =
    bindM (assert_final_arbitrator_not_invoked d) (\<lambda>_.
    bindM (assert_can_stake_on_outcome d (stake_outcome p)) (\<lambda>_.
    bindM (assert_valid_outcome d (stake_outcome p)) (\<lambda>_.
    bindM (assert_valid_outcome_type d (stake_outcome p)) (\<lambda>_.
    bindM (adr_stake E d sender (stake_outcome p) n) (\<lambda>r.
    bindM (emit (log_update_active_data_request (snd r))) (\<lambda>_.
    bindM (requests_replace (stake_id p) (Active (snd r))) (\<lambda>_.
    ret (ValueOf (fst r)))))))))  w"
proof -
  from request_stored [OF assms(1,3)] assms(4) obtain c where
    get: "vec_get (st_requests (store w)) (data_requests (self w)) (stake_id p) = Inr (Some (Active d))"
    and cfg: "vec_get (st_configs (store w)) (configs (self w)) (adr_global_config_id d) = Inr (Some c)"
    by auto
  from config_at_list [OF cfg] assms(1) have c: "c = config_list w ! unat (adr_global_config_id d)"
    by (simp add: contract_ok_def)
  have "assert_unpaused w = Inr ((), w)" "dr_get_expect_active (stake_id p) w = Inr (d, w)"
    "config_at (adr_global_config_id d) w = Inr (c, w)" "assert_sender E (cfg_stake_token c) w = Inr ((), w)"
    using assms(2,5) get cfg c
    by (simp_all add: assert_unpaused_def dr_get_expect_active_def config_at_def assert_sender_def
        actions primitives)
  then show ?thesis by (simp add: dr_stake_def bindM_def Let_def)
qed

text \<open>C17: a stake is refused, with the error of its check, once the final arbitrator is called,
  and on the outcome the previous round is bonded on.\<close>

theorem dr_stake_refuses:
  assumes "contract_ok w" and "\<not> paused (self w)"
    and "unat (stake_id p) < length (request_list w)" and "request_list w ! unat (stake_id p) = Active d"
    and "predecessor E = cfg_stake_token (config_list w ! unat (adr_global_config_id d))"
  shows "(adr_final_arbitrator_triggered d \<longrightarrow>
      dr_stake E sender n p w = Inl (Request (ErrArbitratorInvoked (stake_id p)))) \<and>
    (\<not> adr_final_arbitrator_triggered d \<and> challenged (rounds (store w) d) = Some (stake_outcome p) \<longrightarrow>
      dr_stake E sender n p w = Inl (Request ErrIncompatibleRound))"
proof -
  from assms(1,3,4) have rok: "request_ok (store w) (stake_id p) (Active d)" by (auto simp: contract_ok_def)
  then obtain base where g: "game (store w) d base" and id': "adr_id d = stake_id p" by (auto simp: request_ok_def)
  have "adr_final_arbitrator_triggered d \<longrightarrow>
      dr_stake E sender n p w = Inl (Request (ErrArbitratorInvoked (stake_id p)))"
    by (simp add: dr_stake_checks [OF assms] assert_final_arbitrator_not_invoked_def actions id')
  moreover have "\<not> adr_final_arbitrator_triggered d \<and> challenged (rounds (store w) d) = Some (stake_outcome p) \<longrightarrow>
      dr_stake E sender n p w = Inl (Request ErrIncompatibleRound)"
    using assert_can_stake_refuses [OF g]
    by (auto simp: dr_stake_checks [OF assms] assert_final_arbitrator_not_invoked_def actions)
  ultimately show ?thesis by (rule conjI)
qed

lemma triggered_list: "request_list (at_triggered ls) = [Active (the_request 200 1 True)]"
  by (simp add: request_list_def at_triggered_def at_self_def at_store_def vec_elems_def)

lemma triggered_configs: "config_list (at_triggered ls) = [sample_config 200]"
  by (simp add: config_list_def at_triggered_def at_self_def at_store_def vec_elems_def)

lemma dr_stake_refuses_witness:
  "dr_stake (sample_env ''flx'' 0) ''bob'' 5 (stake_on out_b) (at_triggered []) = Inl (Request (ErrArbitratorInvoked 0))"
proof -
  have "adr_final_arbitrator_triggered (the_request 200 1 True)" by (simp add: the_request_def)
  moreover have "(adr_final_arbitrator_triggered (the_request 200 1 True) \<longrightarrow>
      dr_stake (sample_env ''flx'' 0) ''bob'' 5 (stake_on out_b) (at_triggered []) =
      Inl (Request (ErrArbitratorInvoked (stake_id (stake_on out_b))))) \<and>
    (\<not> adr_final_arbitrator_triggered (the_request 200 1 True) \<and>
      challenged (rounds (store (at_triggered [])) (the_request 200 1 True)) = Some (stake_outcome (stake_on out_b)) \<longrightarrow>
      dr_stake (sample_env ''flx'' 0) ''bob'' 5 (stake_on out_b) (at_triggered []) = Inl (Request ErrIncompatibleRound))"
    by (rule dr_stake_refuses [OF triggered_ok])
      (simp_all add: triggered_list triggered_configs stake_on_def,
       simp_all add: at_triggered_def at_self_def sample_env_def sample_config_def the_request_def)
  ultimately show ?thesis by (simp add: stake_on_def)
qed

section \<open>Views\<close>

text \<open>C19: \<open>get_outcome\<close> is the stored outcome of a finalized request, and an error for an active
  or a missing one.\<close>

theorem get_outcome_exact:
  assumes "contract_ok w"
  shows "get_outcome i w =
    (if unat i < length (request_list w) then
       (case request_list w ! unat i of
          Active _ \<Rightarrow> Inl (Request ErrNotYetFinalized)
        | Finalized d \<Rightarrow> Inr (fdr_finalized_outcome d, w))
     else Inl (Request ErrNoSuchRequest))"
proof -
  have "vec_ok (st_requests (store w)) (data_requests (self w))" using assms by (simp add: contract_ok_def)
  from vec.get_items [OF this, of i] show ?thesis
    by (auto simp: get_outcome_def dr_get_expect_finalized_def actions primitives request_list_def
        split: data_request.split)
qed

lemma get_outcome_exact_witness: "get_outcome 0 (at_final [] []) = Inr (out_a, at_final [] [])"
  using get_outcome_exact [OF final_ok, of 0 "[]" "[]"] by (simp add: final_list trim_dr_def)

end
