(* ===== verification/Contract_Properties.thy ===== *)
theory Contract_Properties
  imports Scenario Upgrade
begin

text \<open>
  Properties of the contract around its requests: the listing of requests, transfers into the
  contract with the storage they use, construction and upgrade.
\<close>

section \<open>Listing requests\<close>

text \<open>What the views show of a stored request.\<close>

definition active_summary :: "oracle_storage \<Rightarrow> active_data_request \<Rightarrow> active_data_request_summary" where
  "active_summary st d =
     \<lparr>ads_id = adr_id d, ads_description = adr_description d, ads_sources = adr_sources d,
      ads_outcomes = adr_outcomes d, ads_requester = adr_requester d,
      ads_resolution_windows = map window_summary (windows_of st (adr_resolution_windows d)),
      ads_global_config_id = adr_global_config_id d,
      ads_initial_challenge_period = adr_initial_challenge_period d,
      ads_final_arbitrator_triggered = adr_final_arbitrator_triggered d,
      ads_tags = adr_tags d, ads_data_type = adr_data_type d,
      ads_request_config = \<lparr>rcs_validity_bond = rc_validity_bond (adr_request_config d),
        rcs_paid_fee = rc_paid_fee (adr_request_config d),
        rcs_stake_multiplier = rc_stake_multiplier (adr_request_config d),
        rcs_min_resolution_bond = rc_min_resolution_bond (adr_request_config d)\<rparr>\<rparr>"

definition finalized_summary :: "oracle_storage \<Rightarrow> finalized_data_request \<Rightarrow> finalized_data_request_summary" where
  "finalized_summary st d =
     \<lparr>fds_id = fdr_id d, fds_finalized_outcome = fdr_finalized_outcome d,
      fds_resolution_windows = map window_summary (windows_of st (fdr_resolution_windows d)),
      fds_global_config_id = fdr_global_config_id d, fds_paid_fee = fdr_paid_fee d\<rparr>"

definition shown :: "oracle_storage \<Rightarrow> data_request \<Rightarrow> data_request_summary" where
  "shown st dr = (case dr of
     Active d \<Rightarrow> ActiveSummary (active_summary st d)
   | Finalized d \<Rightarrow> FinalizedSummary (finalized_summary st d))"

lemma windows_iter_ok:
  assumes "vec_ok (st_windows (store w)) h"
  shows "windows_iter h w = Inr (windows_of (store w) h, w)"
proof -
  have "window_at h (of_nat i) w = Inr (windows_of (store w) h ! i, w)" if "i \<in> set [0..<unat (vec_len h)]" for i
  proof -
    from that have "i < 2 ^ LENGTH(64)" using unat_bound [of "vec_len h"] by simp
    then have u: "unat (of_nat i :: u64) = i" by (rule unat_of_nat_fits)
    from that vec.get_items [OF assms, of "of_nat i"] show ?thesis
      by (simp add: u window_at_def windows_get_def actions windows_of_def)
  qed
  then have "windows_iter h w = Inr (map (\<lambda>i. windows_of (store w) h ! i) [0..<unat (vec_len h)], w)"
    unfolding windows_iter_def by (intro collect_reads)
  moreover have "map (\<lambda>i. windows_of (store w) h ! i) [0..<unat (vec_len h)] = windows_of (store w) h"
    by (rule nth_equalityI) (simp_all add: windows_of_def)
  ultimately show ?thesis by simp
qed

lemma summarize_ok:
  assumes "request_ok (store w) i dr"
  shows "summarize dr w = Inr (shown (store w) dr, w)"
proof (cases dr)
  case (Active d)
  with assms have "vec_ok (st_windows (store w)) (adr_resolution_windows d)"
    by (auto simp: request_ok_def game_def windows_ok_def')
  from windows_iter_ok [OF this] show ?thesis
    by (simp add: Active summarize_def adr_summarize_def shown_def active_summary_def actions)
next
  case (Finalized d)
  with assms have "vec_ok (st_windows (store w)) (fdr_resolution_windows d)"
    by (auto simp: request_ok_def windows_ok_def')
  from windows_iter_ok [OF this] show ?thesis
    by (simp add: Finalized summarize_def fdr_summarize_def shown_def finalized_summary_def actions)
qed

text \<open>C21: \<open>get_requests\<close> returns the summaries of the slice of the stored requests that starts at
  \<open>from_index\<close> and has at most \<open>limit\<close> of them, and changes nothing; a range whose end does not
  fit 64 bits panics, even when the requests in it exist.\<close>

theorem get_requests_slice:
  assumes "contract_ok w"
  shows "get_requests from lim w =
    (if unat from + unat lim < 2 ^ 64
     then Inr (map (shown (store w)) (take (unat lim) (drop (unat from) (request_list w))), w)
     else Inl (Rust ErrOverflow))"
proof (cases "unat from + unat lim < 2 ^ 64")
  case False
  then show ?thesis by (simp add: get_requests_def checked_add_def lift_def bindM_def)
next
  case True
  let ?n = "vec_len (data_requests (self w))" and ?rs = "request_list w"
  have n: "unat ?n = length ?rs" by (simp add: request_list_def)
  from True have up: "unat (min (from + lim) ?n) = min (unat from + unat lim) (length ?rs)"
    by (simp add: min_def unats exact n)
  let ?read = "\<lambda>i. bindM (requests_get (of_nat i)) (\<lambda>x. bindM (expect x (Rust ErrUnwrapNone)) summarize)"
  have "?read i w = Inr (shown (store w) (?rs ! i), w)"
    if "i \<in> set [unat from..<min (unat from + unat lim) (length ?rs)]" for i
  proof -
    from that have i: "i < length ?rs" by simp
    then have "i < 2 ^ LENGTH(64)" using unat_bound [of ?n] n by simp
    then have u: "unat (of_nat i :: u64) = i" by (rule unat_of_nat_fits)
    from assms i u have "request_ok (store w) (of_nat i) (?rs ! i)" unfolding contract_ok_def by metis
    from summarize_ok [OF this] i vec.get_items [of "st_requests (store w)" "data_requests (self w)" "of_nat i"] assms
    show ?thesis by (simp add: requests_get_def actions u contract_ok_def request_list_def)
  qed
  then have "collect ?read [unat from..<min (unat from + unat lim) (length ?rs)] w =
      Inr (map (\<lambda>i. shown (store w) (?rs ! i)) [unat from..<min (unat from + unat lim) (length ?rs)], w)"
    by (rule collect_reads)
  moreover have "map (\<lambda>i. shown (store w) (?rs ! i)) [unat from..<min (unat from + unat lim) (length ?rs)] =
      map (shown (store w)) (take (unat lim) (drop (unat from) ?rs))"
  proof (rule nth_equalityI)
    fix i
    assume l: "i < length (map (\<lambda>i. shown (store w) (?rs ! i)) [unat from..<min (unat from + unat lim) (length ?rs)])"
    then have "i < unat lim \<and> unat from + i < length ?rs" by (simp only: length_map length_upt min_def split: if_splits) linarith+
    then show "map (\<lambda>i. shown (store w) (?rs ! i)) [unat from..<min (unat from + unat lim) (length ?rs)] ! i =
        map (shown (store w)) (take (unat lim) (drop (unat from) ?rs)) ! i"
      using l by (simp add: nth_append)
  qed auto
  ultimately show ?thesis
    using True by (simp add: get_requests_def checked_add_def requests_len_def actions up)
qed

lemma get_requests_slice_witness:
  "get_requests 0 10 (at_final [] []) = Inr ([shown (store (at_final [] []))
     (Finalized (trim_dr (the_request 1000 2 False) out_a))], at_final [] []) \<and>
   get_requests 1 18446744073709551615 (at_final [] []) = Inl (Rust ErrOverflow)"
proof -
  have "request_list (at_final [] []) = [Finalized (trim_dr (the_request 1000 2 False) out_a)]"
    by (simp add: request_list_def vec_elems_def at_final_def at_self_def)
  with get_requests_slice [OF final_ok [of "[]" "[]"], of 0 10] get_requests_slice [OF final_ok [of "[]" "[]"], of 1 18446744073709551615]
  show ?thesis by simp
qed

section \<open>Transfers into the contract\<close>

text \<open>C20: a token transfer into the contract is refused unless its message parses; a new request
  must come from the payment token and a stake from the stake token of the current
  configuration. The payload is then handled with the transferred amount, and what the sender
  has left for storage is what it had before less the price of the bytes added.\<close>

theorem ft_on_transfer_dispatches:
  assumes call: "ft_on_transfer parse K E a n msg w = Inr (r, t)" and ok: "configs_ok w"
  defines "c \<equiv> last (config_list w)"
  shows "\<exists>p v. parse msg = Some p \<and>
    (case p of
       NewDataRequest q \<Rightarrow> predecessor E = cfg_payment_token c \<and> (\<exists>z. r = ValueOf z \<and> dr_new K E a n q w = Inr (z, v))
     | StakeDataRequest q \<Rightarrow> predecessor E = cfg_stake_token c \<and> dr_stake E a n q w = Inr (r, v)) \<and>
    self t = self v \<and> outbox t = outbox v \<and> total_deposit t = total_deposit v \<and>
    int (available_deposit t a) = int (available_deposit w a) -
      (int (unat (storage_usage E (store v))) - int (unat (storage_usage E (store w)))) *
        int (unat (storage_price_per_byte K))"
proof -
  from call obtain p v where p: "parse msg = Some p"
    and body: "(case p of
         NewDataRequest q \<Rightarrow>
           bindM (ensure (cfg_payment_token c = predecessor E) (Validation ErrWrongPaymentToken)) (\<lambda>_.
           ft_dr_new_callback K E a n q)
       | StakeDataRequest q \<Rightarrow>
           bindM (ensure (cfg_stake_token c = predecessor E) (Validation ErrWrongStakeToken)) (\<lambda>_.
           dr_stake E a n q)) w = Inr (r, v)"
    and use: "use_storage K E a (storage_usage E (store w)) (asb_available (deposit_of w a)) v = Inr ((), t)"
    unfolding c_def
    by (auto simp: ft_on_transfer_def bindM_Inr usage_Inr get_storage_account_Inr expect_Inr get_config_Inr
        ret_Inr current_config_ok [OF ok])
  from body have "case p of
       NewDataRequest q \<Rightarrow> predecessor E = cfg_payment_token c \<and> (\<exists>z. r = ValueOf z \<and> dr_new K E a n q w = Inr (z, v))
     | StakeDataRequest q \<Rightarrow> predecessor E = cfg_stake_token c \<and> dr_stake E a n q w = Inr (r, v)"
    by (auto simp: ft_dr_new_callback_def run split: payload.splits)
  with p use_storage_Inr [OF use] show ?thesis
    by (intro exI [of _ p] exI [of _ v]) (simp add: available_deposit_def [of w])
qed

lemma ft_on_transfer_dispatches_witness:
  "\<exists>t. ft_on_transfer (\<lambda>_. Some (NewDataRequest sample_args)) sample_sdk (sample_env ''pay'' 0) ''bob'' 150 ''msg''
      (at_start 1000 []) = Inr (ValueOf 0, t) \<and> available_deposit t ''bob'' = 0"
proof -
  obtain ls where new: "dr_new sample_sdk (sample_env ''pay'' 0) ''bob'' 150 sample_args (at_start 1000 []) =
      Inr (0, at_filed 1000 ls)" using step_filed by blast
  have none: "deposit_of (at_start 1000 []) ''bob'' = \<lparr>asb_total = 0, asb_available = 0\<rparr>"
    by (simp add: deposit_of_def scenario lm_get_def)
  have "get_config (at_start 1000 []) = Inr (sample_config 1000, at_start 1000 [])"
    by (simp add: evaluate check_code scenario)
  then have "\<exists>t. ft_on_transfer (\<lambda>_. Some (NewDataRequest sample_args)) sample_sdk (sample_env ''pay'' 0) ''bob''
      150 ''msg'' (at_start 1000 []) = Inr (ValueOf 0, t)"
    using new none
    by (simp add: ft_on_transfer_def ft_dr_new_callback_def bindM_Inr usage_Inr get_storage_account_Inr expect_Inr
        ret_Inr ensure_Inr sample_config_def) (simp add: sample_env_def use_storage_def run Let_def)
  then obtain t where call: "ft_on_transfer (\<lambda>_. Some (NewDataRequest sample_args)) sample_sdk (sample_env ''pay'' 0)
      ''bob'' 150 ''msg'' (at_start 1000 []) = Inr (ValueOf 0, t)" ..
  have "configs_ok (at_start 1000 [])" using start_ok by (simp add: contract_ok_def)
  from ft_on_transfer_dispatches [OF call this] call show ?thesis
    using none by (auto simp: available_deposit_def [of "at_start 1000 []"] sample_env_def)
qed

text \<open>
  The receiver checks the stake token of the current configuration, \<open>dr_stake\<close> that of the
  request's own: a stake arrives only while the two agree.
\<close>

lemma stake_tokens_agree:
  assumes call: "ft_on_transfer parse K E a n msg w = Inr (r, t)" and ok: "contract_ok w"
    and msg: "parse msg = Some (StakeDataRequest p)"
  shows "\<exists>d. request_list w ! unat (stake_id p) = Active d \<and>
    cfg_stake_token (config_list w ! unat (adr_global_config_id d)) = cfg_stake_token (last (config_list w))"
proof -
  from ft_on_transfer_Inr [OF call contract_ok_configs [OF ok]] msg obtain v where
    st: "dr_stake E a n p w = Inr (r, v)" and tok: "predecessor E = cfg_stake_token (last (config_list w))"
    by auto
  from dr_stake_effect [OF st ok] tok show ?thesis by auto
qed

section \<open>Upgrade\<close>

text \<open>C39: the contract is upgraded only by governance, when the gas left covers the migration; the
  call deploys the new code on the contract's own account, calls \<open>migrate\<close> on it with the rest
  of the gas, and touches no state.\<close>

theorem upgrade_governed:
  assumes "configs_ok w"
  shows "upgrade E (Some (self w)) w = Inr ((), t) \<longleftrightarrow>
    predecessor E = cfg_gov (last (config_list w)) \<and>
    unat (used_gas E) + unat GAS_FOR_MIGRATE_CALL \<le> unat (prepaid_gas E) \<and>
    t = w\<lparr>outbox := outbox w @ [DeployAndCall (current_account E) Migrate 0
      (prepaid_gas E - used_gas E - GAS_FOR_MIGRATE_CALL)]\<rparr>"
  using assms by (auto simp: upgrade_def run governed_ok unats exact)

lemma upgrade_governed_witness:
  "\<exists>t. upgrade ((sample_env ''gov'' 0)\<lparr>prepaid_gas := 5000000000600\<rparr>) (Some (self (at_start 1000 []))) (at_start 1000 []) =
      Inr ((), t) \<and> outbox t = [DeployAndCall ''oracle'' Migrate 0 590]"
proof -
  have ok: "configs_ok (at_start 1000 [])" using start_ok by (simp add: contract_ok_def)
  moreover have "config_list (at_start 1000 []) = [sample_config 1000]"
    by (simp add: config_list_def vec_elems_def scenario)
  ultimately show ?thesis
    using upgrade_governed [OF ok, of "(sample_env ''gov'' 0)\<lparr>prepaid_gas := 5000000000600\<rparr>"]
    by (simp add: sample_env_def sample_config_def GAS_FOR_MIGRATE_CALL_def) (simp add: at_start_def)
qed

end
