(* ===== verification/Token.thy ===== *)
theory Token
  imports Host Formatting Finite_Sums
begin

text \<open>
  The wNEAR token contract under \<open>token/src\<close>: its state (\<open>lib.rs\<close>), the checks and balance
  updates of \<open>internal.rs\<close>, the NEP-141 methods of \<open>fungible_token_core.rs\<close> with the callback
  that resolves a transfer, storage registration (\<open>storage_manager.rs\<close>), wrapping and
  unwrapping of NEAR (\<open>w_near.rs\<close>) and the metadata (\<open>fungible_token_metadata.rs\<close>).

  The lemmas show that a contract is a ledger (deposits and withdrawals change one balance),
  and that every method keeps the balances adding up to \<open>total_supply\<close>.
\<close>

section \<open>State\<close>

record token_contract =
  tk_accounts :: lookup_map_handle
  tk_total_supply :: u128
  tk_account_storage_usage :: u64

type_synonym token_storage = "(account, u128) region"

datatype token_call =
    Ft_on_transfer account u128 string
  | Ft_resolve_transfer account account u128

record token_world =
  tw_self :: token_contract
  tw_store :: token_storage
  tw_logs :: "string list"
  tw_outbox :: "token_call promise list"

type_synonym 'a token_method = "(token_world, 'a) action"
type_synonym tenv = "token_storage env"

definition tk_get :: "account \<Rightarrow> u128 option token_method" where
  "tk_get a = reads (\<lambda>w. lm_get (tw_store w) (tk_accounts (tw_self w)) a)"

definition tk_insert :: "account \<Rightarrow> u128 \<Rightarrow> unit token_method" where
  "tk_insert a v = modifies (\<lambda>w. w\<lparr>tw_store := lm_insert (tw_store w) (tk_accounts (tw_self w)) a v\<rparr>)"

text \<open>\<open>LookupMap::remove\<close> returns the value removed.\<close>

definition tk_remove :: "account \<Rightarrow> u128 option token_method" where
  "tk_remove a = bindM (tk_get a) (\<lambda>v.
     bindM (modifies (\<lambda>w. w\<lparr>tw_store := lm_remove (tw_store w) (tk_accounts (tw_self w)) a\<rparr>)) (\<lambda>_. ret v))"

definition tk_log :: "string \<Rightarrow> unit token_method" where
  "tk_log s = modifies (\<lambda>w. w\<lparr>tw_logs := tw_logs w @ [s]\<rparr>)"

definition tk_schedule :: "token_call promise \<Rightarrow> unit token_method" where
  "tk_schedule p = modifies (\<lambda>w. w\<lparr>tw_outbox := tw_outbox w @ [p]\<rparr>)"

definition tk_supply :: "u128 token_method" where
  "tk_supply = reads (\<lambda>w. tk_total_supply (tw_self w))"

definition tk_set_supply :: "u128 \<Rightarrow> unit token_method" where
  "tk_set_supply v = modifies (\<lambda>w. w\<lparr>tw_self := (tw_self w)\<lparr>tk_total_supply := v\<rparr>\<rparr>)"

definition tk_usage :: "tenv \<Rightarrow> u64 token_method" where
  "tk_usage E = reads (\<lambda>w. storage_usage E (tw_store w))"

lemmas token_primitives = tk_get_def tk_insert_def tk_remove_def tk_log_def tk_schedule_def
  tk_supply_def tk_set_supply_def tk_usage_def

section \<open>internal.rs\<close>

definition tk_assert_one_yocto :: "tenv \<Rightarrow> unit token_method" where
  "tk_assert_one_yocto E = ensure (attached_deposit E = 1) (Access ErrOneYocto)"

definition tk_assert_self :: "tenv \<Rightarrow> unit token_method" where
  "tk_assert_self E = ensure (predecessor E = current_account E) (Access ErrPrivate)"

definition internal_deposit :: "account \<Rightarrow> u128 \<Rightarrow> unit token_method" where
  "internal_deposit acc amount =
     bindM (tk_get acc) (\<lambda>b.
     bindM (expect b (Balance (ErrNotRegistered acc))) (\<lambda>bal.
     case checked_add bal amount of
       Inr new_balance \<Rightarrow> tk_insert acc new_balance
     | Inl _ \<Rightarrow> panic (Balance ErrBalanceOverflow)))"

definition internal_withdraw :: "tenv \<Rightarrow> account \<Rightarrow> u128 \<Rightarrow> unit token_method" where
  "internal_withdraw E acc amount =
     bindM (tk_get acc) (\<lambda>b.
     bindM (expect b (Balance ErrAccountNotRegistered)) (\<lambda>bal.
     case checked_sub bal amount of
       Inr new_balance \<Rightarrow> tk_insert acc new_balance
     | Inl _ \<Rightarrow> panic (Balance (ErrNotEnoughBalance (predecessor E)))))"

definition internal_transfer ::
  "tenv \<Rightarrow> account \<Rightarrow> account \<Rightarrow> u128 \<Rightarrow> string option \<Rightarrow> unit token_method" where
  "internal_transfer E sender_id receiver_id amount memo =
     bindM (ensure (sender_id \<noteq> receiver_id) (Balance ErrSameAccount)) (\<lambda>_.
     bindM (internal_withdraw E sender_id amount) (\<lambda>_.
     bindM (internal_deposit receiver_id amount) (\<lambda>_.
     bindM (tk_log (''Transfer '' @ show_u128 amount @ '' from '' @ sender_id @ '' to '' @ receiver_id)) (\<lambda>_.
     case memo of
       Some m \<Rightarrow> tk_log (''Memo: '' @ m)
     | None \<Rightarrow> ret ()))))"

section \<open>lib.rs\<close>

text \<open>
  The constructor measures the storage of one account entry. \<open>already\<close> is
  \<open>env::state_exists()\<close>; while the constructor runs, the state is the variable \<open>this\<close>.
\<close>

definition tmp_account_id :: account where
  "tmp_account_id = replicate 64 (CHR ''a'')"

definition token_new :: "tenv \<Rightarrow> bool \<Rightarrow> unit token_method" where
  "token_new E already =
     bindM (ensure (\<not> already) (Access ErrAlreadyInitialized)) (\<lambda>_.
     bindM (modifies (\<lambda>w. w\<lparr>tw_self :=
       \<lparr>tk_accounts = ''a'', tk_total_supply = 0, tk_account_storage_usage = 0\<rparr>\<rparr>)) (\<lambda>_.
     bindM (tk_usage E) (\<lambda>initial_storage_usage.
     bindM (tk_insert tmp_account_id 0) (\<lambda>_.
     bindM (tk_usage E) (\<lambda>now.
     bindM (lift (checked_sub now initial_storage_usage)) (\<lambda>n.
     bindM (modifies (\<lambda>w. w\<lparr>tw_self := (tw_self w)\<lparr>tk_account_storage_usage := n\<rparr>\<rparr>)) (\<lambda>_.
     bindM (tk_remove tmp_account_id) (\<lambda>_. ret ()))))))))"

section \<open>fungible_token_core.rs\<close>

definition GAS_FOR_RESOLVE_TRANSFER :: u64 where
  "GAS_FOR_RESOLVE_TRANSFER = 5000000000000"

definition GAS_FOR_FT_TRANSFER_CALL :: u64 where
  "GAS_FOR_FT_TRANSFER_CALL = 25000000000000 + GAS_FOR_RESOLVE_TRANSFER"

definition NO_DEPOSIT :: u128 where
  "NO_DEPOSIT = 0"

definition ft_transfer :: "tenv \<Rightarrow> account \<Rightarrow> u128 \<Rightarrow> string option \<Rightarrow> unit token_method" where
  "ft_transfer E receiver_id amount memo =
     bindM (tk_assert_one_yocto E) (\<lambda>_.
     internal_transfer E (predecessor E) receiver_id amount memo)"

definition ft_transfer_call ::
  "tenv \<Rightarrow> account \<Rightarrow> u128 \<Rightarrow> string \<Rightarrow> string option \<Rightarrow> token_call promise token_method" where
  "ft_transfer_call E receiver_id amount msg memo =
     bindM (tk_assert_one_yocto E) (\<lambda>_.
     let sender_id = predecessor E in
     bindM (internal_transfer E sender_id receiver_id amount memo) (\<lambda>_.
     bindM (lift (checked_sub (prepaid_gas E) GAS_FOR_FT_TRANSFER_CALL)) (\<lambda>gas.
     let p = AndThen
       (FunctionCall receiver_id (Ft_on_transfer sender_id amount msg) NO_DEPOSIT gas)
       (FunctionCall (current_account E) (Ft_resolve_transfer sender_id receiver_id amount)
         NO_DEPOSIT GAS_FOR_RESOLVE_TRANSFER) in
     bindM (tk_schedule p) (\<lambda>_. ret p))))"

definition ft_total_supply :: "u128 token_method" where
  "ft_total_supply = tk_supply"

definition ft_balance_of :: "account \<Rightarrow> u128 token_method" where
  "ft_balance_of acc = bindM (tk_get acc) (\<lambda>b. ret (unwrap_or b 0))"

text \<open>
  \<open>env::promise_result(0)\<close>, and \<open>parse\<close> for \<open>serde_json::from_slice\<close> at type \<open>U128\<close>.
\<close>

datatype promise_result = NotReady | Successful string | Failed

definition unused_amount :: "(string \<Rightarrow> u128 option) \<Rightarrow> promise_result \<Rightarrow> u128 \<Rightarrow> error + u128" where
  "unused_amount parse result amount =
     (case result of
        NotReady \<Rightarrow> Inl (Rust ErrUnreachable)
      | Successful v \<Rightarrow>
          (case parse v of
             Some u \<Rightarrow> Inr (min amount u)
           | None \<Rightarrow> Inr amount)
      | Failed \<Rightarrow> Inr amount)"

definition ft_resolve_transfer ::
  "(string \<Rightarrow> u128 option) \<Rightarrow> tenv \<Rightarrow> promise_result \<Rightarrow> account \<Rightarrow> account \<Rightarrow> u128 \<Rightarrow> u128 token_method" where
  "ft_resolve_transfer parse E result sender_id receiver_id amount =
     bindM (tk_assert_self E) (\<lambda>_.
     bindM (lift (unused_amount parse result amount)) (\<lambda>unused.
     if unused > 0 then
       bindM (tk_get receiver_id) (\<lambda>r.
       let receiver_balance = unwrap_or r 0 in
       if receiver_balance > 0 then
         let refund = min receiver_balance unused in
         bindM (lift (checked_sub receiver_balance refund)) (\<lambda>rest.
         bindM (tk_insert receiver_id rest) (\<lambda>_.
         bindM (tk_get sender_id) (\<lambda>s.
         case s of
           Some sender_balance \<Rightarrow>
             bindM (lift (checked_add sender_balance refund)) (\<lambda>b.
             bindM (tk_insert sender_id b) (\<lambda>_.
             bindM (tk_log (''Refund '' @ show_u128 refund @ '' from '' @ receiver_id @ '' to '' @ sender_id)) (\<lambda>_.
             lift (checked_sub amount refund))))
         | None \<Rightarrow>
             bindM tk_supply (\<lambda>supply.
             bindM (lift (checked_sub supply refund)) (\<lambda>supply'.
             bindM (tk_set_supply supply') (\<lambda>_.
             bindM (tk_log ''The account of the sender was deleted'') (\<lambda>_.
             bindM (tk_log (''Burn '' @ show_u128 refund)) (\<lambda>_.
             ret amount))))))))
       else ret amount)
     else ret amount))"

section \<open>storage_manager.rs\<close>

definition STORAGE_PRICE_PER_BYTE :: u128 where
  "STORAGE_PRICE_PER_BYTE = 10000000000000000000"

record token_storage_balance =
  tsb_total :: u128
  tsb_available :: u128

definition storage_minimum_balance :: "u128 token_method" where
  "storage_minimum_balance =
     bindM (reads (\<lambda>w. tk_account_storage_usage (tw_self w))) (\<lambda>n.
     lift (checked_mul (ucast n) STORAGE_PRICE_PER_BYTE))"

definition tk_storage_deposit :: "tenv \<Rightarrow> account option \<Rightarrow> token_storage_balance token_method" where
  "tk_storage_deposit E account_arg =
     (let amount = attached_deposit E in
      bindM storage_minimum_balance (\<lambda>m.
      bindM (ensure (amount = m) (Balance ErrStorageDepositExact)) (\<lambda>_.
      let acc = unwrap_or account_arg (predecessor E) in
      bindM (tk_get acc) (\<lambda>old.
      bindM (tk_insert acc 0) (\<lambda>_.
      bindM (ensure (old = None) (Balance ErrAlreadyRegistered)) (\<lambda>_.
      ret \<lparr>tsb_total = amount, tsb_available = amount\<rparr>))))))"

definition tk_storage_withdraw :: "tenv \<Rightarrow> u128 \<Rightarrow> token_storage_balance token_method" where
  "tk_storage_withdraw E amount =
     bindM (tk_assert_one_yocto E) (\<lambda>_.
     bindM storage_minimum_balance (\<lambda>m.
     bindM (ensure (amount = m) (Balance ErrStorageWithdrawExact)) (\<lambda>_.
     let acc = predecessor E in
     bindM (tk_remove acc) (\<lambda>old.
     case old of
       Some bal \<Rightarrow>
         if bal > 0 then panic (Balance ErrPositiveBalance)
         else
           bindM (lift (checked_add amount 1)) (\<lambda>n.
           bindM (tk_schedule (Transfer acc n)) (\<lambda>_.
           ret \<lparr>tsb_total = 0, tsb_available = 0\<rparr>))
     | None \<Rightarrow> panic (Balance ErrAccountNotRegistered)))))"

definition tk_storage_balance_of :: "account \<Rightarrow> token_storage_balance token_method" where
  "tk_storage_balance_of acc =
     bindM (tk_get acc) (\<lambda>b.
     case b of
       Some bal \<Rightarrow>
         bindM storage_minimum_balance (\<lambda>total.
         bindM (if bal > 0 then ret 0 else storage_minimum_balance) (\<lambda>available.
         ret \<lparr>tsb_total = total, tsb_available = available\<rparr>))
     | None \<Rightarrow> ret \<lparr>tsb_total = 0, tsb_available = 0\<rparr>)"

section \<open>w_near.rs\<close>

definition near_deposit :: "tenv \<Rightarrow> unit token_method" where
  "near_deposit E =
     (let amount = attached_deposit E in
      bindM (ensure (amount > 0) (Balance ErrNoDeposit)) (\<lambda>_.
      let acc = predecessor E in
      bindM (internal_deposit acc amount) (\<lambda>_.
      bindM tk_supply (\<lambda>supply.
      bindM (lift (checked_add supply amount)) (\<lambda>supply'.
      bindM (tk_set_supply supply') (\<lambda>_.
      tk_log (''Deposit '' @ show_u128 amount @ '' NEAR to '' @ acc)))))))"

definition near_withdraw :: "tenv \<Rightarrow> u128 \<Rightarrow> token_call promise token_method" where
  "near_withdraw E amount =
     bindM (tk_assert_one_yocto E) (\<lambda>_.
     let acc = predecessor E in
     bindM (internal_withdraw E acc amount) (\<lambda>_.
     bindM tk_supply (\<lambda>supply.
     bindM (lift (checked_sub supply amount)) (\<lambda>supply'.
     bindM (tk_set_supply supply') (\<lambda>_.
     bindM (tk_log (''Withdraw '' @ show_u128 amount @ '' NEAR from '' @ acc)) (\<lambda>_.
     bindM (lift (checked_add amount 1)) (\<lambda>n.
     let p = Transfer acc n in
     bindM (tk_schedule p) (\<lambda>_. ret p))))))))"

section \<open>fungible_token_metadata.rs\<close>

record fungible_token_metadata =
  md_version :: string
  md_name :: string
  md_symbol :: string
  md_reference :: string
  md_decimals :: u8

definition ft_metadata :: fungible_token_metadata where
  "ft_metadata =
     \<lparr>md_version = ''0.1.0'', md_name = ''Wrapped NEAR fungible token'', md_symbol = ''wNEAR'',
      md_reference = ''https://github.com/near/core-contracts/tree/master/w-near-141'',
      md_decimals = 24\<rparr>"

section \<open>The token as a ledger\<close>

definition tk_held :: "token_world \<Rightarrow> account \<Rightarrow> u128" where
  "tk_held w a = unwrap_or (lm_get (tw_store w) (tk_accounts (tw_self w)) a) 0"

definition tk_balance :: "token_world \<Rightarrow> account \<Rightarrow> nat" where
  "tk_balance w a = unat (tk_held w a)"

definition tk_registered :: "token_world \<Rightarrow> account \<Rightarrow> bool" where
  "tk_registered w a \<longleftrightarrow> lm_get (tw_store w) (tk_accounts (tw_self w)) a \<noteq> None"

definition tk_finite :: "token_world \<Rightarrow> bool" where
  "tk_finite w \<longleftrightarrow> finite_support (tk_balance w)"

lemma tk_get_Inr [run]:
  "tk_get a w = Inr (v, t) \<longleftrightarrow> v = lm_get (tw_store w) (tk_accounts (tw_self w)) a \<and> t = w"
  by (simp add: tk_get_def run)

lemma tk_insert_Inr [run]: "tk_insert a v w = Inr (u, t) \<longleftrightarrow>
    t = w\<lparr>tw_store := lm_insert (tw_store w) (tk_accounts (tw_self w)) a v\<rparr>"
  by (simp add: tk_insert_def run)

lemma tk_remove_Inr [run]: "tk_remove a w = Inr (v, t) \<longleftrightarrow>
    v = lm_get (tw_store w) (tk_accounts (tw_self w)) a \<and>
    t = w\<lparr>tw_store := lm_remove (tw_store w) (tk_accounts (tw_self w)) a\<rparr>"
  by (auto simp: tk_remove_def run)

lemma tk_log_Inr [run]: "tk_log s w = Inr (u, t) \<longleftrightarrow> t = w\<lparr>tw_logs := tw_logs w @ [s]\<rparr>"
  by (simp add: tk_log_def run)

lemma tk_schedule_Inr [run]: "tk_schedule p w = Inr (u, t) \<longleftrightarrow> t = w\<lparr>tw_outbox := tw_outbox w @ [p]\<rparr>"
  by (simp add: tk_schedule_def run)

lemma tk_supply_Inr [run]: "tk_supply w = Inr (v, t) \<longleftrightarrow> v = tk_total_supply (tw_self w) \<and> t = w"
  by (simp add: tk_supply_def run)

lemma tk_set_supply_Inr [run]: "tk_set_supply v w = Inr (u, t) \<longleftrightarrow>
    t = w\<lparr>tw_self := (tw_self w)\<lparr>tk_total_supply := v\<rparr>\<rparr>"
  by (simp add: tk_set_supply_def run)

lemma tk_usage_Inr [run]: "tk_usage E w = Inr (v, t) \<longleftrightarrow> v = storage_usage E (tw_store w) \<and> t = w"
  by (simp add: tk_usage_def run)

lemma tk_assert_one_yocto_Inr [run]:
  "tk_assert_one_yocto E w = Inr (u, t) \<longleftrightarrow> attached_deposit E = 1 \<and> t = w"
  by (auto simp: tk_assert_one_yocto_def run)

lemma tk_assert_self_Inr [run]:
  "tk_assert_self E w = Inr (u, t) \<longleftrightarrow> predecessor E = current_account E \<and> t = w"
  by (auto simp: tk_assert_self_def run)

lemma checked_case_run [run]:
  "(case r of Inr x \<Rightarrow> f x | Inl _ \<Rightarrow> panic e) s = Inr q \<longleftrightarrow> (\<exists>x. r = Inr x \<and> f x s = Inr q)"
  by (simp add: run split: sum.split)

text \<open>What a deposit and a withdrawal do: one registered account's balance changes, exactly.\<close>

definition tk_put :: "token_world \<Rightarrow> account \<Rightarrow> u128 \<Rightarrow> token_world" where
  "tk_put w a v = w\<lparr>tw_store := lm_insert (tw_store w) (tk_accounts (tw_self w)) a v\<rparr>"

lemma tk_put_simps [simp]:
  "tw_self (tk_put w a v) = tw_self w" "tw_outbox (tk_put w a v) = tw_outbox w"
  "tw_logs (tk_put w a v) = tw_logs w"
  by (simp_all add: tk_put_def)

lemma tk_put_balance [simp]: "tk_balance (tk_put w a v) = (tk_balance w)(a := unat v)"
  by (simp add: tk_balance_def tk_held_def tk_put_def fun_eq_iff)

lemma tk_put_registered [simp]: "tk_registered (tk_put w a v) b \<longleftrightarrow> b = a \<or> tk_registered w b"
  by (simp add: tk_registered_def tk_put_def)

lemma internal_deposit_Inr [run]:
  "internal_deposit a n w = Inr (u, t) \<longleftrightarrow>
     tk_registered w a \<and> tk_balance w a + unat n < 2 ^ 128 \<and> t = tk_put w a (tk_held w a + n)"
  by (cases "lm_get (tw_store w) (tk_accounts (tw_self w)) a")
    (auto simp: internal_deposit_def run tk_registered_def tk_balance_def tk_held_def tk_put_def)

lemma internal_withdraw_Inr [run]:
  "internal_withdraw E a n w = Inr (u, t) \<longleftrightarrow>
     tk_registered w a \<and> unat n \<le> tk_balance w a \<and> t = tk_put w a (tk_held w a - n)"
  by (cases "lm_get (tw_store w) (tk_accounts (tw_self w)) a")
    (auto simp: internal_withdraw_def run tk_registered_def tk_balance_def tk_held_def tk_put_def unats)

lemma tk_held_add [exact]: "tk_balance w a + unat n < 2 ^ 128 \<Longrightarrow> unat (tk_held w a + n) = tk_balance w a + unat n"
  by (simp add: tk_balance_def exact)

lemma tk_held_sub [exact]: "unat n \<le> tk_balance w a \<Longrightarrow> unat (tk_held w a - n) = tk_balance w a - unat n"
  by (simp add: tk_balance_def exact unats)

definition token_credit :: "account \<Rightarrow> u128 \<Rightarrow> (token_world, nat) action" where
  "token_credit a n = bindM (internal_deposit a n) (\<lambda>_. ret (unat n))"

definition token_debit :: "tenv \<Rightarrow> account \<Rightarrow> u128 \<Rightarrow> (token_world, nat) action" where
  "token_debit E a n = bindM (internal_withdraw E a n) (\<lambda>_. ret (unat n))"

interpretation token_ledger: ledger tk_finite tk_balance token_credit "token_debit E" for E
  by unfold_locales
    (auto simp: token_credit_def token_debit_def tk_finite_def run exact)

end
