(* ===== verification/Token_Supply.thy ===== *)
theory Token_Supply
  imports Token
begin

text \<open>
  What each method of the token contract does to balances and supply, and the invariant
  \<open>token_backed\<close>: the balances add up to \<open>total_supply\<close>. The step relation \<open>token_step\<close> has one
  rule per method that changes state, so that reachable contracts are backed.
\<close>

section \<open>The invariant\<close>

definition tk_supply_of :: "token_world \<Rightarrow> nat" where
  "tk_supply_of w = unat (tk_total_supply (tw_self w))"

definition token_backed :: "token_world \<Rightarrow> bool" where
  "token_backed w \<longleftrightarrow> tk_finite w \<and> total_of (tk_balance w) = tk_supply_of w"

lemma token_backed_cong:
  assumes "tk_balance t = tk_balance w" and "tk_supply_of t = tk_supply_of w"
  shows "token_backed t = token_backed w"
  by (simp add: token_backed_def tk_finite_def assms)

lemma tk_balance_cong:
  "tw_store t = tw_store w \<Longrightarrow> tk_accounts (tw_self t) = tk_accounts (tw_self w) \<Longrightarrow>
   tk_balance t = tk_balance w"
  by (intro ext) (simp add: tk_balance_def tk_held_def)

lemma tk_views_logs [simp]:
  "tk_balance (w\<lparr>tw_logs := l\<rparr>) = tk_balance w" "tk_balance (w\<lparr>tw_outbox := p\<rparr>) = tk_balance w"
  "tk_supply_of (w\<lparr>tw_logs := l\<rparr>) = tk_supply_of w" "tk_supply_of (w\<lparr>tw_outbox := p\<rparr>) = tk_supply_of w"
  "tk_registered (w\<lparr>tw_logs := l\<rparr>) = tk_registered w"
  "tk_registered (w\<lparr>tw_outbox := p\<rparr>) = tk_registered w"
  by (simp_all add: tk_balance_def tk_held_def tk_supply_of_def tk_registered_def fun_eq_iff)

lemma tk_views_self [simp]:
  "tk_accounts s = tk_accounts (tw_self w) \<Longrightarrow> tk_balance (w\<lparr>tw_self := s\<rparr>) = tk_balance w"
  "tk_accounts s = tk_accounts (tw_self w) \<Longrightarrow> tk_registered (w\<lparr>tw_self := s\<rparr>) = tk_registered w"
  "tk_supply_of (w\<lparr>tw_self := s\<rparr>) = unat (tk_total_supply s)"
  by (simp_all add: tk_balance_def tk_held_def tk_supply_of_def tk_registered_def fun_eq_iff)

lemma tk_put_supply [simp]: "tk_supply_of (tk_put w a v) = tk_supply_of w"
  by (simp add: tk_supply_of_def)

lemma unregistered_balance: "\<not> tk_registered w a \<Longrightarrow> tk_balance w a = 0"
  by (simp add: tk_registered_def tk_balance_def tk_held_def)

section \<open>Transfers\<close>

text \<open>
  A transfer is a debit of the sender followed by a credit of the receiver; only logs are
  written besides.
\<close>

lemma internal_transfer_ledger:
  assumes "internal_transfer E a b n memo w = Inr (u, t)"
  shows "\<exists>v x. token_debit E a n w = Inr (unat n, v) \<and> token_credit b n v = Inr (unat n, x) \<and> a \<noteq> b \<and>
    tk_balance t = tk_balance x \<and> tk_registered t = tk_registered x \<and> tw_self t = tw_self w \<and>
    tw_outbox t = tw_outbox w"
  using assms
  by (cases memo) (auto simp: internal_transfer_def token_debit_def token_credit_def run exact)

lemma internal_transfer_Inr:
  assumes "internal_transfer E a b n memo w = Inr (u, t)"
  shows "a \<noteq> b \<and> unat n \<le> tk_balance w a \<and> tk_registered w a \<and> tk_registered w b \<and>
    tk_balance t = (tk_balance w)(a := tk_balance w a - unat n, b := tk_balance w b + unat n) \<and>
    tk_supply_of t = tk_supply_of w"
  using assms
  by (cases memo) (auto simp: internal_transfer_def run exact tk_supply_of_def)

lemma internal_transfer_backed:
  assumes "internal_transfer E a b n memo w = Inr (u, t)" and "token_backed w"
  shows "token_backed t"
proof -
  from internal_transfer_ledger [OF assms(1)] obtain v x where
    d: "token_debit E a n w = Inr (unat n, v)" and c: "token_credit b n v = Inr (unat n, x)"
    and t: "tk_balance t = tk_balance x" "tw_self t = tw_self w" by blast
  from assms(2) have fin: "tk_finite w" by (simp add: token_backed_def)
  from token_ledger.transfer_total [OF d c fin] token_ledger.transfer_ok [OF d c fin] assms(2)
  show ?thesis by (simp add: token_backed_def tk_finite_def tk_supply_of_def t)
qed

lemma ft_transfer_Inr:
  assumes "ft_transfer E r n memo w = Inr (u, t)"
  shows "attached_deposit E = 1 \<and> internal_transfer E (predecessor E) r n memo w = Inr ((), t)"
  using assms by (simp add: ft_transfer_def run)

lemma ft_transfer_call_Inr:
  assumes "ft_transfer_call E r n msg memo w = Inr (p, t)"
  shows "\<exists>v. internal_transfer E (predecessor E) r n memo w = Inr ((), v) \<and>
    attached_deposit E = 1 \<and> t = v\<lparr>tw_outbox := tw_outbox v @ [p]\<rparr> \<and>
    (\<exists>gas. p = AndThen (FunctionCall r (Ft_on_transfer (predecessor E) n msg) 0 gas)
       (FunctionCall (current_account E) (Ft_resolve_transfer (predecessor E) r n) 0 GAS_FOR_RESOLVE_TRANSFER))"
  using assms by (auto simp: ft_transfer_call_def run Let_def NO_DEPOSIT_def)

section \<open>Resolving a transfer\<close>

text \<open>
  The refund: the unused part of the amount, capped by what the receiver still holds. It goes
  back to the sender, or is burnt if the sender has unregistered meanwhile.
\<close>

definition resolve_refund :: "token_world \<Rightarrow> account \<Rightarrow> u128 \<Rightarrow> nat" where
  "resolve_refund w receiver_id unused = min (tk_balance w receiver_id) (unat unused)"

lemma unat_min: "unat (min a b) = min (unat a) (unat b)" for a b :: "'a::len word"
  by (simp add: min_def unats)

lemma unused_amount_le: "unused_amount parse res n = Inr k \<Longrightarrow> unat k \<le> unat n"
  by (auto simp: unused_amount_def unats [symmetric] split: promise_result.splits option.splits)

lemma ft_resolve_transfer_Inr:
  assumes call: "ft_resolve_transfer parse E res a b n w = Inr (r, t)" and diff: "a \<noteq> b"
  shows "\<exists>unused. unused_amount parse res n = Inr unused \<and>
    (let refund = resolve_refund w b unused in
     refund \<le> unat n \<and>
     tk_balance t = (tk_balance w)
       (b := tk_balance w b - refund, a := tk_balance w a + (if tk_registered w a then refund else 0)) \<and>
     tk_supply_of t + (if tk_registered w a then 0 else refund) = tk_supply_of w \<and>
     unat r = unat n - (if tk_registered w a then refund else 0) \<and>
     tw_outbox t = tw_outbox w)"
proof -
  from call obtain k where k: "unused_amount parse res n = Inr k"
    by (auto simp: ft_resolve_transfer_def run)
  show ?thesis
  proof (cases "k > 0 \<and> tk_held w b > 0")
    case False
    with call k have "t = w" "r = n"
      by (auto simp: ft_resolve_transfer_def run Let_def tk_held_def split: if_splits)
    moreover from False have "resolve_refund w b k = 0"
      by (auto simp: resolve_refund_def tk_balance_def word_gt_0)
    ultimately show ?thesis using k by (simp add: fun_eq_iff)
  next
    case True
    let ?f = "min (tk_held w b) k" and ?w = "tk_put w b (tk_held w b - min (tk_held w b) k)"
    have f: "unat ?f = resolve_refund w b k" by (simp add: resolve_refund_def tk_balance_def unat_min)
    have fn: "resolve_refund w b k \<le> unat n" using unused_amount_le [OF k] by (simp add: resolve_refund_def)
    have bal: "tk_balance ?w = (tk_balance w)(b := tk_balance w b - resolve_refund w b k)"
      by (simp add: exact f) (simp add: tk_balance_def)
    show ?thesis
    proof (cases "lm_get (tw_store w) (tk_accounts (tw_self w)) a")
      case None
      with call k True diff have cov: "?f \<le> tk_total_supply (tw_self w)"
        and r: "r = n" and t: "tw_store t = tw_store ?w"
          "tw_self t = (tw_self w)\<lparr>tk_total_supply := tk_total_supply (tw_self w) - ?f\<rparr>"
          "tw_outbox t = tw_outbox w"
        by (auto simp: ft_resolve_transfer_def run Let_def tk_held_def tk_put_def)
      from t(1,2) have "tk_balance t = tk_balance ?w"
        by (intro tk_balance_cong) simp_all
      moreover from cov have "resolve_refund w b k \<le> tk_supply_of w"
        by (simp add: unats tk_supply_of_def f)
      ultimately show ?thesis
        using k fn cov None diff unfolding bal
        by (simp add: Let_def r t tk_registered_def tk_supply_of_def exact f fun_eq_iff)
    next
      case (Some s)
      with call k True diff have fits: "unat s + unat ?f < 2 ^ 128"
        and r: "r = n - ?f" and le: "?f \<le> n" and t: "tw_store t = tw_store (tk_put ?w a (s + ?f))"
          "tw_self t = tw_self w" "tw_outbox t = tw_outbox w"
        by (auto simp: ft_resolve_transfer_def run Let_def tk_held_def tk_put_def)
      from t(1,2) have "tk_balance t = tk_balance (tk_put ?w a (s + ?f))"
        by (intro tk_balance_cong) simp_all
      moreover have "tk_balance w a = unat s" using Some by (simp add: tk_balance_def tk_held_def)
      ultimately show ?thesis
        using k fn fits le Some diff unfolding tk_put_balance [of ?w a] bal
        by (simp add: Let_def r t tk_registered_def tk_supply_of_def exact f)
    qed
  qed
qed

lemma ft_resolve_transfer_backed:
  assumes call: "ft_resolve_transfer parse E res a b n w = Inr (r, t)" and diff: "a \<noteq> b"
    and ok: "token_backed w"
  shows "token_backed t"
proof -
  from ft_resolve_transfer_Inr [OF call diff] obtain f where
    bal: "tk_balance t = (tk_balance w)(b := tk_balance w b - f,
        a := tk_balance w a + (if tk_registered w a then f else 0))"
    and sup: "tk_supply_of t + (if tk_registered w a then 0 else f) = tk_supply_of w"
    and le: "f \<le> tk_balance w b"
    by (auto simp: Let_def resolve_refund_def)
  from ok have fin: "finite_support (tk_balance w)" and tot: "total_of (tk_balance w) = tk_supply_of w"
    by (simp_all add: token_backed_def tk_finite_def)
  let ?g = "(tk_balance w)(b := tk_balance w b - f)"
  have fing: "finite_support ?g" using fin by simp
  have 1: "total_of ?g + f = total_of (tk_balance w)"
    using total_upd [OF fin, of b "tk_balance w b - f"] le by simp
  have 2: "total_of (tk_balance t) = total_of ?g + (if tk_registered w a then f else 0)"
    using total_upd [OF fing, of a "tk_balance w a + (if tk_registered w a then f else 0)"] diff
    unfolding bal by simp
  have "total_of (tk_balance t) = tk_supply_of t"
    using 1 2 sup tot by (simp split: if_splits)
  moreover have "finite_support (tk_balance t)" unfolding bal using fin by simp
  ultimately show ?thesis by (simp add: token_backed_def tk_finite_def)
qed

section \<open>Registration\<close>

lemma storage_minimum_balance_state: "storage_minimum_balance w = Inr (m, t) \<Longrightarrow> t = w"
  by (auto simp: storage_minimum_balance_def run)

lemma tk_storage_deposit_Inr:
  assumes "tk_storage_deposit E who w = Inr (s, t)"
  shows "\<not> tk_registered w (unwrap_or who (predecessor E)) \<and> t = tk_put w (unwrap_or who (predecessor E)) 0"
  using assms
  by (auto simp: tk_storage_deposit_def run Let_def tk_registered_def tk_put_def
      dest!: storage_minimum_balance_state)

lemma tk_storage_deposit_balance:
  assumes "tk_storage_deposit E who w = Inr (s, t)"
  shows "tk_balance t = tk_balance w \<and> tk_supply_of t = tk_supply_of w"
  using tk_storage_deposit_Inr [OF assms] by (auto simp: fun_eq_iff unregistered_balance)

lemma tk_storage_withdraw_Inr:
  assumes "tk_storage_withdraw E n w = Inr (s, t)"
  shows "tk_registered w (predecessor E) \<and> tk_balance w (predecessor E) = 0 \<and>
    tk_registered t = (tk_registered w)(predecessor E := False) \<and>
    tk_balance t = tk_balance w \<and> tk_supply_of t = tk_supply_of w \<and>
    tw_outbox t = tw_outbox w @ [Transfer (predecessor E) (n + 1)]"
  using assms
  by (auto simp: tk_storage_withdraw_def run Let_def tk_registered_def tk_balance_def tk_held_def
      tk_supply_of_def fun_eq_iff word_gt_0 dest!: storage_minimum_balance_state split: if_splits option.splits)

section \<open>Wrapping and unwrapping\<close>

lemma near_deposit_Inr:
  assumes "near_deposit E w = Inr (u, t)"
  shows "0 < attached_deposit E \<and> tk_registered w (predecessor E) \<and>
    tk_balance t = (tk_balance w)(predecessor E := tk_balance w (predecessor E) + unat (attached_deposit E)) \<and>
    tk_supply_of t = tk_supply_of w + unat (attached_deposit E) \<and> tw_outbox t = tw_outbox w"
  using assms
  by (auto simp: near_deposit_def run Let_def exact tk_supply_of_def)

lemma near_withdraw_Inr:
  assumes "near_withdraw E n w = Inr (p, t)"
  shows "attached_deposit E = 1 \<and> unat n \<le> tk_balance w (predecessor E) \<and>
    tk_balance t = (tk_balance w)(predecessor E := tk_balance w (predecessor E) - unat n) \<and>
    tk_supply_of t + unat n = tk_supply_of w \<and>
    p = Transfer (predecessor E) (n + 1) \<and> unat (n + 1) = unat n + 1 \<and> tw_outbox t = tw_outbox w @ [p]"
  using assms
  by (auto simp: near_withdraw_def run Let_def exact tk_supply_of_def unats)

section \<open>Reachable contracts\<close>

text \<open>
  The callback runs with the arguments of a transfer that \<open>ft_transfer_call\<close> scheduled. The
  outbox keeps every promise ever scheduled, so a callback that runs twice is covered too.
\<close>

definition resolve_scheduled :: "token_world \<Rightarrow> account \<Rightarrow> account \<Rightarrow> u128 \<Rightarrow> bool" where
  "resolve_scheduled w a b n \<longleftrightarrow>
     (\<exists>p c d g. AndThen p (FunctionCall c (Ft_resolve_transfer a b n) d g) \<in> set (tw_outbox w))"

inductive token_step :: "(string \<Rightarrow> u128 option) \<Rightarrow> token_world \<Rightarrow> token_world \<Rightarrow> bool"
  for parse :: "string \<Rightarrow> u128 option" where
  step_transfer: "ft_transfer E r n memo w = Inr (u, t) \<Longrightarrow> token_step parse w t"
| step_transfer_call: "ft_transfer_call E r n msg memo w = Inr (p, t) \<Longrightarrow> token_step parse w t"
| step_resolve: "ft_resolve_transfer parse E res a b n w = Inr (r, t) \<Longrightarrow>
    resolve_scheduled w a b n \<Longrightarrow> token_step parse w t"
| step_register: "tk_storage_deposit E who w = Inr (s, t) \<Longrightarrow> token_step parse w t"
| step_unregister: "tk_storage_withdraw E n w = Inr (s, t) \<Longrightarrow> token_step parse w t"
| step_wrap: "near_deposit E w = Inr (u, t) \<Longrightarrow> token_step parse w t"
| step_unwrap: "near_withdraw E n w = Inr (p, t) \<Longrightarrow> token_step parse w t"

inductive token_reachable :: "(string \<Rightarrow> u128 option) \<Rightarrow> token_world \<Rightarrow> bool"
  for parse :: "string \<Rightarrow> u128 option" where
  reachable_new: "token_new E False w = Inr (u, t) \<Longrightarrow> (\<And>k. tw_store w k = None) \<Longrightarrow> tw_outbox w = [] \<Longrightarrow>
    token_reachable parse t"
| reachable_step: "token_reachable parse w \<Longrightarrow> token_step parse w t \<Longrightarrow> token_reachable parse t"

definition no_self_resolve :: "token_world \<Rightarrow> bool" where
  "no_self_resolve w \<longleftrightarrow> (\<forall>b n. \<not> resolve_scheduled w b b n)"

definition token_inv :: "token_world \<Rightarrow> bool" where
  "token_inv w \<longleftrightarrow> token_backed w \<and> no_self_resolve w"

lemma no_self_resolve_same: "no_self_resolve w \<Longrightarrow> tw_outbox t = tw_outbox w \<Longrightarrow> no_self_resolve t"
  by (simp add: no_self_resolve_def resolve_scheduled_def)

lemma no_self_resolve_snoc:
  "no_self_resolve w \<Longrightarrow> tw_outbox t = tw_outbox w @ [q] \<Longrightarrow>
   (\<And>p c b n d g. q \<noteq> AndThen p (FunctionCall c (Ft_resolve_transfer b b n) d g)) \<Longrightarrow> no_self_resolve t"
  by (fastforce simp: no_self_resolve_def resolve_scheduled_def)

lemma near_deposit_backed:
  assumes "near_deposit E w = Inr (u, t)" and "token_backed w"
  shows "token_backed t"
proof -
  note eff = near_deposit_Inr [OF assms(1)]
  from assms(2) have fin: "finite_support (tk_balance w)" by (simp add: token_backed_def tk_finite_def)
  from total_upd [OF fin, of "predecessor E" "tk_balance w (predecessor E) + unat (attached_deposit E)"]
    fin eff assms(2) show ?thesis
    by (simp add: token_backed_def tk_finite_def)
qed

lemma near_withdraw_backed:
  assumes "near_withdraw E n w = Inr (p, t)" and "token_backed w"
  shows "token_backed t"
proof -
  note eff = near_withdraw_Inr [OF assms(1)]
  from assms(2) have fin: "finite_support (tk_balance w)" and tot: "total_of (tk_balance w) = tk_supply_of w"
    by (simp_all add: token_backed_def tk_finite_def)
  have "total_of ((tk_balance w)(predecessor E := tk_balance w (predecessor E) - unat n)) = tk_supply_of t"
    using total_upd [OF fin, of "predecessor E" "tk_balance w (predecessor E) - unat n"] eff tot by linarith
  with fin eff show ?thesis by (simp add: token_backed_def tk_finite_def)
qed

lemma token_new_inv:
  assumes "token_new E False w = Inr (u, t)" and "\<And>k. tw_store w k = None" and "tw_outbox w = []"
  shows "token_inv t \<and> tk_supply_of t = 0"
proof -
  from assms(1) have "tw_store t = (\<lambda>k. if k = (''a'', tmp_account_id) then None else tw_store w k)"
    and sup: "tk_total_supply (tw_self t) = 0" and out: "tw_outbox t = []"
    by (auto simp: token_new_def run lm_insert_def lm_remove_def fun_eq_iff assms(3))
  then have "tk_balance t = (\<lambda>_. 0)"
    by (simp add: tk_balance_def tk_held_def lm_get_def assms(2) fun_eq_iff)
  then show ?thesis
    by (simp add: token_inv_def token_backed_def tk_finite_def tk_supply_of_def sup out no_self_resolve_def resolve_scheduled_def)
qed

lemma token_step_inv:
  assumes "token_step parse w t" and inv: "token_inv w"
  shows "token_inv t"
proof -
  from inv have backed: "token_backed w" and nsr: "no_self_resolve w" by (simp_all add: token_inv_def)
  from assms(1) have "token_backed t \<and> no_self_resolve t"
  proof cases
    case (step_transfer E r n memo u)
    from ft_transfer_Inr [OF this] have it: "internal_transfer E (predecessor E) r n memo w = Inr ((), t)" by simp
    from internal_transfer_backed [OF it backed] internal_transfer_ledger [OF it] show ?thesis
      by (auto intro: no_self_resolve_same [OF nsr])
  next
    case (step_transfer_call E r n msg memo p)
    from ft_transfer_call_Inr [OF this] obtain v gas where
      it: "internal_transfer E (predecessor E) r n memo w = Inr ((), v)"
      and t: "t = v\<lparr>tw_outbox := tw_outbox v @ [p]\<rparr>"
      and p: "p = AndThen (FunctionCall r (Ft_on_transfer (predecessor E) n msg) 0 gas)
         (FunctionCall (current_account E) (Ft_resolve_transfer (predecessor E) r n) 0 GAS_FOR_RESOLVE_TRANSFER)"
      by blast
    from internal_transfer_backed [OF it backed] have "token_backed t"
      by (simp add: t token_backed_def tk_finite_def)
    moreover from internal_transfer_ledger [OF it] have "tw_outbox t = tw_outbox w @ [p]" "predecessor E \<noteq> r"
      by (auto simp: t)
    ultimately show ?thesis by (auto simp: p intro: no_self_resolve_snoc [OF nsr])
  next
    case (step_resolve E res a b n r)
    with nsr have diff: "a \<noteq> b" by (auto simp: no_self_resolve_def)
    from ft_resolve_transfer_backed [OF step_resolve(1) diff backed]
      ft_resolve_transfer_Inr [OF step_resolve(1) diff]
    show ?thesis by (auto simp: Let_def intro: no_self_resolve_same [OF nsr])
  next
    case (step_register E who s)
    from tk_storage_deposit_balance [OF this] backed have "token_backed t"
      by (simp add: token_backed_cong [of t w])
    with tk_storage_deposit_Inr [OF step_register] show ?thesis
      by (auto intro: no_self_resolve_same [OF nsr])
  next
    case (step_unregister E n s)
    from tk_storage_withdraw_Inr [OF this] backed show ?thesis
      by (auto simp: token_backed_cong [of t w] intro: no_self_resolve_snoc [OF nsr])
  next
    case (step_wrap E u)
    from near_deposit_backed [OF this backed] near_deposit_Inr [OF this] show ?thesis
      by (auto intro: no_self_resolve_same [OF nsr])
  next
    case (step_unwrap E n p)
    from near_withdraw_backed [OF this backed] near_withdraw_Inr [OF this] show ?thesis
      by (auto intro: no_self_resolve_snoc [OF nsr])
  qed
  then show ?thesis by (simp add: token_inv_def)
qed

lemma token_reachable_inv: "token_reachable parse w \<Longrightarrow> token_inv w"
  by (induction rule: token_reachable.induct) (auto dest: token_new_inv token_step_inv)

end
