(* ===== verification/Token_Properties.thy ===== *)
theory Token_Properties
  imports Token_Supply
begin

text \<open>
  The properties of the token contract: its supply is what its accounts hold, a transfer needs
  no overflow check to be safe, the resolution of a transfer always returns, and wrapping and
  registering are undone by unwrapping and unregistering.
\<close>

section \<open>Sample token contracts\<close>

text \<open>The host counts 125 bytes for the account entry that the constructor measures.\<close>

definition token_env :: "account \<Rightarrow> u128 \<Rightarrow> tenv" where
  "token_env who amount = \<lparr>predecessor = who, current_account = ''wnear'', attached_deposit = amount,
     block_timestamp = 0, block_index = 0, prepaid_gas = 100000000000000, used_gas = 0,
     storage_usage = \<lambda>st. if st (''a'', tmp_account_id) = None then 100 else 225\<rparr>"

definition token_start :: token_world where
  "token_start = \<lparr>tw_self = \<lparr>tk_accounts = [], tk_total_supply = 0, tk_account_storage_usage = 0\<rparr>,
     tw_store = (\<lambda>_. None), tw_logs = [], tw_outbox = []\<rparr>"

definition token_holding :: "(account \<rightharpoonup> u128) \<Rightarrow> u128 \<Rightarrow> token_world" where
  "token_holding m supply =
     \<lparr>tw_self = \<lparr>tk_accounts = ''a'', tk_total_supply = supply, tk_account_storage_usage = 125\<rparr>,
      tw_store = (\<lambda>k. if fst k = ''a'' then m (snd k) else None), tw_logs = [], tw_outbox = []\<rparr>"

lemma token_holding_views [simp]:
  "tk_balance (token_holding m n) a = unat (unwrap_or (m a) 0)"
  "tk_registered (token_holding m n) a \<longleftrightarrow> m a \<noteq> None"
  "tk_supply_of (token_holding m n) = unat n"
  "tk_total_supply (tw_self (token_holding m n)) = n"
  by (simp_all add: token_holding_def tk_balance_def tk_held_def tk_registered_def tk_supply_of_def lm_get_def)

definition two_holders :: token_world where
  "two_holders = token_holding [''ann'' \<mapsto> 700, ''bea'' \<mapsto> 50] 750"

lemma two_holders_views [simp]:
  "tk_balance two_holders = (\<lambda>_. 0)(''ann'' := 700, ''bea'' := 50)"
  "tk_registered two_holders a \<longleftrightarrow> a = ''ann'' \<or> a = ''bea''"
  by (auto simp: two_holders_def fun_eq_iff)

lemma two_holders_backed: "token_backed two_holders"
proof -
  have "total_of ((\<lambda>_. 0)(''ann'' := 700 :: nat, ''bea'' := 50)) = 750"
    using total_upd [of "(\<lambda>_. 0)(''ann'' := 700 :: nat)" "''bea''" 50] total_upd [of "\<lambda>_. 0 :: nat" "''ann''" 700]
    by simp
  then show ?thesis
    by (simp add: token_backed_def tk_finite_def) (simp add: two_holders_def)
qed

section \<open>Supply\<close>

text \<open>C22: in every reachable state of the token contract finitely many accounts hold tokens, and
  what they hold adds up to the total supply.\<close>

theorem supply_is_held:
  assumes "token_reachable parse w"
  shows "finite {a. tk_balance w a \<noteq> 0} \<and>
    (\<Sum>a | tk_balance w a \<noteq> 0. tk_balance w a) = unat (tk_total_supply (tw_self w))"
  using token_reachable_inv [OF assms]
  by (simp add: token_inv_def token_backed_def tk_finite_def finite_support_def total_of_def tk_supply_of_def)

definition registered_world :: token_world where
  "registered_world = token_holding [''ann'' \<mapsto> 0] 0"

lemma reach_empty: "token_reachable parse (token_holding Map.empty 0)"
proof (rule reachable_new [where E = "token_env ''dev'' 0" and w = token_start and u = "()"])
  show "token_new (token_env ''dev'' 0) False token_start = Inr ((), token_holding Map.empty 0)"
    by (auto simp: token_new_def run token_env_def token_start_def token_holding_def lm_insert_def lm_remove_def fun_eq_iff)
qed (simp_all add: token_start_def)

lemma reach_registered: "token_reachable parse registered_world"
proof (rule reachable_step [OF reach_empty], rule step_register)
  show "tk_storage_deposit (token_env ''ann'' 1250000000000000000000) None (token_holding Map.empty 0) =
      Inr (\<lparr>tsb_total = 1250000000000000000000, tsb_available = 1250000000000000000000\<rparr>, registered_world)"
    by (auto simp: tk_storage_deposit_def run Let_def token_env_def registered_world_def token_holding_def
        storage_minimum_balance_def STORAGE_PRICE_PER_BYTE_def lm_get_def lm_insert_def fun_eq_iff)
qed

lemma supply_is_held_witness:
  "\<exists>t. near_deposit (token_env ''ann'' 700) registered_world = Inr ((), t) \<and>
     (\<Sum>a | tk_balance t a \<noteq> 0. tk_balance t a) = 700"
proof -
  have "\<exists>t. near_deposit (token_env ''ann'' 700) registered_world = Inr ((), t)"
    by (simp add: near_deposit_def run Let_def token_env_def registered_world_def)
  then obtain t where call: "near_deposit (token_env ''ann'' 700) registered_world = Inr ((), t)" ..
  then have "token_reachable (\<lambda>_. None) t"
    by (rule reachable_step [OF reach_registered step_wrap])
  from supply_is_held [OF this] near_deposit_Inr [OF call] show ?thesis
    using call by (simp add: tk_supply_of_def [symmetric] token_env_def registered_world_def)
qed

section \<open>Transfers\<close>

lemma two_balances_le:
  assumes "token_backed w" and "a \<noteq> b"
  shows "tk_balance w a + tk_balance w b \<le> tk_supply_of w"
proof -
  from assms(1) have fin: "finite_support (tk_balance w)" and tot: "total_of (tk_balance w) = tk_supply_of w"
    by (simp_all add: token_backed_def tk_finite_def)
  have "tk_balance w b \<le> total_of ((tk_balance w)(a := 0))"
    using total_member_le [of "(tk_balance w)(a := 0)" b] fin assms(2) by simp
  with total_upd [OF fin, of a 0] tot show ?thesis by simp
qed

lemma supply_fits: "tk_supply_of w < 2 ^ 128"
  using unat_bound [of "tk_total_supply (tw_self w)"] by (simp add: tk_supply_of_def)

text \<open>C23: while balances add up to the supply, a transfer returns exactly when one yocto is
  attached, sender and receiver differ, both are registered and the sender holds the amount; the
  credit cannot overflow. It moves that amount and changes no other balance, nor the supply. An
  amount of zero is accepted too, although the comments on \<open>ft_transfer\<close> in
  \<open>fungible_token_core.rs\<close> ask for a positive one.\<close>

theorem ft_transfer_moves:
  fixes E :: tenv
  assumes "token_backed w"
  defines "a \<equiv> predecessor E"
  shows "((\<exists>t. ft_transfer E b n memo w = Inr ((), t)) \<longleftrightarrow>
      attached_deposit E = 1 \<and> a \<noteq> b \<and> tk_registered w a \<and> tk_registered w b \<and> unat n \<le> tk_balance w a) \<and>
    (\<forall>t. ft_transfer E b n memo w = Inr ((), t) \<longrightarrow>
      tk_balance t = (tk_balance w)(a := tk_balance w a - unat n, b := tk_balance w b + unat n) \<and>
      tk_supply_of t = tk_supply_of w)"
proof -
  have fits: "tk_balance w b + unat n < 2 ^ 128" if "a \<noteq> b" "unat n \<le> tk_balance w a"
    using two_balances_le [OF assms(1) that(1)] that(2) supply_fits [of w] by linarith
  have "(\<exists>t. ft_transfer E b n memo w = Inr ((), t)) \<longleftrightarrow>
      attached_deposit E = 1 \<and> a \<noteq> b \<and> tk_registered w a \<and> tk_registered w b \<and> unat n \<le> tk_balance w a"
    using fits by (cases memo) (auto simp: ft_transfer_def internal_transfer_def run a_def)
  moreover have "tk_balance t = (tk_balance w)(a := tk_balance w a - unat n, b := tk_balance w b + unat n) \<and>
      tk_supply_of t = tk_supply_of w" if "ft_transfer E b n memo w = Inr ((), t)" for t
    using internal_transfer_Inr [OF conjunct2 [OF ft_transfer_Inr [OF that]]] unfolding a_def by blast
  ultimately show ?thesis by blast
qed

lemma ft_transfer_moves_witness:
  "\<exists>t. ft_transfer (token_env ''ann'' 1) ''bea'' 300 (Some ''rent'') two_holders = Inr ((), t) \<and>
     tk_balance t ''ann'' = 400 \<and> tk_balance t ''bea'' = 350"
proof -
  note moves = ft_transfer_moves [OF two_holders_backed, of "token_env ''ann'' 1" "''bea''" 300 "Some ''rent''"]
  then obtain t where call: "ft_transfer (token_env ''ann'' 1) ''bea'' 300 (Some ''rent'') two_holders = Inr ((), t)"
    by (auto simp: token_env_def)
  with moves show ?thesis by (auto simp: token_env_def)
qed

text \<open>C24: the callback of a transfer call always returns when the contract calls it on a resolved
  promise: the part the receiver reported unused, capped by what the receiver still holds, goes
  back to the sender, or is burnt if the sender has unregistered, and the amount the call
  reports as spent is the rest (the whole amount after a burn).\<close>

theorem ft_resolve_transfer_total:
  assumes "token_backed w" and "a \<noteq> b" and "predecessor E = current_account E"
    and k: "unused_amount parse res n = Inr k"
  defines "refund \<equiv> min (tk_balance w b) (unat k)" and "back \<equiv> tk_registered w a"
  shows "\<exists>r t. ft_resolve_transfer parse E res a b n w = Inr (r, t) \<and>
    unat r = unat n - (if back then refund else 0) \<and>
    tk_balance t = (tk_balance w)
      (b := tk_balance w b - refund, a := tk_balance w a + (if back then refund else 0)) \<and>
    tk_supply_of t + (if back then 0 else refund) = tk_supply_of w"
proof -
  let ?f = "min (tk_held w b) k"
  have f: "unat ?f = refund" by (simp add: refund_def tk_balance_def unat_min)
  have "tk_balance w a + refund < 2 ^ 128" "refund \<le> tk_supply_of w"
    using two_balances_le [OF assms(1,2)] supply_fits [of w] by (simp_all add: refund_def)
  moreover have "refund \<le> unat n" using unused_amount_le [OF k] by (simp add: refund_def)
  ultimately have fits: "tk_balance w a + unat ?f < 2 ^ 128" "?f \<le> tk_total_supply (tw_self w)" "?f \<le> n"
    by (simp_all add: f tk_supply_of_def unats)
  have "\<exists>r t. ft_resolve_transfer parse E res a b n w = Inr (r, t)"
  proof (cases "lm_get (tw_store w) (tk_accounts (tw_self w)) a")
    case None
    with fits assms(2,3) k show ?thesis
      by (cases "0 < k"; cases "0 < tk_held w b"; simp add: ft_resolve_transfer_def run Let_def tk_held_def)
  next
    case (Some s)
    then have "tk_balance w a = unat s" by (simp add: tk_balance_def tk_held_def)
    with Some fits assms(2,3) k show ?thesis
      by (cases "0 < k"; cases "0 < tk_held w b"; simp add: ft_resolve_transfer_def run Let_def tk_held_def)
  qed
  then obtain r t where call: "ft_resolve_transfer parse E res a b n w = Inr (r, t)" by blast
  from ft_resolve_transfer_Inr [OF call assms(2)] k call show ?thesis
    by (auto simp: Let_def resolve_refund_def refund_def back_def)
qed

lemma ft_resolve_transfer_total_witness:
  "\<exists>r t. ft_resolve_transfer (\<lambda>_. Some 30) (token_env ''wnear'' 0) (Successful ''30'') ''ann'' ''bea'' 40 two_holders =
      Inr (r, t) \<and> unat r = 10 \<and> tk_balance t ''ann'' = 730 \<and> tk_balance t ''bea'' = 20"
proof -
  have k: "unused_amount (\<lambda>_. Some 30) (Successful ''30'') 40 = Inr 30"
    by (simp add: unused_amount_def)
  from ft_resolve_transfer_total [OF two_holders_backed _ _ k, of "''ann''" "''bea''" "token_env ''wnear'' 0"]
  show ?thesis by (auto simp: token_env_def)
qed

section \<open>Wrapping and registering\<close>

text \<open>C25: unwrapping undoes wrapping: after a deposit of an amount the withdrawal of that amount
  returns, restores every balance and the supply, and promises the amount and the yocto that the
  withdrawal attached.\<close>

theorem near_deposit_withdraw:
  assumes deposit: "near_deposit E w = Inr (u, v)" and n: "unat (attached_deposit E) + 1 < 2 ^ 128"
    and F: "predecessor F = predecessor E" "attached_deposit F = 1"
  shows "\<exists>t. near_withdraw F (attached_deposit E) v = Inr (Transfer (predecessor E) (attached_deposit E + 1), t) \<and>
    tk_balance t = tk_balance w \<and> tk_supply_of t = tk_supply_of w \<and>
    tw_outbox t = tw_outbox w @ [Transfer (predecessor E) (attached_deposit E + 1)]"
proof -
  let ?n = "attached_deposit E" and ?a = "predecessor E"
  note eff = near_deposit_Inr [OF deposit]
  have reg: "tk_registered v ?a"
    using deposit by (auto simp: near_deposit_def run Let_def)
  have "unat ?n \<le> tk_balance v ?a" "?n \<le> tk_total_supply (tw_self v)"
    using eff by (simp_all add: unats tk_supply_of_def)
  with reg n F have "\<exists>p t. near_withdraw F ?n v = Inr (p, t)"
    by (simp add: near_withdraw_def run Let_def)
  then obtain p t where call: "near_withdraw F ?n v = Inr (p, t)" by blast
  from near_withdraw_Inr [OF call] eff F have "tk_balance t = tk_balance w \<and> tk_supply_of t = tk_supply_of w \<and>
    p = Transfer ?a (?n + 1) \<and> tw_outbox t = tw_outbox w @ [p]"
    by (simp add: fun_upd_idem)
  with call show ?thesis by blast
qed

lemma near_deposit_withdraw_witness:
  "\<exists>v t. near_deposit (token_env ''ann'' 200) two_holders = Inr ((), v) \<and>
     near_withdraw (token_env ''ann'' 1) 200 v = Inr (Transfer ''ann'' 201, t) \<and> tk_balance t ''ann'' = 700"
proof -
  have "\<exists>v. near_deposit (token_env ''ann'' 200) two_holders = Inr ((), v)"
    by (simp add: near_deposit_def run Let_def token_env_def) (simp add: two_holders_def)
  then obtain v where v: "near_deposit (token_env ''ann'' 200) two_holders = Inr ((), v)" ..
  from near_deposit_withdraw [OF v, of "token_env ''ann'' 1"] v show ?thesis
    by (auto simp: token_env_def)
qed

text \<open>C26: registering an account takes exactly the price of an entry, fails for a registered
  account and changes no balance; unregistering gives the price back with the attached yocto and
  forgets the account, which no account with tokens can do.\<close>

theorem registration_round_trip:
  assumes deposit: "tk_storage_deposit E None w = Inr (s, v)" and n: "unat (attached_deposit E) + 1 < 2 ^ 128"
    and F: "predecessor F = predecessor E" "attached_deposit F = 1"
  shows "\<not> tk_registered w (predecessor E) \<and> tk_registered v (predecessor E) \<and>
    tk_balance v = tk_balance w \<and>
    (\<exists>t. tk_storage_withdraw F (attached_deposit E) v = Inr (\<lparr>tsb_total = 0, tsb_available = 0\<rparr>, t) \<and>
      tk_registered t = tk_registered w \<and> tk_balance t = tk_balance w \<and>
      tw_outbox t = tw_outbox v @ [Transfer (predecessor E) (attached_deposit E + 1)])"
proof -
  let ?a = "predecessor E"
  from tk_storage_deposit_Inr [OF deposit] have new: "\<not> tk_registered w ?a" and v: "v = tk_put w ?a 0" by simp_all
  have m: "storage_minimum_balance v = Inr (attached_deposit E, v)"
    using deposit v by (auto simp: tk_storage_deposit_def run Let_def storage_minimum_balance_def)
  have "lm_get (tw_store v) (tk_accounts (tw_self v)) ?a = Some 0"
    by (simp add: v tk_put_def)
  with m n F have "\<exists>t. tk_storage_withdraw F (attached_deposit E) v = Inr (\<lparr>tsb_total = 0, tsb_available = 0\<rparr>, t)"
    by (simp add: tk_storage_withdraw_def run Let_def bindM_def [of storage_minimum_balance])
  then obtain t where call: "tk_storage_withdraw F (attached_deposit E) v = Inr (\<lparr>tsb_total = 0, tsb_available = 0\<rparr>, t)" ..
  have "(tk_registered v)(?a := False) = tk_registered w"
    using new by (auto simp: v fun_eq_iff)
  with tk_storage_withdraw_Inr [OF call] tk_storage_deposit_balance [OF deposit] call new F show ?thesis
    by (auto simp: v)
qed

lemma registration_round_trip_witness:
  "\<exists>s v t. tk_storage_deposit (token_env ''cat'' 1250000000000000000000) None two_holders = Inr (s, v) \<and>
     tk_registered v ''cat'' \<and>
     tk_storage_withdraw (token_env ''cat'' 1) 1250000000000000000000 v =
       Inr (\<lparr>tsb_total = 0, tsb_available = 0\<rparr>, t) \<and> \<not> tk_registered t ''cat''"
proof -
  have "\<exists>s v. tk_storage_deposit (token_env ''cat'' 1250000000000000000000) None two_holders = Inr (s, v)"
    by (simp add: tk_storage_deposit_def run Let_def token_env_def two_holders_def token_holding_def
        storage_minimum_balance_def STORAGE_PRICE_PER_BYTE_def lm_get_def)
  then obtain s v where v: "tk_storage_deposit (token_env ''cat'' 1250000000000000000000) None two_holders = Inr (s, v)"
    by blast
  from registration_round_trip [OF v, of "token_env ''cat'' 1"] v show ?thesis
    by (auto simp: token_env_def)
qed

end
