(* ===== verification/Test_Fixtures.thy ===== *)
theory Test_Fixtures
  imports Upgrade Sample Oracle_Contract
begin

text \<open>
  The frame of the repository's unit tests: the accounts, configurations and contexts that the
  test modules build, what \<open>assert_eq!\<close> and \<open>#[should_panic]\<close> mean, and the rules that run a
  handler forwards on a concrete state. A test is an action that starts from an empty storage;
  \<open>testing_env!\<close> is the environment that the calls after it are given.
\<close>

section \<open>What a test is\<close>

primrec script :: "unit call list \<Rightarrow> unit call" where
  "script [] = ret ()"
| "script (m # ms) = bindM m (\<lambda>_. script ms)"

text \<open>A call whose result is dropped, and \<open>assert_eq!\<close>.\<close>

definition drop_result :: "'a call \<Rightarrow> unit call" where
  "drop_result m = bindM m (\<lambda>_. ret ())"

definition assert_eq :: "'a \<Rightarrow> 'a \<Rightarrow> unit call" where
  "assert_eq x y = ensure (x = y) (Rust ErrUnreachable)"

definition passes :: "unit call \<Rightarrow> bool" where
  "passes t = (case t blank_world of Inl _ \<Rightarrow> False | Inr _ \<Rightarrow> True)"

definition should_panic :: "error \<Rightarrow> unit call \<Rightarrow> bool" where
  "should_panic e t = (case t blank_world of Inl e' \<Rightarrow> e' = e | Inr _ \<Rightarrow> False)"

section \<open>Accounts, configurations and contexts\<close>

definition alice :: account where "alice = ''alice.near''"
definition bob :: account where "bob = ''bob.near''"
definition carol :: account where "carol = ''carol.near''"
definition dave :: account where "dave = ''dave.near''"
definition token :: account where "token = ''token.near''"
definition gov :: account where "gov = ''gov.near''"

definition registry_entry :: "account \<Rightarrow> requester" where
  "registry_entry a =
     \<lparr>contract_name = a, account_id = a, stake_multiplier = None, code_base_url = None\<rparr>"

definition sum_claim_res :: "claim_res \<Rightarrow> error + u128" where
  "sum_claim_res r = checked_add (payment_token_payout r) (stake_token_payout r)"

definition new_config :: "u128 \<Rightarrow> oracle_config" where
  "new_config final_arb_amount =
     \<lparr>cfg_gov = gov, cfg_final_arbitrator = alice, cfg_payment_token = token, cfg_stake_token = token,
      cfg_validity_bond = 100, cfg_max_outcomes = 8, cfg_default_challenge_window_duration = 1000,
      cfg_min_initial_challenge_window_duration = 1000,
      cfg_final_arbitrator_invoke_amount = final_arb_amount,
      cfg_fee = \<lparr>flux_market_cap = 50000, total_value_staked = 10000, resolution_fee_percentage = 10000\<rparr>,
      cfg_min_resolution_bond = 100\<rparr>"

definition test_config :: oracle_config where
  "test_config = new_config 1000000"

definition config_for_quick_final_arb :: oracle_config where
  "config_for_quick_final_arb = new_config 250"

text \<open>
  The constants of the SDK as the expected messages show them, and 10^19 yocto for a byte. The
  mocked host starts with \<open>10^6\<close> bytes and counts those that the calls store; how many bytes a
  state takes is its own affair, so the count \<open>c\<close> is a parameter, and the tests are run for every
  count that stays within \<open>n\<close> bytes of the start (\<open>counts n\<close>).
\<close>

definition test_sdk :: sdk where
  "test_sdk = sample_sdk\<lparr>max_resolution_fee_percentage := 100000, storage_price_per_byte := 10000000000000000000\<rparr>"

type_synonym byte_count = "oracle_storage \<Rightarrow> u64"

definition counts :: "nat \<Rightarrow> byte_count \<Rightarrow> bool" where
  "counts n c \<longleftrightarrow> (\<forall>st. 1000000 \<le> unat (c st) \<and> unat (c st) \<le> 1000000 + n)"

definition get_context :: "byte_count \<Rightarrow> account \<Rightarrow> oenv" where
  "get_context c a =
     \<lparr>predecessor = a, current_account = token, attached_deposit = 1000000000000000000000000000,
      block_timestamp = 0, block_index = 0, prepaid_gas = 1000000000000000000, used_gas = 0,
      storage_usage = c\<rparr>"

section \<open>Steps that the tests share\<close>

definition whitelist_arg :: "requester list option" where
  "whitelist_arg = Some [registry_entry bob, registry_entry carol]"

definition deploy :: "byte_count \<Rightarrow> account \<Rightarrow> oracle_config \<Rightarrow> unit call" where
  "deploy c caller config = contract_new test_sdk (get_context c caller) whitelist_arg config"

definition answer :: "string \<Rightarrow> outcome" where
  "answer s = Answer (AString s)"

definition request_args ::
  "source list option \<Rightarrow> string list option \<Rightarrow> u64 \<Rightarrow> string option \<Rightarrow> new_data_request_args" where
  "request_args sources outcomes period description =
     \<lparr>arg_sources = sources, arg_outcomes = outcomes, arg_challenge_period = period,
      arg_description = description, arg_tags = [''1''], arg_data_type = TString, arg_provider = None\<rparr>"

definition file_request :: "oenv \<Rightarrow> account \<Rightarrow> u128 \<Rightarrow> new_data_request_args \<Rightarrow> unit call" where
  "file_request E sender amount args = drop_result (dr_new test_sdk E sender amount args)"

definition stake :: "oenv \<Rightarrow> account \<Rightarrow> u128 \<Rightarrow> string \<Rightarrow> unit call" where
  "stake E sender amount s =
     drop_result (dr_stake E sender amount \<lparr>stake_id = 0, stake_outcome = answer s\<rparr>)"

text \<open>The helper functions \<open>dr_new\<close>, \<open>finalize\<close> and \<open>dr_finalize\<close> of the tests of the requests.\<close>

definition dr_new_helper :: "oenv \<Rightarrow> unit call" where
  "dr_new_helper E = file_request E bob 100 (request_args (Some []) (Some [''a'', ''b'']) 1500 (Some ''a''))"

definition finalize_helper :: "oenv \<Rightarrow> u64 \<Rightarrow> unit call" where
  "finalize_helper E dr_id = dr_finalize test_sdk E dr_id"

definition later :: "byte_count \<Rightarrow> account \<Rightarrow> u64 \<Rightarrow> oenv" where
  "later c a time = (get_context c a)\<lparr>block_timestamp := time\<rparr>"

definition dr_finalize_helper :: "byte_count \<Rightarrow> string \<Rightarrow> unit call" where
  "dr_finalize_helper c s = script
     [stake (get_context c token) alice 2000 s,
      finalize_helper (later c token 1501) 0]"

definition claims :: "oenv \<Rightarrow> finalized_data_request \<Rightarrow> account \<Rightarrow> u128 \<Rightarrow> unit call" where
  "claims E d a n = bindM (fdr_claim E d a) (\<lambda>r. bindM (lift (sum_claim_res r)) (\<lambda>x. assert_eq x n))"

section \<open>Running a test\<close>

lemma context_simps [simp]:
  "predecessor (get_context c a) = a" "current_account (get_context c a) = token"
  "attached_deposit (get_context c a) = 1000000000000000000000000000"
  "block_timestamp (get_context c a) = 0" "prepaid_gas (get_context c a) = 1000000000000000000"
  "used_gas (get_context c a) = 0" "storage_usage (get_context c a) = c"
  by (simp_all add: get_context_def)

lemma later_simps [simp]:
  "predecessor (later c a n) = a" "current_account (later c a n) = token"
  "attached_deposit (later c a n) = 1000000000000000000000000000"
  "block_timestamp (later c a n) = n" "prepaid_gas (later c a n) = 1000000000000000000" "used_gas (later c a n) = 0"
  "storage_usage (later c a n) = c"
  by (simp_all add: later_def)

lemma sdk_simps [simp]:
  "max_sources test_sdk = 8" "max_tags test_sdk = 8" "min_outcomes test_sdk = 2" "min_period_multiplier test_sdk = 3"
  "max_resolution_fee_percentage test_sdk = 100000" "gas_base_transfer test_sdk = 10"
  "gas_base_set_outcome test_sdk = 100" "storage_price_per_byte test_sdk = 10000000000000000000"
  "key_whitelist test_sdk = ''wl''" "key_configs test_sdk = ''c''" "key_data_requests test_sdk = ''dr''"
  "key_accounts test_sdk = ''a''"
  by (simp_all add: test_sdk_def sample_sdk_def)

text \<open>A refund returns for every such count, and leaves a promise that depends on it.\<close>

lemma counts_refundable:
  assumes "counts n c" and "n * 10000000000000000000 \<le> unat (attached_deposit E)"
    and "unat (attached_deposit E) \<le> 1000000000000000000000000000" and "n \<le> 1000000"
  shows "refundable test_sdk E (c st) (c st')"
proof -
  have le: "unat (c x) - unat (c y) \<le> n" for x y
  proof -
    have "unat (c x) \<le> 1000000 + n" "1000000 \<le> unat (c y)" using assms(1) by (simp_all add: counts_def)
    then show ?thesis by linarith
  qed
  have price: "(unat (c x) - unat (c y)) * 10000000000000000000 \<le> n * 10000000000000000000" for x y
    by (rule mult_le_mono1 [OF le])
  show ?thesis
    using price [of st st'] price [of st' st] assms(2-4) by (simp add: refundable_def bytes_price_def)
qed

lemma counts_context [simp]:
  "counts 1000000 c \<Longrightarrow> refundable test_sdk (get_context c a) (c st) (c st')"
  "counts 1000000 c \<Longrightarrow> refundable test_sdk (later c a m) (c st) (c st')"
  by (rule counts_refundable, assumption, simp_all)+

lemma run_refund:
  assumes "refundable K E i (storage_usage E (store w))"
  shows "refund_storage K E i a w = Inr ((), w\<lparr>outbox := outbox w @ refund_note K E i a (store w)\<rparr>)"
  using assms by (simp add: refund_storage_Inr refundable_iff)

lemma refund_note_cong [cong]: "refund_note K E i a st = refund_note K E i a st" ..

lemma entry_simps [simp]: "account_id (registry_entry a) = a" "stake_multiplier (registry_entry a) = None"
  by (simp_all add: registry_entry_def)

lemma config_simps [simp]:
  "cfg_gov (new_config n) = gov" "cfg_final_arbitrator (new_config n) = alice"
  "cfg_payment_token (new_config n) = token" "cfg_stake_token (new_config n) = token"
  "cfg_validity_bond (new_config n) = 100" "cfg_max_outcomes (new_config n) = 8"
  "cfg_default_challenge_window_duration (new_config n) = 1000"
  "cfg_min_initial_challenge_window_duration (new_config n) = 1000"
  "cfg_final_arbitrator_invoke_amount (new_config n) = n" "cfg_min_resolution_bond (new_config n) = 100"
  by (simp_all add: new_config_def)

lemma names_distinct [simp]:
  "alice \<noteq> bob" "bob \<noteq> alice" "alice \<noteq> carol" "carol \<noteq> alice" "bob \<noteq> carol" "carol \<noteq> bob"
  "alice \<noteq> dave" "dave \<noteq> alice" "bob \<noteq> dave" "dave \<noteq> bob" "carol \<noteq> dave" "dave \<noteq> carol"
  "token \<noteq> alice" "alice \<noteq> token" "token \<noteq> bob" "bob \<noteq> token" "token \<noteq> carol" "carol \<noteq> token"
  "gov \<noteq> alice" "alice \<noteq> gov" "gov \<noteq> bob" "bob \<noteq> gov" "gov \<noteq> token" "token \<noteq> gov" "carol \<noteq> gov" "gov \<noteq> carol"
  by (simp_all add: alice_def bob_def carol_def dave_def token_def gov_def)

text \<open>
  The definitions of the actions, each applied to the state it runs on: rewriting with them
  unfolds a call only when its turn comes.
\<close>

lemmas forward_steps = actions Let_def
  emit_def [THEN fun_cong] emits_def [THEN fun_cong] schedule_def [THEN fun_cong]
  schedule_pv_def [THEN fun_cong] usage_def [THEN fun_cong]
  stakes_get_def [THEN fun_cong] stakes_insert_def [THEN fun_cong] stakes_remove_def
  users_get_def [THEN fun_cong] users_insert_def [THEN fun_cong]
  accounts_get_def [THEN fun_cong] accounts_insert_def [THEN fun_cong]
  whitelist_get_def [THEN fun_cong] whitelist_insert_def [THEN fun_cong] whitelist_remove_def [THEN fun_cong]
  windows_get_def windows_push_def windows_replace_def configs_get_def configs_push_def
  configs_replace_def requests_get_def requests_push_def requests_replace_def
  lm_get_def lm_insert_def lm_remove_def vec_new_def vec_get_def vec_push_def vec_replace_def
  checked_add_def checked_sub_def checked_mul_def checked_div_def

lemmas forward_checks =
  get_config_def [THEN fun_cong] assert_gov_def [THEN fun_cong] assert_unpaused_def [THEN fun_cong]
  assert_sender_def [THEN fun_cong] configs_len_def [THEN fun_cong] requests_len_def [THEN fun_cong]
  whitelist_handle_def [THEN fun_cong] wl_contains_def [THEN fun_cong]
  whitelist_contains_def [THEN fun_cong] assert_whitelisted_def [THEN fun_cong]
  whitelist_get_expect_def [THEN fun_cong] run_refund
  get_storage_account_def [THEN fun_cong] assert_one_yocto_def [THEN fun_cong]

lemmas forward_requests =
  contract_new_def [THEN fun_cong] whitelist_new_def [THEN fun_cong]
  dr_new_def [THEN fun_cong] dr_validate_def [THEN fun_cong] adr_new_def
  dr_get_expect_def [THEN fun_cong] dr_get_expect_active_def [THEN fun_cong]
  dr_get_expect_finalized_def [THEN fun_cong] config_at_def [THEN fun_cong] window_at_def [THEN fun_cong]
  get_config_id_def

lemmas forward_stakes =
  dr_stake_def [THEN fun_cong] assert_final_arbitrator_not_invoked_def [THEN fun_cong]
  assert_can_stake_on_outcome_def [THEN fun_cong] assert_valid_outcome_def [THEN fun_cong]
  assert_valid_outcome_type_def [THEN fun_cong] adr_stake_def [THEN fun_cong]
  current_window_def [THEN fun_cong] calc_resolution_bond_def multiply_stake_def
  rw_new_def [THEN fun_cong] rw_stake_def [THEN fun_cong] get_user_to_outcomes_def [THEN fun_cong]
  store_window_def [THEN fun_cong] open_next_window_def [THEN fun_cong] invoke_final_arbitrator_def
  dr_unstake_def [THEN fun_cong] dr_unstake_window_def [THEN fun_cong] request_windows_def
  rw_unstake_def [THEN fun_cong]

lemmas forward_finals =
  dr_finalize_def [THEN fun_cong] assert_can_finalize_def [THEN fun_cong]
  get_final_outcome_def [THEN fun_cong] return_validity_bond_def trim_dr_def
  dr_final_arbitrator_finalize_def [THEN fun_cong] assert_final_arbitrator_def [THEN fun_cong]
  assert_final_arbitrator_invoked_def [THEN fun_cong] dr_finalize_by_provider_def [THEN fun_cong]

lemmas forward_claims =
  dr_claim_def [THEN fun_cong] fdr_claim_def [THEN fun_cong] claim_round_def [THEN fun_cong]
  rw_claim_for_def [THEN fun_cong] count_stake_def calc_product_def as_u128_def claim_promise_def
  fungible_token_transfer_def sum_claim_res_def

lemmas forward_tests =
  passes_def should_panic_def assert_eq_def [THEN fun_cong] drop_result_def [THEN fun_cong]
  script.simps [THEN fun_cong] blank_world_def empty_storage_def
  deploy_def [THEN fun_cong] file_request_def [THEN fun_cong] stake_def [THEN fun_cong]
  dr_new_helper_def [THEN fun_cong] finalize_helper_def [THEN fun_cong] dr_finalize_helper_def [THEN fun_cong]
  claims_def [THEN fun_cong] request_args_def answer_def test_config_def
  config_for_quick_final_arb_def whitelist_arg_def

lemma index_lists [simp]: "[0..<2] = [0, Suc 0]" "[0..<3] = [0, Suc 0, 2]" "[0..<4] = [0, Suc 0, 2, 3]"
  "[Suc 0..<2] = [Suc 0]" "[Suc 0..<3] = [Suc 0, 2]"
  by (simp_all add: numeral_eq_Suc)

lemma one_outcome_short [simp]: "\<not> 2 \<le> (1 :: u8)"
  by (simp add: word_le_nat_alt)

lemmas forward = forward_tests forward_steps forward_checks forward_requests forward_stakes forward_finals
  forward_claims

end
