(* ===== verification/Tests_Staking.thy ===== *)
theory Tests_Staking
  imports Test_Fixtures
begin

text \<open>
  The unit tests of \<open>oracle/src/data_request.rs\<close> on filing requests, staking and unstaking: each
  test function as a definition, and the fact that it passes, or panics as it should.
\<close>

text \<open>
  The stake of \<open>alice\<close> and the total of an outcome in round 0, read through the handles of the
  stored request as \<open>dr_unstake_success\<close> does before and after the call.
\<close>

definition stake_entries :: "outcome \<Rightarrow> u128 \<Rightarrow> unit call" where
  "stake_entries outc n =
     bindM (dr_get_expect_active 0) (\<lambda>request.
     bindM (window_at (adr_resolution_windows request) 0) (\<lambda>window.
     bindM (users_get (rw_user_to_outcome_to_stake window) alice) (\<lambda>m.
     bindM (expect m (Rust ErrUnwrapNone)) (\<lambda>outcome_to_stake.
     bindM (stakes_get outcome_to_stake outc) (\<lambda>u.
     bindM (expect u (Rust ErrUnwrapNone)) (\<lambda>user_stake.
     bindM (stakes_get (rw_outcome_to_stake window) outc) (\<lambda>s.
     bindM (expect s (Rust ErrUnwrapNone)) (\<lambda>total. script
       [assert_eq user_stake n, assert_eq total n]))))))))"

definition dr_new_single_outcome :: "byte_count \<Rightarrow> unit call" where
  "dr_new_single_outcome c = script
    [deploy c token test_config,
     file_request (get_context c token) bob 100 (request_args (Some []) (Some [''a'']) 1500 (Some ''a''))]"

lemma dr_new_single_outcome_holds: "counts 1000000 c \<Longrightarrow> should_panic (Validation (ErrOutcomeList 2 8)) (dr_new_single_outcome c)"
  by (simp add: forward dr_new_single_outcome_def)

definition dr_new_non_whitelisted :: "byte_count \<Rightarrow> unit call" where
  "dr_new_non_whitelisted c = script
    [deploy c token test_config,
     file_request (get_context c token) alice 100 (request_args (Some []) None 0 (Some ''a''))]"

lemma dr_new_non_whitelisted_holds: "counts 1000000 c \<Longrightarrow> should_panic (Access ErrNotWhitelisted) (dr_new_non_whitelisted c)"
  by (simp add: forward dr_new_non_whitelisted_def)

definition dr_new_non_payment_token :: "byte_count \<Rightarrow> unit call" where
  "dr_new_non_payment_token c = script
    [deploy c alice test_config,
     file_request (get_context c alice) bob 100 (request_args (Some []) None 0 (Some ''a''))]"

lemma dr_new_non_payment_token_holds: "counts 1000000 c \<Longrightarrow> should_panic (Access (ErrSender token)) (dr_new_non_payment_token c)"
  by (simp add: forward dr_new_non_payment_token_def)

definition dr_new_arg_source_exceed :: "byte_count \<Rightarrow> unit call" where
  "dr_new_arg_source_exceed c = script
    [deploy c token test_config,
     file_request (get_context c token) bob 100 (request_args (Some (map (\<lambda>i. \<lparr>end_point = i, source_path = i\<rparr>) [''1'', ''2'', ''3'', ''4'', ''5'', ''6'', ''7'', ''8'', ''9''])) None 1000 None)]"

lemma dr_new_arg_source_exceed_holds: "counts 1000000 c \<Longrightarrow> should_panic (Validation (ErrTooManySources 8)) (dr_new_arg_source_exceed c)"
  by (simp add: forward dr_new_arg_source_exceed_def)

definition dr_new_arg_outcome_exceed :: "byte_count \<Rightarrow> unit call" where
  "dr_new_arg_outcome_exceed c = script
    [deploy c token test_config,
     file_request (get_context c token) bob 100 (request_args (Some []) (Some [''1'', ''2'', ''3'', ''4'', ''5'', ''6'', ''7'', ''8'', ''9'']) 1000 (Some ''a''))]"

lemma dr_new_arg_outcome_exceed_holds: "counts 1000000 c \<Longrightarrow> should_panic (Validation (ErrOutcomeList 2 8)) (dr_new_arg_outcome_exceed c)"
  by (simp add: forward dr_new_arg_outcome_exceed_def)

definition dr_description_required_no_sources :: "byte_count \<Rightarrow> unit call" where
  "dr_description_required_no_sources c = script
    [deploy c token test_config,
     file_request (get_context c token) bob 100 (request_args (Some []) None 1000 None)]"

lemma dr_description_required_no_sources_holds: "counts 1000000 c \<Longrightarrow> should_panic (Validation ErrDescriptionMissing) (dr_description_required_no_sources c)"
  by (simp add: forward dr_description_required_no_sources_def)

definition dr_new_arg_challenge_period_below_min :: "byte_count \<Rightarrow> unit call" where
  "dr_new_arg_challenge_period_below_min c = script
    [deploy c token test_config,
     file_request (get_context c token) bob 100 (request_args (Some []) None 999 (Some ''a''))]"

lemma dr_new_arg_challenge_period_below_min_holds: "counts 1000000 c \<Longrightarrow> should_panic (Validation (ErrChallengeTooShort 1000)) (dr_new_arg_challenge_period_below_min c)"
  by (simp add: forward dr_new_arg_challenge_period_below_min_def)

definition dr_new_arg_challenge_period_exceed :: "byte_count \<Rightarrow> unit call" where
  "dr_new_arg_challenge_period_exceed c = script
    [deploy c token test_config,
     file_request (get_context c token) bob 100 (request_args (Some []) None 3001 (Some ''a''))]"

lemma dr_new_arg_challenge_period_exceed_holds: "counts 1000000 c \<Longrightarrow> should_panic (Validation (ErrChallengeTooLong 3000)) (dr_new_arg_challenge_period_exceed c)"
  by (simp add: forward dr_new_arg_challenge_period_exceed_def)

definition dr_new_not_enough_amount :: "byte_count \<Rightarrow> unit call" where
  "dr_new_not_enough_amount c = script
    [deploy c token test_config,
     file_request (get_context c token) bob 90 (request_args (Some []) None 1500 (Some ''a''))]"

lemma dr_new_not_enough_amount_holds: "counts 1000000 c \<Longrightarrow> should_panic (Validation (ErrValidityBond 100 90)) (dr_new_not_enough_amount c)"
  by (simp add: forward dr_new_not_enough_amount_def)

definition dr_new_success :: "byte_count \<Rightarrow> unit call" where
  "dr_new_success c = script
    [deploy c token test_config,
     bindM (dr_new test_sdk (get_context c token) bob 100 (request_args (Some []) None 1500 (Some ''a''))) (\<lambda>amount. assert_eq amount 0)]"

lemma dr_new_success_holds: "counts 1000000 c \<Longrightarrow> passes (dr_new_success c)"
  by (simp add: forward dr_new_success_def)

definition dr_stake_non_stake_token :: "byte_count \<Rightarrow> unit call" where
  "dr_stake_non_stake_token c = script
    [deploy c token test_config,
     dr_new_helper (get_context c token),
     stake (get_context c alice) alice 100 ''42'']"

lemma dr_stake_non_stake_token_holds: "counts 1000000 c \<Longrightarrow> should_panic (Access (ErrSender token)) (dr_stake_non_stake_token c)"
  by (simp add: forward dr_stake_non_stake_token_def)

definition dr_stake_not_existing :: "byte_count \<Rightarrow> unit call" where
  "dr_stake_not_existing c = script
    [deploy c token test_config,
     stake (get_context c token) alice 100 ''42'']"

lemma dr_stake_not_existing_holds: "counts 1000000 c \<Longrightarrow> should_panic (Request ErrNoSuchRequest) (dr_stake_not_existing c)"
  by (simp add: forward dr_stake_not_existing_def)

definition dr_stake_incompatible_answer :: "byte_count \<Rightarrow> unit call" where
  "dr_stake_incompatible_answer c = script
    [deploy c token test_config,
     dr_new_helper (get_context c token),
     stake (get_context c token) alice 100 ''42'']"

lemma dr_stake_incompatible_answer_holds: "counts 1000000 c \<Longrightarrow> should_panic (Request ErrIncompatibleOutcome) (dr_stake_incompatible_answer c)"
  by (simp add: forward dr_stake_incompatible_answer_def)

definition dr_stake_finalized_market :: "byte_count \<Rightarrow> unit call" where
  "dr_stake_finalized_market c = script
    [deploy c token test_config,
     dr_new_helper (get_context c token),
     stake (get_context c token) alice 200 ''a'',
     finalize_helper (later c token 1501) 0,
     stake (later c token 1501) alice 200 ''b'']"

lemma dr_stake_finalized_market_holds: "counts 1000000 c \<Longrightarrow> should_panic (Request ErrAlreadyFinalized) (dr_stake_finalized_market c)"
  by (simp add: forward dr_stake_finalized_market_def)

definition dr_invalid_outcome_list :: "byte_count \<Rightarrow> unit call" where
  "dr_invalid_outcome_list c = script
    [deploy c token test_config,
     file_request (get_context c token) bob 100 (request_args (Some []) (Some [''a'']) 1500 (Some ''a'')),
     stake (get_context c token) alice 200 ''a'']"

lemma dr_invalid_outcome_list_holds: "counts 1000000 c \<Longrightarrow> should_panic (Validation (ErrOutcomeList 2 8)) (dr_invalid_outcome_list c)"
  by (simp add: forward dr_invalid_outcome_list_def)

definition dr_stake_success_partial :: "byte_count \<Rightarrow> unit call" where
  "dr_stake_success_partial c = script
    [deploy c token test_config,
     dr_new_helper (get_context c token),
     stake (get_context c token) alice 5 ''a'',
     bindM (dr_get_expect_active 0) (\<lambda>request. script
       [assert_eq (vec_len (adr_resolution_windows request)) 1,
        bindM (window_at (adr_resolution_windows request) 0) (\<lambda>round0. script
          [assert_eq (rw_round round0) 0, assert_eq (rw_end_time round0) 1500, assert_eq (rw_bond_size round0) 200])])]"

lemma dr_stake_success_partial_holds: "counts 1000000 c \<Longrightarrow> passes (dr_stake_success_partial c)"
  by (simp add: forward dr_stake_success_partial_def)

definition dr_stake_success_full_at_t1 :: "byte_count \<Rightarrow> unit call" where
  "dr_stake_success_full_at_t1 c = script
    [deploy c token test_config,
     dr_new_helper (get_context c token),
     stake (get_context c token) alice 200 ''a'',
     stake (get_context c token) bob 400 ''b'',
     bindM (dr_get_expect_active 0) (\<lambda>request. script
       [assert_eq (vec_len (adr_resolution_windows request)) 3,
        bindM (window_at (adr_resolution_windows request) 0) (\<lambda>round0. script
          [assert_eq (rw_round round0) 0, assert_eq (rw_end_time round0) 1500, assert_eq (rw_bond_size round0) 200]),
        bindM (window_at (adr_resolution_windows request) 1) (\<lambda>round1. script
          [assert_eq (rw_round round1) 1, assert_eq (rw_end_time round1) 1500, assert_eq (rw_bond_size round1) 400]),
        bindM (window_at (adr_resolution_windows request) 2) (\<lambda>round2. script
          [assert_eq (rw_round round2) 2, assert_eq (rw_end_time round2) 1000, assert_eq (rw_bond_size round2) 800])])]"

lemma dr_stake_success_full_at_t1_holds: "counts 1000000 c \<Longrightarrow> passes (dr_stake_success_full_at_t1 c)"
  by (simp add: forward dr_stake_success_full_at_t1_def)

definition dr_stake_success_overstake_at_t600 :: "byte_count \<Rightarrow> unit call" where
  "dr_stake_success_overstake_at_t600 c = script
    [deploy c token test_config,
     dr_new_helper (get_context c token),
     stake (later c token 600) alice 300 ''a'',
     stake (later c token 600) alice 800 ''b'',
     bindM (dr_get_expect_active 0) (\<lambda>request. script
       [assert_eq (vec_len (adr_resolution_windows request)) 3,
        bindM (window_at (adr_resolution_windows request) 0) (\<lambda>round0. script
          [assert_eq (rw_round round0) 0, assert_eq (rw_end_time round0) 2100, assert_eq (rw_bond_size round0) 200]),
        bindM (window_at (adr_resolution_windows request) 1) (\<lambda>round1. script
          [assert_eq (rw_round round1) 1, assert_eq (rw_end_time round1) 2100, assert_eq (rw_bond_size round1) 400]),
        bindM (window_at (adr_resolution_windows request) 2) (\<lambda>round2. script
          [assert_eq (rw_round round2) 2, assert_eq (rw_end_time round2) 1600, assert_eq (rw_bond_size round2) 800])])]"

lemma dr_stake_success_overstake_at_t600_holds: "counts 1000000 c \<Longrightarrow> passes (dr_stake_success_overstake_at_t600 c)"
  by (simp add: forward dr_stake_success_overstake_at_t600_def)

definition dr_stake_same_outcome :: "byte_count \<Rightarrow> unit call" where
  "dr_stake_same_outcome c = script
    [deploy c token test_config,
     dr_new_helper (get_context c token),
     stake (get_context c token) alice 300 ''a'',
     stake (get_context c token) alice 500 ''a'']"

lemma dr_stake_same_outcome_holds: "counts 1000000 c \<Longrightarrow> should_panic (Request ErrIncompatibleRound) (dr_stake_same_outcome c)"
  by (simp add: forward dr_stake_same_outcome_def)

definition dr_unstake_invalid_id :: "byte_count \<Rightarrow> unit call" where
  "dr_unstake_invalid_id c = script
    [deploy c token test_config,
     dr_unstake test_sdk (get_context c token) 0 0 (answer ''a'') 0]"

lemma dr_unstake_invalid_id_holds: "counts 1000000 c \<Longrightarrow> should_panic (Request ErrDataRequestNotFound) (dr_unstake_invalid_id c)"
  by (simp add: forward dr_unstake_invalid_id_def)

definition dr_unstake_bonded_outcome :: "byte_count \<Rightarrow> unit call" where
  "dr_unstake_bonded_outcome c = script
    [deploy c token test_config,
     dr_new_helper (get_context c token),
     dr_finalize_helper c ''a'',
     dr_unstake test_sdk (later c token 1501) 0 0 (answer ''a'') 0]"

lemma dr_unstake_bonded_outcome_holds: "counts 1000000 c \<Longrightarrow> should_panic (Request ErrBondedOutcome) (dr_unstake_bonded_outcome c)"
  by (simp add: forward dr_unstake_bonded_outcome_def)

definition dr_unstake_bonded_outcome_c :: "byte_count \<Rightarrow> unit call" where
  "dr_unstake_bonded_outcome_c c = script
    [deploy c token test_config,
     dr_new_helper (get_context c token),
     dr_finalize_helper c ''a'',
     dr_unstake test_sdk (later c token 1501) 0 0 (answer ''c'') 1]"

lemma dr_unstake_bonded_outcome_c_holds: "counts 1000000 c \<Longrightarrow> should_panic (Request (ErrLessStaked token 0)) (dr_unstake_bonded_outcome_c c)"
  by (simp add: forward dr_unstake_bonded_outcome_c_def)

definition dr_unstake_too_much :: "byte_count \<Rightarrow> unit call" where
  "dr_unstake_too_much c = script
    [deploy c token test_config,
     dr_new_helper (get_context c token),
     stake (get_context c token) alice 10 ''b'',
     dr_unstake test_sdk (get_context c alice) 0 0 (answer ''b'') 11]"

lemma dr_unstake_too_much_holds: "counts 1000000 c \<Longrightarrow> should_panic (Request (ErrLessStaked alice 10)) (dr_unstake_too_much c)"
  by (simp add: forward dr_unstake_too_much_def)

definition dr_unstake_success :: "byte_count \<Rightarrow> unit call" where
  "dr_unstake_success c = script
    [deploy c token test_config,
     dr_new_helper (get_context c token),
     stake (get_context c token) alice 10 ''b'',
     stake_entries (answer ''b'') 10,
     dr_unstake test_sdk (get_context c alice) 0 0 (answer ''b'') 1,
     stake_entries (answer ''b'') 9]"

lemma dr_unstake_success_holds: "counts 1000000 c \<Longrightarrow> passes (dr_unstake_success c)"
  by (simp add: forward dr_unstake_success_def stake_entries_def [THEN fun_cong])

definition dr_tvl_increases :: "byte_count \<Rightarrow> unit call" where
  "dr_tvl_increases c = script
    [deploy c token test_config,
     dr_new_helper (get_context c token),
     stake (get_context c token) alice 10 ''b'']"

lemma dr_tvl_increases_holds: "counts 1000000 c \<Longrightarrow> passes (dr_tvl_increases c)"
  by (simp add: forward dr_tvl_increases_def)

end
