(* ===== verification/Tests_Finalization.thy ===== *)
theory Tests_Finalization
  imports Test_Fixtures
begin

text \<open>
  The unit tests of \<open>oracle/src/data_request.rs\<close> on finalization, claims, the final arbitrator, the
  provider, the views and the pause flag: each test function as a definition, and the fact that
  it passes, or panics as it should.
\<close>

text \<open>\<open>match\<close> on an unwrapped summary that must be the active request with the given id.\<close>

definition expect_active_id :: "data_request_summary option \<Rightarrow> u64 \<Rightarrow> unit call" where
  "expect_active_id s i =
     bindM (expect s (Rust ErrUnwrapNone)) (\<lambda>x.
     case x of
       ActiveSummary a \<Rightarrow> assert_eq (ads_id a) i
     | FinalizedSummary _ \<Rightarrow> panic (Rust ErrUnreachable))"

lemmas forward_views = expect_active_id_def [THEN fun_cong] toggle_pause_def [THEN fun_cong]
  get_latest_request_def [THEN fun_cong] get_request_by_id_def [THEN fun_cong] get_requests_def [THEN fun_cong]
  summarize_def [THEN fun_cong] adr_summarize_def [THEN fun_cong] windows_iter_def [THEN fun_cong]
  collect.simps [THEN fun_cong]

definition dr_finalize_final_arb :: "byte_count \<Rightarrow> unit call" where
  "dr_finalize_final_arb c = script
    [deploy c token (test_config\<lparr>cfg_final_arbitrator_invoke_amount := 150\<rparr>),
     dr_new_helper (get_context c token),
     stake (get_context c token) alice 200 ''a'',
     dr_finalize test_sdk (get_context c token) 0]"

lemma dr_finalize_final_arb_holds: "counts 1000000 c \<Longrightarrow> should_panic (Request (ErrOnlyFinalArbitrator alice)) (dr_finalize_final_arb c)"
  by (simp add: forward dr_finalize_final_arb_def)

definition dr_finalize_no_resolutions :: "byte_count \<Rightarrow> unit call" where
  "dr_finalize_no_resolutions c = script
    [deploy c token test_config,
     dr_new_helper (get_context c token),
     finalize_helper (get_context c token) 0]"

lemma dr_finalize_no_resolutions_holds: "counts 1000000 c \<Longrightarrow> should_panic (Request ErrStillInProgress) (dr_finalize_no_resolutions c)"
  by (simp add: forward dr_finalize_no_resolutions_def)

definition dr_finalize_active_challenge :: "byte_count \<Rightarrow> unit call" where
  "dr_finalize_active_challenge c = script
    [deploy c token test_config,
     dr_new_helper (get_context c token),
     stake (get_context c token) alice 200 ''a'',
     dr_finalize test_sdk (get_context c token) 0]"

lemma dr_finalize_active_challenge_holds: "counts 1000000 c \<Longrightarrow> should_panic (Request ErrNotTimedOut) (dr_finalize_active_challenge c)"
  by (simp add: forward dr_finalize_active_challenge_def)

definition dr_finalize_success :: "byte_count \<Rightarrow> unit call" where
  "dr_finalize_success c = script
    [deploy c token test_config,
     dr_new_helper (get_context c token),
     stake (get_context c token) alice 200 ''a'',
     finalize_helper (later c token 1501) 0,
     bindM (dr_get_expect_finalized 0) (\<lambda>d. script
       [assert_eq (vec_len (fdr_resolution_windows d)) 2,
        assert_eq (fdr_finalized_outcome d) (answer ''a'')])]"

lemma dr_finalize_success_holds: "counts 1000000 c \<Longrightarrow> passes (dr_finalize_success c)"
  by (simp add: forward dr_finalize_success_def)

definition dr_claim_invalid_id :: "byte_count \<Rightarrow> unit call" where
  "dr_claim_invalid_id c = script
    [deploy c token test_config,
     drop_result (dr_claim test_sdk (get_context c token) alice 0)]"

lemma dr_claim_invalid_id_holds: "counts 1000000 c \<Longrightarrow> should_panic (Request ErrNoSuchRequest) (dr_claim_invalid_id c)"
  by (simp add: forward dr_claim_invalid_id_def)

definition dr_claim_success :: "byte_count \<Rightarrow> unit call" where
  "dr_claim_success c = script
    [deploy c token test_config,
     dr_new_helper (get_context c token),
     dr_finalize_helper c ''a'',
     drop_result (dr_claim test_sdk (later c token 1501) alice 0)]"

lemma dr_claim_success_holds: "counts 1000000 c \<Longrightarrow> passes (dr_claim_success c)"
  by (simp add: forward dr_claim_success_def)

definition d_claim_single :: "byte_count \<Rightarrow> unit call" where
  "d_claim_single c = script
    [deploy c token test_config,
     dr_new_helper (get_context c token),
     dr_finalize_helper c ''a'',
     bindM (dr_get_expect_finalized 0) (\<lambda>d. script
       [claims (later c token 1501) d alice 200])]"

lemma d_claim_single_holds: "counts 1000000 c \<Longrightarrow> passes (d_claim_single c)"
  by (simp add: forward d_claim_single_def)

definition d_claim_same_twice :: "byte_count \<Rightarrow> unit call" where
  "d_claim_same_twice c = script
    [deploy c token test_config,
     dr_new_helper (get_context c token),
     dr_finalize_helper c ''a'',
     bindM (dr_get_expect_finalized 0) (\<lambda>d. script
       [claims (later c token 1501) d alice 200,
        claims (later c token 1501) d alice 0])]"

lemma d_claim_same_twice_holds: "counts 1000000 c \<Longrightarrow> passes (d_claim_same_twice c)"
  by (simp add: forward d_claim_same_twice_def)

definition d_validity_bond :: "byte_count \<Rightarrow> unit call" where
  "d_validity_bond c = script
    [deploy c token (test_config\<lparr>cfg_min_resolution_bond := 2, cfg_validity_bond := 2\<rparr>),
     dr_new_helper (get_context c token),
     dr_finalize_helper c ''a'',
     bindM (dr_get_expect_finalized 0) (\<lambda>d. script
       [claims (later c token 1501) d alice 294])]"

lemma d_validity_bond_holds: "counts 1000000 c \<Longrightarrow> passes (d_validity_bond c)"
  by (simp add: forward d_validity_bond_def)

definition d_claim_double :: "byte_count \<Rightarrow> unit call" where
  "d_claim_double c = script
    [deploy c token test_config,
     dr_new_helper (get_context c token),
     stake (get_context c token) bob 100 ''a'',
     dr_finalize_helper c ''a'',
     bindM (dr_get_expect_finalized 0) (\<lambda>d. script
       [claims (later c token 1501) d alice 100,
        claims (later c token 1501) d bob 100])]"

lemma d_claim_double_holds: "counts 1000000 c \<Longrightarrow> passes (d_claim_double c)"
  by (simp add: forward d_claim_double_def)

definition d_claim_2rounds_single :: "byte_count \<Rightarrow> unit call" where
  "d_claim_2rounds_single c = script
    [deploy c token (test_config\<lparr>cfg_final_arbitrator_invoke_amount := 1000\<rparr>),
     dr_new_helper (get_context c token),
     stake (get_context c token) bob 200 ''a'',
     dr_finalize_helper c ''b'',
     bindM (dr_get_expect_finalized 0) (\<lambda>d. script
       [claims (later c token 1501) d alice 600,
        claims (later c token 1501) d bob 0])]"

lemma d_claim_2rounds_single_holds: "counts 1000000 c \<Longrightarrow> passes (d_claim_2rounds_single c)"
  by (simp add: forward d_claim_2rounds_single_def)

definition d_claim_2rounds_double :: "byte_count \<Rightarrow> unit call" where
  "d_claim_2rounds_double c = script
    [deploy c token (test_config\<lparr>cfg_final_arbitrator_invoke_amount := 1000\<rparr>),
     dr_new_helper (get_context c token),
     stake (get_context c token) bob 200 ''a'',
     stake (get_context c token) carol 100 ''b'',
     dr_finalize_helper c ''b'',
     bindM (dr_get_expect_finalized 0) (\<lambda>d. script
       [claims (later c token 1501) d alice 450,
        claims (later c token 1501) d bob 0,
        claims (later c token 1501) d carol 150])]"

lemma d_claim_2rounds_double_holds: "counts 1000000 c \<Longrightarrow> passes (d_claim_2rounds_double c)"
  by (simp add: forward d_claim_2rounds_double_def)

definition d_claim_3rounds_single :: "byte_count \<Rightarrow> unit call" where
  "d_claim_3rounds_single c = script
    [deploy c token (test_config\<lparr>cfg_final_arbitrator_invoke_amount := 1000\<rparr>),
     dr_new_helper (get_context c token),
     stake (get_context c token) bob 200 ''a'',
     stake (get_context c token) carol 400 ''b'',
     dr_finalize_helper c ''a'',
     bindM (dr_get_expect_finalized 0) (\<lambda>d. script
       [claims (later c token 1501) d alice 1120,
        claims (later c token 1501) d bob 280,
        claims (later c token 1501) d carol 0])]"

lemma d_claim_3rounds_single_holds: "counts 1000000 c \<Longrightarrow> passes (d_claim_3rounds_single c)"
  by (simp add: forward d_claim_3rounds_single_def)

definition d_claim_3rounds_double_round0 :: "byte_count \<Rightarrow> unit call" where
  "d_claim_3rounds_double_round0 c = script
    [deploy c token (test_config\<lparr>cfg_final_arbitrator_invoke_amount := 1000\<rparr>),
     dr_new_helper (get_context c token),
     stake (get_context c token) bob 100 ''a'',
     stake (get_context c token) dave 100 ''a'',
     stake (get_context c token) carol 400 ''b'',
     dr_finalize_helper c ''a'',
     bindM (dr_get_expect_finalized 0) (\<lambda>d. script
       [claims (later c token 1501) d alice 1120,
        claims (later c token 1501) d bob 140,
        claims (later c token 1501) d carol 0,
        claims (later c token 1501) d dave 140])]"

lemma d_claim_3rounds_double_round0_holds: "counts 1000000 c \<Longrightarrow> passes (d_claim_3rounds_double_round0 c)"
  by (simp add: forward d_claim_3rounds_double_round0_def)

definition d_claim_3rounds_double_round2 :: "byte_count \<Rightarrow> unit call" where
  "d_claim_3rounds_double_round2 c = script
    [deploy c token (test_config\<lparr>cfg_final_arbitrator_invoke_amount := 1000\<rparr>),
     dr_new_helper (get_context c token),
     stake (get_context c token) bob 200 ''a'',
     stake (get_context c token) carol 400 ''b'',
     stake (get_context c token) dave 300 ''a'',
     dr_finalize_helper c ''a'',
     bindM (dr_get_expect_finalized 0) (\<lambda>d. script
       [claims (later c token 1501) d alice 700,
        claims (later c token 1501) d bob 280,
        claims (later c token 1501) d carol 0,
        claims (later c token 1501) d dave 420])]"

lemma d_claim_3rounds_double_round2_holds: "counts 1000000 c \<Longrightarrow> passes (d_claim_3rounds_double_round2 c)"
  by (simp add: forward d_claim_3rounds_double_round2_def)

definition d_claim_final_arb :: "byte_count \<Rightarrow> unit call" where
  "d_claim_final_arb c = script
    [deploy c token config_for_quick_final_arb,
     dr_new_helper (get_context c token),
     stake (get_context c token) alice 200 ''a'',
     stake (get_context c token) bob 400 ''b'',
     drop_result (dr_final_arbitrator_finalize test_sdk (get_context c alice) 0 (answer ''a'')),
     bindM (dr_get_expect_finalized 0) (\<lambda>d. script
       [claims (get_context c alice) d alice 600,
        claims (get_context c alice) d bob 0])]"

lemma d_claim_final_arb_holds: "counts 1000000 c \<Longrightarrow> passes (d_claim_final_arb c)"
  by (simp add: forward d_claim_final_arb_def)

definition d_claim_final_arb_extra_round :: "byte_count \<Rightarrow> unit call" where
  "d_claim_final_arb_extra_round c = script
    [deploy c token (test_config\<lparr>cfg_final_arbitrator_invoke_amount := 600\<rparr>),
     dr_new_helper (get_context c token),
     stake (get_context c token) alice 200 ''a'',
     stake (get_context c token) bob 400 ''b'',
     stake (get_context c token) carol 800 ''a'',
     drop_result (dr_final_arbitrator_finalize test_sdk (get_context c alice) 0 (answer ''a'')),
     bindM (dr_get_expect_finalized 0) (\<lambda>d. script
       [claims (get_context c alice) d alice 280,
        claims (get_context c alice) d bob 0,
        claims (get_context c alice) d carol 1120])]"

lemma d_claim_final_arb_extra_round_holds: "counts 1000000 c \<Longrightarrow> passes (d_claim_final_arb_extra_round c)"
  by (simp add: forward d_claim_final_arb_extra_round_def)

definition d_claim_final_arb_extra_round2 :: "byte_count \<Rightarrow> unit call" where
  "d_claim_final_arb_extra_round2 c = script
    [deploy c token (test_config\<lparr>cfg_final_arbitrator_invoke_amount := 600\<rparr>),
     dr_new_helper (get_context c token),
     stake (get_context c token) alice 200 ''a'',
     stake (get_context c token) bob 400 ''b'',
     stake (get_context c token) carol 800 ''a'',
     drop_result (dr_final_arbitrator_finalize test_sdk (get_context c alice) 0 (answer ''b'')),
     bindM (dr_get_expect_finalized 0) (\<lambda>d. script
       [claims (get_context c alice) d alice 0,
        claims (get_context c alice) d bob 1400,
        claims (get_context c alice) d carol 0])]"

lemma d_claim_final_arb_extra_round2_holds: "counts 1000000 c \<Longrightarrow> passes (d_claim_final_arb_extra_round2 c)"
  by (simp add: forward d_claim_final_arb_extra_round2_def)

definition dr_final_arb_invoked :: "byte_count \<Rightarrow> unit call" where
  "dr_final_arb_invoked c = script
    [deploy c token config_for_quick_final_arb,
     dr_new_helper (get_context c token),
     stake (get_context c token) alice 200 ''a'',
     stake (get_context c token) bob 400 ''b'',
     stake (get_context c token) carol 400 ''a'']"

lemma dr_final_arb_invoked_holds: "counts 1000000 c \<Longrightarrow> should_panic (Request (ErrArbitratorInvoked 0)) (dr_final_arb_invoked c)"
  by (simp add: forward dr_final_arb_invoked_def)

definition dr_final_arb_invalid_outcome :: "byte_count \<Rightarrow> unit call" where
  "dr_final_arb_invalid_outcome c = script
    [deploy c token test_config,
     dr_new_helper (get_context c token),
     stake (get_context c token) alice 200 ''a'',
     drop_result (dr_final_arbitrator_finalize test_sdk (get_context c alice) 0 (answer ''c''))]"

lemma dr_final_arb_invalid_outcome_holds: "counts 1000000 c \<Longrightarrow> should_panic (Request ErrIncompatibleOutcome) (dr_final_arb_invalid_outcome c)"
  by (simp add: forward dr_final_arb_invalid_outcome_def)

definition dr_final_arb_non_arb :: "byte_count \<Rightarrow> unit call" where
  "dr_final_arb_non_arb c = script
    [deploy c token test_config,
     dr_new_helper (get_context c token),
     stake (get_context c token) alice 200 ''a'',
     drop_result (dr_final_arbitrator_finalize test_sdk (get_context c bob) 0 (answer ''b''))]"

lemma dr_final_arb_non_arb_holds: "counts 1000000 c \<Longrightarrow> should_panic (Access (ErrNotFinalArbitrator alice)) (dr_final_arb_non_arb c)"
  by (simp add: forward dr_final_arb_non_arb_def)

definition dr_final_arb_twice :: "byte_count \<Rightarrow> unit call" where
  "dr_final_arb_twice c = script
    [deploy c token config_for_quick_final_arb,
     dr_new_helper (get_context c token),
     stake (get_context c token) alice 200 ''a'',
     stake (get_context c token) bob 400 ''b'',
     drop_result (dr_final_arbitrator_finalize test_sdk (get_context c alice) 0 (answer ''b'')),
     drop_result (dr_final_arbitrator_finalize test_sdk (get_context c alice) 0 (answer ''a''))]"

lemma dr_final_arb_twice_holds: "counts 1000000 c \<Longrightarrow> should_panic (Request ErrAlreadyFinalized) (dr_final_arb_twice c)"
  by (simp add: forward dr_final_arb_twice_def)

definition dr_final_arb_execute :: "byte_count \<Rightarrow> unit call" where
  "dr_final_arb_execute c = script
    [deploy c token config_for_quick_final_arb,
     dr_new_helper (get_context c token),
     stake (get_context c token) alice 200 ''a'',
     stake (get_context c token) bob 400 ''b'',
     drop_result (dr_final_arbitrator_finalize test_sdk (get_context c alice) 0 (answer ''b'')),
     bindM (dr_get_expect_finalized 0) (\<lambda>d. script
       [assert_eq (vec_len (fdr_resolution_windows d)) 2,
        assert_eq (fdr_finalized_outcome d) (answer ''b'')])]"

lemma dr_final_arb_execute_holds: "counts 1000000 c \<Longrightarrow> passes (dr_final_arb_execute c)"
  by (simp add: forward dr_final_arb_execute_def)

definition dr_fixed_fee :: "byte_count \<Rightarrow> unit call" where
  "dr_fixed_fee c = script
    [deploy c token (test_config\<lparr>cfg_min_resolution_bond := 2, cfg_validity_bond := 2\<rparr>),
     file_request (get_context c token) bob (20 + 2) (request_args (Some []) (Some [''a'', ''b'']) 1500 (Some ''a'')),
     dr_finalize_helper c ''a'',
     bindM (dr_get_expect_finalized 0) (\<lambda>d. script
       [claims (later c token 1501) d alice 60])]"

lemma dr_fixed_fee_holds: "counts 1000000 c \<Longrightarrow> passes (dr_fixed_fee c)"
  by (simp add: forward dr_fixed_fee_def)

definition dr_get_methods :: "byte_count \<Rightarrow> unit call" where
  "dr_get_methods c = script
    [deploy c token test_config,
     dr_new_helper (get_context c token),
     dr_new_helper (get_context c token),
     dr_new_helper (get_context c token),
     bindM get_latest_request (\<lambda>s. expect_active_id s 2),
     bindM (get_request_by_id 1) (\<lambda>s. expect_active_id s 1),
     bindM (get_requests 0 1) (\<lambda>ss. expect_active_id (Some (ss ! 0)) 0),
     bindM (get_requests 1 1) (\<lambda>ss. assert_eq (length ss) 1),
     bindM (get_requests 1 2) (\<lambda>ss. assert_eq (length ss) 2),
     bindM (get_requests 0 3) (\<lambda>ss. assert_eq (length ss) 3)]"

lemma dr_get_methods_holds: "counts 1000000 c \<Longrightarrow> passes (dr_get_methods c)"
  by (simp add: forward forward_views dr_get_methods_def)

definition dr_pausable :: "byte_count \<Rightarrow> unit call" where
  "dr_pausable c = script
    [deploy c token test_config,
     toggle_pause (get_context c gov),
     file_request (get_context c gov) bob 100 (request_args (Some []) None 1500 (Some ''a''))]"

lemma dr_pausable_holds: "counts 1000000 c \<Longrightarrow> should_panic (Access ErrPaused) (dr_pausable c)"
  by (simp add: forward forward_views dr_pausable_def)

definition dr_new_first_party_oracle_fetch_test :: "byte_count \<Rightarrow> unit call" where
  "dr_new_first_party_oracle_fetch_test c = script
    [deploy c token test_config,
     file_request (get_context c token) bob 100 ((request_args (Some []) None 1500 (Some ''a''))\<lparr>arg_tags := [], arg_provider := Some bob\<rparr>),
     dr_finalize_by_provider test_sdk (get_context c bob) 0 (answer ''1_000_000'')]"

lemma dr_new_first_party_oracle_fetch_test_holds: "counts 1000000 c \<Longrightarrow> passes (dr_new_first_party_oracle_fetch_test c)"
  by (simp add: forward dr_new_first_party_oracle_fetch_test_def)

definition dr_finalize_non_provider_request :: "byte_count \<Rightarrow> unit call" where
  "dr_finalize_non_provider_request c = script
    [deploy c token test_config,
     file_request (get_context c token) bob 100 ((request_args (Some []) None 1500 (Some ''a''))\<lparr>arg_tags := []\<rparr>),
     dr_finalize_by_provider test_sdk (get_context c carol) 0 (answer ''1_000_000'')]"

lemma dr_finalize_non_provider_request_holds: "counts 1000000 c \<Longrightarrow> should_panic (Access ErrNotProviderRequest) (dr_finalize_non_provider_request c)"
  by (simp add: forward dr_finalize_non_provider_request_def)

definition dr_finalize_from_wrong_provider :: "byte_count \<Rightarrow> unit call" where
  "dr_finalize_from_wrong_provider c = script
    [deploy c token test_config,
     file_request (get_context c token) bob 100 ((request_args (Some []) None 1500 (Some ''a''))\<lparr>arg_tags := [], arg_provider := Some bob\<rparr>),
     dr_finalize_by_provider test_sdk (get_context c carol) 0 (answer ''1_000_000'')]"

lemma dr_finalize_from_wrong_provider_holds: "counts 1000000 c \<Longrightarrow> should_panic (Access ErrWrongProvider) (dr_finalize_from_wrong_provider c)"
  by (simp add: forward dr_finalize_from_wrong_provider_def)

end
