(* ===== verification/Tests_Accounts.thy ===== *)
theory Tests_Accounts
  imports Test_Fixtures
begin

text \<open>
  The unit tests of \<open>whitelist.rs\<close>, \<open>storage_manager.rs\<close>, \<open>fee_config.rs\<close> and \<open>oracle_config.rs\<close>:
  each test function as a definition, and the fact that it passes, or panics as it should.
\<close>

section \<open>Configurations and contexts of the test modules\<close>

definition module_config :: "account \<Rightarrow> u128 \<Rightarrow> u128 \<Rightarrow> oracle_config" where
  "module_config governance bond invoke =
     \<lparr>cfg_gov = governance, cfg_final_arbitrator = alice, cfg_payment_token = token, cfg_stake_token = token,
      cfg_validity_bond = bond, cfg_max_outcomes = 8, cfg_default_challenge_window_duration = 1000,
      cfg_min_initial_challenge_window_duration = 1000, cfg_final_arbitrator_invoke_amount = invoke,
      cfg_fee = \<lparr>flux_market_cap = 50000, total_value_staked = 10000, resolution_fee_percentage = 5000\<rparr>,
      cfg_min_resolution_bond = 100\<rparr>"

definition whitelist_tests_config :: oracle_config where
  "whitelist_tests_config = module_config gov 0 25000000000000000000000000000000"

definition storage_tests_config :: oracle_config where
  "storage_tests_config = module_config gov 100 250"

definition fee_tests_config :: "account \<Rightarrow> oracle_config" where
  "fee_tests_config governance = module_config governance 0 25000000000000000000000000000000"

definition config_tests_config :: "account \<Rightarrow> oracle_config" where
  "config_tests_config governance = module_config governance 1 25000000000000000000000000000000"

definition with_deposit :: "byte_count \<Rightarrow> account \<Rightarrow> u128 \<Rightarrow> oenv" where
  "with_deposit c a n = (get_context c a)\<lparr>attached_deposit := n\<rparr>"

definition assert_true :: "bool \<Rightarrow> unit call" where
  "assert_true b = ensure b (Rust ErrUnreachable)"

lemma with_deposit_simps [simp]:
  "predecessor (with_deposit c a n) = a" "attached_deposit (with_deposit c a n) = n"
  "storage_usage (with_deposit c a n) = c"
  by (simp_all add: with_deposit_def)

lemmas forward_modules = module_config_def whitelist_tests_config_def storage_tests_config_def
  fee_tests_config_def config_tests_config_def assert_true_def [THEN fun_cong]
  foreach.simps [THEN fun_cong]

section \<open>whitelist.rs\<close>

definition contains :: "account \<Rightarrow> bool \<Rightarrow> unit call" where
  "contains a b = bindM (whitelist_contains a) (\<lambda>listed. assert_true (listed = b))"

definition setting_initial_whitelist :: "byte_count \<Rightarrow> unit call" where
  "setting_initial_whitelist c = script
    [deploy c carol whitelist_tests_config, contains alice False, contains bob True, contains carol True]"

definition whitelist_add_remove :: "byte_count \<Rightarrow> unit call" where
  "whitelist_add_remove c = script
    [deploy c gov whitelist_tests_config, contains alice False,
     add_to_whitelist test_sdk (get_context c gov) (registry_entry alice), contains alice True,
     remove_from_whitelist test_sdk (get_context c gov) (registry_entry alice), contains alice False]"

definition whitelist_assert_passes_when_empty :: "byte_count \<Rightarrow> unit call" where
  "whitelist_assert_passes_when_empty c = script
    [contract_new test_sdk (get_context c gov) None whitelist_tests_config, assert_whitelisted alice]"

definition only_gov_can_add :: "byte_count \<Rightarrow> unit call" where
  "only_gov_can_add c = script
    [deploy c alice whitelist_tests_config,
     add_to_whitelist test_sdk (get_context c alice) (registry_entry alice)]"

definition only_gov_can_remove :: "byte_count \<Rightarrow> unit call" where
  "only_gov_can_remove c = script
    [deploy c alice whitelist_tests_config,
     remove_from_whitelist test_sdk (get_context c alice) (registry_entry alice)]"

lemmas forward_whitelist = forward forward_modules contains_def [THEN fun_cong]
  add_to_whitelist_def [THEN fun_cong] remove_from_whitelist_def [THEN fun_cong]

lemma setting_initial_whitelist_holds: "counts 1000000 c \<Longrightarrow> passes (setting_initial_whitelist c)"
  by (simp add: forward_whitelist setting_initial_whitelist_def)

lemma whitelist_add_remove_holds: "counts 1000000 c \<Longrightarrow> passes (whitelist_add_remove c)"
  by (simp add: forward_whitelist whitelist_add_remove_def)

lemma whitelist_assert_passes_when_empty_holds: "counts 1000000 c \<Longrightarrow> passes (whitelist_assert_passes_when_empty c)"
  by (simp add: forward_whitelist whitelist_assert_passes_when_empty_def)

lemma only_gov_can_add_holds: "counts 1000000 c \<Longrightarrow> should_panic (Access (ErrNotGov gov)) (only_gov_can_add c)"
  by (simp add: forward_whitelist only_gov_can_add_def)

lemma only_gov_can_remove_holds: "counts 1000000 c \<Longrightarrow> should_panic (Access (ErrNotGov gov)) (only_gov_can_remove c)"
  by (simp add: forward_whitelist only_gov_can_remove_def)

section \<open>storage_manager.rs\<close>

definition available_is :: "account \<Rightarrow> u128 \<Rightarrow> unit call" where
  "available_is a n = bindM (get_storage_account a) (\<lambda>b. assert_eq (asb_available b) n)"

definition one_near :: u128 where
  "one_near = 1000000000000000000000000"

definition deposit_one :: "byte_count \<Rightarrow> unit call" where
  "deposit_one c = drop_result (storage_deposit (with_deposit c alice one_near) (Some alice))"

definition storage_manager_deposit :: "byte_count \<Rightarrow> unit call" where
  "storage_manager_deposit c = script
    [deploy c token storage_tests_config, available_is alice 0, deposit_one c, available_is alice one_near,
     deposit_one c, available_is alice (one_near * 2)]"

definition storage_manager_withdraw :: "byte_count \<Rightarrow> unit call" where
  "storage_manager_withdraw c = script
    [deploy c token storage_tests_config, available_is alice 0, deposit_one c,
     drop_result (storage_withdraw (with_deposit c alice 1) (one_near div 2)), available_is alice (one_near div 2)]"

definition storage_manager_withdraw_too_much :: "byte_count \<Rightarrow> unit call" where
  "storage_manager_withdraw_too_much c = script
    [deploy c token storage_tests_config, available_is alice 0, deposit_one c,
     drop_result (storage_withdraw (with_deposit c alice 1) (one_near * 2))]"

lemmas forward_storage = forward forward_modules available_is_def [THEN fun_cong] deposit_one_def [THEN fun_cong]
  storage_deposit_def [THEN fun_cong] storage_withdraw_def [THEN fun_cong] one_near_def STORAGE_MINIMUM_BALANCE_def

lemma storage_manager_deposit_holds: "counts 1000000 c \<Longrightarrow> passes (storage_manager_deposit c)"
  by (simp add: forward_storage storage_manager_deposit_def)

lemma storage_manager_withdraw_holds: "counts 1000000 c \<Longrightarrow> passes (storage_manager_withdraw c)"
  by (simp add: forward_storage storage_manager_withdraw_def)

lemma storage_manager_withdraw_too_much_holds:
  "counts 1000000 c \<Longrightarrow> should_panic (Balance ErrNotEnoughStorage) (storage_manager_withdraw_too_much c)"
  by (simp add: forward_storage storage_manager_withdraw_too_much_def)

section \<open>fee_config.rs and oracle_config.rs\<close>

definition new_fees :: fee_config where
  "new_fees = \<lparr>flux_market_cap = 1234, total_value_staked = 123, resolution_fee_percentage = 999\<rparr>"

definition g_update_fee :: "byte_count \<Rightarrow> unit call" where
  "g_update_fee c = script
    [contract_new test_sdk (with_deposit c gov 15600000000000000000000) None (fee_tests_config gov),
     update_fee_config test_sdk (with_deposit c gov 15600000000000000000000) new_fees]"

definition g_update_fee_invalid :: "byte_count \<Rightarrow> unit call" where
  "g_update_fee_invalid c = script
    [contract_new test_sdk (with_deposit c gov 15600000000000000000000) None (fee_tests_config gov),
     update_fee_config test_sdk (with_deposit c bob 15600000000000000000000) new_fees]"

definition set_config_from_gov :: "byte_count \<Rightarrow> unit call" where
  "set_config_from_gov c = script
    [contract_new test_sdk (with_deposit c gov 19000000000000000000000) None (config_tests_config gov),
     set_config test_sdk (with_deposit c gov 19000000000000000000000) (config_tests_config alice)]"

definition fail_set_config_from_user :: "byte_count \<Rightarrow> unit call" where
  "fail_set_config_from_user c = script
    [contract_new test_sdk (with_deposit c alice 19000000000000000000000) None (config_tests_config gov),
     set_config test_sdk (with_deposit c alice 19000000000000000000000) (config_tests_config alice)]"

text \<open>These tests attach less, enough for 1500 bytes.\<close>

lemma counts_deposit [simp]:
  "counts 1500 c \<Longrightarrow> refundable test_sdk (with_deposit c a 15600000000000000000000) (c st) (c st')"
  "counts 1500 c \<Longrightarrow> refundable test_sdk (with_deposit c a 19000000000000000000000) (c st) (c st')"
  by (rule counts_refundable, assumption, simp_all)+

lemmas forward_config = forward forward_modules update_fee_config_def [THEN fun_cong] set_config_def [THEN fun_cong]
  new_fees_def

lemma g_update_fee_holds: "counts 1500 c \<Longrightarrow> passes (g_update_fee c)"
  by (simp add: forward_config g_update_fee_def)

lemma g_update_fee_invalid_holds: "counts 1500 c \<Longrightarrow> should_panic (Access (ErrNotGov gov)) (g_update_fee_invalid c)"
  by (simp add: forward_config g_update_fee_invalid_def)

lemma set_config_from_gov_holds: "counts 1500 c \<Longrightarrow> passes (set_config_from_gov c)"
  by (simp add: forward_config set_config_from_gov_def)

lemma fail_set_config_from_user_holds: "counts 1500 c \<Longrightarrow> should_panic (Access (ErrNotGov gov)) (fail_set_config_from_user c)"
  by (simp add: forward_config fail_set_config_from_user_def)

end
