(* ===== verification/Spec2Isabelle.thy ===== *)
theory Spec2Isabelle
  imports Request_Properties Contract_Properties Token_Properties Tests_Staking Tests_Finalization Tests_Accounts
begin

text \<open>
  A verification development for the Flux oracle on NEAR: the oracle contract under
  \<open>oracle/src\<close> and the wNEAR token contract under \<open>token/src\<close>.

  \<^bold>\<open>The program.\<close> A whitelisted requester transfers payment tokens to the oracle to file a
  data request. Users transfer stake tokens to stake on outcomes: a round (a
  \<open>ResolutionWindow\<close>) ends when the stakes on one outcome fill its bond, and the next round has
  twice the bond, until a window ends unchallenged (\<open>dr_finalize\<close>), a bond reaches the amount at
  which the final arbitrator is called (\<open>dr_final_arbitrator_finalize\<close>), or the provider named in
  the request answers (\<open>dr_finalize_by_provider\<close>). Stakers on the final outcome then claim their
  stake, a share of the bonds of the losing rounds and of the fee; unbonded stakes can be
  withdrawn at any time. Governance sets configurations, fees, the whitelist and the pause flag.
  The parts interact by calls inside one contract, by shared storage, and by promises to other
  contracts: token transfers, \<open>set_outcome\<close> on the requester, deployment of an upgrade.

  \<^bold>\<open>Foundations.\<close>
  \<^item> \<open>Prelude\<close>: integers as words of their width, one error value per panic, actions
    (\<open>state \<Rightarrow> error + result \<times> state\<close>), checked arithmetic; \<open>Formatting\<close>: decimal rendering and
    its injectivity; \<open>Finite_Sums\<close>: totals of functions with finite support, and the interface
    \<open>ledger\<close> (credit, debit, conservation), provided by token balances and by the stakes of a window.
  \<^item> \<open>Host\<close>: environment, promises, and the persistent collections of the SDK as handles over
    storage regions, with the interfaces \<open>lookup_map\<close> and \<open>persistent_vector\<close>.

  \<^bold>\<open>The oracle, theory by theory.\<close>
  \<^item> \<open>Oracle_Types\<close>, \<open>Oracle_State\<close>: the structs and enums, the \<open>Contract\<close> struct of \<open>lib.rs\<close>,
    the storage, logs and outbox of a call. \<open>Logger\<close>: \<open>logger.rs\<close>. \<open>Helpers\<close>: \<open>helpers.rs\<close> and
    \<open>fungible_token.rs\<close>. \<open>Contract_Checks\<close>: the checks of \<open>lib.rs\<close>, \<open>get_config\<close>.
  \<^item> \<open>Whitelist\<close>: \<open>whitelist.rs\<close> and the requester methods of \<open>requester_handler.rs\<close>.
    \<open>Oracle_Config\<close>: \<open>Contract::new\<close>, \<open>oracle_config.rs\<close>, \<open>fee_config.rs\<close>. \<open>Storage_Manager\<close>:
    \<open>storage_manager.rs\<close>. \<open>Callback_Args\<close>: \<open>callback_args.rs\<close>. \<open>Upgrade\<close>: \<open>upgrade.rs\<close>.
  \<^item> \<open>Resolution_Window\<close>: \<open>resolution_window.rs\<close>. \<open>Data_Request\<close>: the methods of requests in
    \<open>data_request.rs\<close>. \<open>Oracle_Contract\<close>: the handlers of \<open>data_request.rs\<close>,
    \<open>ft_dr_new_callback\<close> and \<open>fungible_token_receiver.rs\<close>, each whole and in the order of the code.
  \<^item> \<open>Rounds\<close>: the dispute game without storage, words or panics; \<open>Request_Refinement\<close>: the code of a
    request implements it. \<open>Oracle_Lifecycle\<close>: the invariant \<open>contract_ok\<close> and the effect of every
    method. \<open>Oracle_Runs\<close>: runs as sequences of calls that return, each labelled with the tokens it
    keeps and the promises it appends to the outbox. \<open>Conservation\<close>: the interface of a system that
    never pays out more than it takes in, proved along runs once; \<open>Solvency\<close>: what is owed, and the
    two instances, for every request and for the contract as a whole, token by token.
    \<open>Finality\<close>: what no later call undoes. \<open>Liveness\<close>: when the handlers return. \<open>Request_Properties\<close>, \<open>Contract_Properties\<close>: the theorems
    on the handlers. \<open>Sample\<close>, \<open>Scenario\<close>: concrete states and a concrete run for witnesses.
  \<^item> \<open>Test_Fixtures\<close>, \<open>Tests_Staking\<close>, \<open>Tests_Finalization\<close>, \<open>Tests_Accounts\<close>: the repository's own
    unit tests of the oracle as lemmas on the model, for every count of bytes by the host within
    the stated bounds.

  \<^bold>\<open>The token.\<close> \<open>Token\<close>: all of \<open>token/src\<close>. \<open>Token_Supply\<close>: the effect of every method, the
  step relation, and the invariant that balances add up to the supply. \<open>Token_Properties\<close>: the theorems.

  \<^bold>\<open>What the theorems show.\<close> In every run whose requests have positive bonds, the tokens
  promised in the outbox and those still due never exceed those taken in, for every request and
  for the contract, token by token, and every active request is a ladder of doubling bonds with
  fewer than 128 rounds (this theory). Staking and unstaking refine the abstract game; a claim pays
  stake and pro-rata shares, at most once, whatever calls follow; claims and stakes return under
  stated bounds; finalization is allowed exactly when the code's rules say, decides what the last
  bonded round says, and is final (\<open>Request_Properties\<close>). Transfers
  in, listing and upgrade are as specified (\<open>Contract_Properties\<close>), as are validation,
  governance, whitelist, storage deposits and arithmetic (with their components). The token
  keeps its supply, its transfers cannot overflow, resolving always returns, and wrapping and
  registration have exact inverses.

  \<^bold>\<open>Modelling decisions.\<close>
  \<^item> A panic carries no state: the chain discards the writes of a call that panics. A promise is
    recorded in the outbox when the code drops or returns it; so \<open>dr_claim\<close> schedules the storage
    refund before the payout, and the three finalizations their promises in their own orders.
  \<^item> Integer arithmetic panics on overflow (\<open>overflow-checks = true\<close> in \<open>Cargo.toml\<close>); \<open>as\<close> casts
    truncate. Rounds are numbered in 16 bits and indexed in 64; the ladder keeps them below 128,
    because a bond doubles in 128 bits each round. No fuel is used: every loop of the sources runs
    over a finite list.
  \<^item> \<open>dr_unstake\<close> does not write the window back; stakes change through the storage handles that
    the stored window holds.
  \<^item> Constants and limits of \<open>flux-sdk\<close> and \<open>near-sdk\<close> are fields of the parameter \<open>sdk\<close>; the byte
    count of the host is a function of the storage; the JSON parsers are parameters; \<open>env::state_read\<close>
    and \<open>env::promise_result\<close> are arguments. The payment attached to the upgrade's call, which the
    host reads through a null pointer, is taken to be zero.
  \<^item> A step of a run is any call that returns; the theorems on runs have the hypothesis that every
    request the run files has a positive bond (\<open>positive_filing\<close>). The constructor does not check
    its configuration, and a minimum bond of zero or a multiplier below \<open>10000\<close> can make a bond
    zero; \<open>positive_bond_config\<close> says when it is positive. What the host counts as bytes is any
    function of the storage; only \<open>dr_claim_total\<close> asks that removing stakes does not raise it.
    The tokens of a call are those its label keeps: the token contract takes back what
    \<open>ft_on_transfer\<close> returns. The callback that resolves a token
    transfer runs with the arguments of a transfer that was scheduled.

  \<^bold>\<open>Not modelled.\<close> The wrappers that \<open>near_bindgen\<close> generates (argument decoding, \<open>payable\<close>,
  \<open>private\<close>, writing the state back), the bytes of JSON log records and of Borsh storage, the text
  of panic messages, gas spent by the calls themselves, the execution of promises on other
  contracts, the unit tests of \<open>fungible_token_receiver.rs\<close> (they fix the exact bytes that a mocked
  host counts, and a JSON text), the integration tests that drive compiled contracts in a
  simulator, and the build and deployment scripts. Traits and \<open>ext_contract\<close> declarations have no behaviour of their own.
\<close>

section \<open>Runs of the oracle\<close>

text \<open>C1: request by request and token by token, promises are covered. Take any run of the contract
  (new, then any calls that return, in any order) in which every request filed has a positive
  bond. For every request and every token, the tokens in the transfers that the calls about this
  request put into the outbox, and what is still due for it in that token (of an active request
  the stakes, the validity bond and the fee; of a finalized one the stakes that can be withdrawn
  or claimed with their winnings, and the shares of the fee not yet claimed), together never
  exceed the tokens that the calls about this request took in.\<close>

theorem requests_solvent:
  assumes "oracle_run parse K w fs" and "\<forall>f \<in> set fs. positive_filing f"
  shows "sum_list (map (promised_for tok i) fs) + due w tok i \<le> sum_list (map (received_for tok i) fs)"
  by (rule fair_run(2) [OF assms])

lemma received_for_le: "sum_list (map (received_for tok i) fs) \<le> sum_list (map received fs)"
  by (induction fs) (auto simp: received_for_def)

lemma requests_solvent_witness:
  "\<exists>w fs. fair_run_of (\<lambda>_. None) w fs \<and> map received fs = [150, 200, 0, 0] \<and>
    sum_list (map (promised_for ''flx'' 0) fs) + due w ''flx'' 0 \<le> 350"
proof -
  from run_claimed [of "\<lambda>_. None"] obtain w fs where
    run: "fair_run_of (\<lambda>_. None) w fs" and fs: "map received fs = [150, 200, 0, 0]" by metis
  have "sum_list (map (promised_for ''flx'' 0) fs) + due w ''flx'' 0 \<le> sum_list (map (received_for ''flx'' 0) fs)"
    using run by (intro requests_solvent) (auto simp: fair_run_of_def)
  also have "\<dots> \<le> 350" using received_for_le [of "''flx''" 0 fs] fs by simp
  finally show ?thesis using run fs by (intro exI [of _ w] exI [of _ fs] conjI)
qed

text \<open>C2: the contract as a whole is solvent in every token. In any run in which every request
  filed has a positive bond, the outbox holds exactly the promises of the calls in their order,
  and the tokens in all its transfers together with all that is still due, over all requests,
  never exceed the tokens that the contract took in.\<close>

theorem contract_solvent:
  assumes "oracle_run parse K w fs" and "\<forall>f \<in> set fs. positive_filing f"
  shows "outbox w = concat (map sent fs) \<and>
    tokens_of tok (outbox w) + total_due w tok \<le> sum_list (map (token_received tok) fs)"
  using fair_run(3) [OF assms] fair_run(4) [OF assms] by blast

lemma token_received_two:
  "a \<noteq> b \<Longrightarrow> sum_list (map (token_received a) fs) + sum_list (map (token_received b) fs) \<le> sum_list (map received fs)"
  by (induction fs) (auto simp: token_received_def)

text \<open>After the claim of the scenario everything has been paid, and nothing is due.\<close>

lemma contract_solvent_witness:
  "\<exists>w fs. fair_run_of (\<lambda>_. None) w fs \<and> map received fs = [150, 200, 0, 0] \<and>
    tokens_of ''pay'' (outbox w) = 150 \<and> tokens_of ''flx'' (outbox w) = 200 \<and>
    total_due w ''pay'' = 0 \<and> total_due w ''flx'' = 0"
proof -
  from run_claimed [of "\<lambda>_. None"] obtain ls ps fs where run: "fair_run_of (\<lambda>_. None) (at_claimed ls ps) fs"
    and fs: "map received fs = [150, 200, 0, 0]" and ps: "tokens_of ''pay'' ps = 150" "tokens_of ''flx'' ps = 200"
    by metis
  let ?w = "at_claimed ls ps"
  have out: "outbox ?w = ps" by (simp add: at_claimed_def at_final_def)
  have "tokens_of tok (outbox ?w) + total_due ?w tok \<le> sum_list (map (token_received tok) fs)" for tok
    using run contract_solvent [of "\<lambda>_. None" sample_sdk ?w fs tok] unfolding fair_run_of_def by blast
  from this [of "''pay''"] this [of "''flx''"] token_received_two [of "''pay''" "''flx''" fs] fs ps
  have "total_due ?w ''pay'' = 0 \<and> total_due ?w ''flx'' = 0" by (simp add: out)
  with run fs ps out show ?thesis by (intro exI [of _ ?w] exI [of _ fs]) simp
qed

text \<open>C3: in every state reached by a run in which every request filed has a positive bond, an
  active request is a ladder of rounds: each round's bond is twice the one before, the first is
  twice the base bond, every round but the last is bonded, no two rounds in a row on the same
  outcome, the last is bonded exactly when the final arbitrator has been called, in every round
  the stakes on an outcome sum to at most the bond and to all of it only on the bonded outcome,
  and there are fewer than 128 rounds. (A bond of zero, which a configuration can round a
  request's bond to, would let rounds follow each other without end.)\<close>

theorem reachable_requests_are_ladders:
  assumes "oracle_run parse K w fs" and "\<forall>f \<in> set fs. positive_filing f"
    and "unat i < length (request_list w)" and "request_list w ! unat i = Active d"
  shows "adr_id d = i \<and> (\<exists>b. calc_resolution_bond d = Inr b \<and> 0 < b \<and>
    ladder (unat b) (adr_final_arbitrator_triggered d) (rounds (store w) d)) \<and> length (rounds (store w) d) < 128"
proof -
  from fair_run(1) [OF assms(1,2)] assms(3,4) have rok: "request_ok (store w) i (Active d)"
    by (auto simp: contract_ok_def)
  then obtain base where g: "adr_id d = i" "game (store w) d base" by (auto simp: request_ok_def)
  then obtain b where "calc_resolution_bond d = Inr b" "0 < b" "base = unat b"
      "ladder base (adr_final_arbitrator_triggered d) (rounds (store w) d)"
    by (auto simp: game_def rounds_def unat_gt_0 word_gt_0)
  moreover from this ladder_few_windows [of base _ "store w" "adr_resolution_windows d"]
  have "length (rounds (store w) d) < 128" by (simp add: rounds_def unat_gt_0 word_gt_0)
  ultimately show ?thesis using g by auto
qed

lemma reachable_requests_are_ladders_witness:
  "\<exists>w fs d. fair_run_of (\<lambda>_. None) w fs \<and> map received fs = [150, 200] \<and> request_list w ! 0 = Active d \<and>
    length (rounds (store w) d) < 128"
proof -
  from run_bonded [of "\<lambda>_. None"] obtain ls fs where
    run: "fair_run_of (\<lambda>_. None) (at_bonded ls) fs" "map received fs = [150, 200]" by metis
  then have r: "oracle_run (\<lambda>_. None) sample_sdk (at_bonded ls) fs" "\<forall>f \<in> set fs. positive_filing f"
    by (simp_all add: fair_run_of_def)
  have l: "unat (0::u64) < length (request_list (at_bonded ls))" "request_list (at_bonded ls) ! unat (0::u64) = Active (the_request 1000 2 False)"
    by (simp_all add: scenario_lists)
  have "length (rounds (store (at_bonded ls)) (the_request 1000 2 False)) < 128"
    using reachable_requests_are_ladders [OF r l] by blast
  with run l show ?thesis by (intro exI [of _ "at_bonded ls"] exI [of _ fs] exI) simp
qed

end
